theory Spec2Isabelle
  imports Complex_Main "HOL-Library.Word"
begin

unbundle bit_operations_syntax

section \<open>Machine types\<close>

type_synonym u8 = "8 word"
type_synonym u16 = "16 word"
type_synonym u32 = "32 word"

section \<open>Protocol engine: CRC16 (app\_comm.c)\<close>

text \<open>
  One pass of the inner \<^verbatim>\<open>for (i = 0; i < 8; i++)\<close> loop of \<^verbatim>\<open>APP_Comm_CRC16\<close>:
  shift right, and XOR with the generator 0xA001 when the bit shifted out was set.
\<close>

definition crc_shift :: "u16 \<Rightarrow> u16" where
  "crc_shift crc = (if crc AND 0x0001 \<noteq> 0 then drop_bit 1 crc XOR 0xA001 else drop_bit 1 crc)"

definition crc_byte :: "u16 \<Rightarrow> u8 \<Rightarrow> u16" where
  "crc_byte crc b = (crc_shift ^^ 8) (crc XOR ucast b)"

text \<open>\<^verbatim>\<open>APP_Comm_CRC16(data, len)\<close>: the buffer \<open>data[0..len)\<close> is the list.\<close>

definition APP_Comm_CRC16 :: "u8 list \<Rightarrow> u16" where
  "APP_Comm_CRC16 bs = foldl crc_byte 0xFFFF bs"

section \<open>Protocol engine: frames and the byte parser (app\_comm.h, app\_comm.c)\<close>

definition FRAME_HEAD :: u8 where "FRAME_HEAD = 0xAA"
definition FRAME_TAIL :: u8 where "FRAME_TAIL = 0x55"
definition MAX_DATA_LEN :: nat where "MAX_DATA_LEN = 256"

definition CMD_ACK :: u8 where "CMD_ACK = 0x80"

definition STATUS_OK :: u8 where "STATUS_OK = 0x00"
definition STATUS_INVALID_CMD :: u8 where "STATUS_INVALID_CMD = 0x01"
definition STATUS_INVALID_PARAM :: u8 where "STATUS_INVALID_PARAM = 0x02"
definition STATUS_CRC_ERROR :: u8 where "STATUS_CRC_ERROR = 0x03"
definition STATUS_FLASH_ERROR :: u8 where "STATUS_FLASH_ERROR = 0x05"

text \<open>
  \<^verbatim>\<open>Frame_t\<close>. The array \<^verbatim>\<open>data[MAX_DATA_LEN]\<close> is a list that holds 256 entries; the field
  \<^verbatim>\<open>len\<close> is the struct's one-byte length (named \<open>len\<close> in the source).
\<close>

record Frame_t =
  head :: u8
  cmd :: u8
  len :: u8
  data :: "u8 list"
  crc :: u16
  tail :: u8

datatype ParseState_t =
  PARSE_HEAD | PARSE_CMD | PARSE_LEN | PARSE_DATA | PARSE_CRC_L | PARSE_CRC_H | PARSE_TAIL

text \<open>The parser's static variables: \<^verbatim>\<open>parse_state\<close>, \<^verbatim>\<open>rx_frame\<close>, \<^verbatim>\<open>data_index\<close>.\<close>

record parser =
  parse_state :: ParseState_t
  rx_frame :: Frame_t
  data_index :: u16

text \<open>
  What \<^verbatim>\<open>ParseByte\<close> does once a tail byte has closed a frame: it calls
  \<^verbatim>\<open>ProcessFrame(&rx_frame)\<close> when the CRC matches, and
  \<^verbatim>\<open>APP_Comm_SendAck(rx_frame.cmd, STATUS_CRC_ERROR)\<close> when it does not.
\<close>

datatype rx_event = FrameOK Frame_t | CrcError u8

text \<open>A store through \<^verbatim>\<open>rx_frame.data[data_index]\<close> outside the 256 entries of the array.\<close>

datatype comm_fault = PayloadOverrun

text \<open>
  \<^verbatim>\<open>ParseByte\<close>, one received byte. The result is the new parser state and the call, if any,
  that the \<^verbatim>\<open>PARSE_TAIL\<close> case makes; a store outside the payload array is the fault.
\<close>

definition ParseByte_step :: "u8 \<Rightarrow> parser \<Rightarrow> comm_fault + (parser \<times> rx_event option)" where
  "ParseByte_step byte p =
    (case parse_state p of
       PARSE_HEAD \<Rightarrow>
         (if byte = FRAME_HEAD
          then Inr (p\<lparr>rx_frame := (rx_frame p)\<lparr>head := byte\<rparr>, parse_state := PARSE_CMD\<rparr>, None)
          else Inr (p, None))
     | PARSE_CMD \<Rightarrow>
         Inr (p\<lparr>rx_frame := (rx_frame p)\<lparr>cmd := byte\<rparr>, parse_state := PARSE_LEN\<rparr>, None)
     | PARSE_LEN \<Rightarrow>
         Inr (p\<lparr>rx_frame := (rx_frame p)\<lparr>len := byte\<rparr>, data_index := 0,
                parse_state := (if byte > 0 then PARSE_DATA else PARSE_CRC_L)\<rparr>, None)
     | PARSE_DATA \<Rightarrow>
         (if unat (data_index p) < MAX_DATA_LEN
          then
            (let f = (rx_frame p)\<lparr>data := (data (rx_frame p))[unat (data_index p) := byte]\<rparr>;
                 i = data_index p + 1
             in Inr (p\<lparr>rx_frame := f, data_index := i,
                       parse_state := (if unat i \<ge> unat (len f) then PARSE_CRC_L else PARSE_DATA)\<rparr>,
                     None))
          else Inl PayloadOverrun)
     | PARSE_CRC_L \<Rightarrow>
         Inr (p\<lparr>rx_frame := (rx_frame p)\<lparr>crc := ucast byte\<rparr>, parse_state := PARSE_CRC_H\<rparr>, None)
     | PARSE_CRC_H \<Rightarrow>
         Inr (p\<lparr>rx_frame := (rx_frame p)\<lparr>crc := crc (rx_frame p) OR push_bit 8 (ucast byte)\<rparr>,
                parse_state := PARSE_TAIL\<rparr>, None)
     | PARSE_TAIL \<Rightarrow>
         (if byte = FRAME_TAIL
          then
            (let f = rx_frame p;
                 crc_buf = cmd f # len f # take (unat (len f)) (data f);
                 calc_crc = APP_Comm_CRC16 crc_buf
             in Inr (p\<lparr>parse_state := PARSE_HEAD\<rparr>,
                     Some (if calc_crc = crc f then FrameOK f else CrcError (cmd f))))
          else Inr (p\<lparr>parse_state := PARSE_HEAD\<rparr>, None)))"

text \<open>
  The loop of \<^verbatim>\<open>APP_Comm_Process\<close> over the bytes that \<^verbatim>\<open>SVC_USB_ReadByte\<close> hands out,
  with the calls made on the way, in order.
\<close>

fun ParseBytes :: "parser \<Rightarrow> u8 list \<Rightarrow> comm_fault + (parser \<times> rx_event list)" where
  "ParseBytes p [] = Inr (p, [])"
| "ParseBytes p (b # bs) =
    (case ParseByte_step b p of
       Inl e \<Rightarrow> Inl e
     | Inr (p', ev) \<Rightarrow>
         (case ParseBytes p' bs of
            Inl e \<Rightarrow> Inl e
          | Inr (p'', evs) \<Rightarrow> Inr (p'', (case ev of None \<Rightarrow> [] | Some e \<Rightarrow> [e]) @ evs)))"

text \<open>
  The parser after \<^verbatim>\<open>APP_Comm_Init\<close>: \<^verbatim>\<open>rx_frame\<close> is a zero-initialised static.
\<close>

definition parser_init :: parser where
  "parser_init =
    \<lparr>parse_state = PARSE_HEAD,
     rx_frame = \<lparr>head = 0, cmd = 0, len = 0, data = replicate MAX_DATA_LEN 0, crc = 0, tail = 0\<rparr>,
     data_index = 0\<rparr>"

text \<open>
  \<^verbatim>\<open>APP_Comm_SendData(cmd, data, len)\<close>: the bytes handed to \<^verbatim>\<open>SVC_USB_Transmit\<close>.
  \<open>data\<close> is the memory behind the pointer, of which \<open>len\<close> bytes are copied.
\<close>

definition APP_Comm_SendData :: "u8 \<Rightarrow> u8 list \<Rightarrow> u8 \<Rightarrow> u8 list" where
  "APP_Comm_SendData c d n =
    (let payload = take (unat n) d;
         crc = APP_Comm_CRC16 (c # n # payload)
     in [FRAME_HEAD, c, n] @ payload @
        [ucast (crc AND 0xFF), ucast (drop_bit 8 crc AND 0xFF), FRAME_TAIL])"

text \<open>
  \<^verbatim>\<open>APP_Comm_SendAck(cmd, status)\<close>: the frame carries \<^verbatim>\<open>CMD_ACK\<close> and the status byte; the
  \<^verbatim>\<open>cmd\<close> argument is not used by the source.
\<close>

definition APP_Comm_SendAck :: "u8 \<Rightarrow> u8 \<Rightarrow> u8 list" where
  "APP_Comm_SendAck c status =
    (let crc = APP_Comm_CRC16 [CMD_ACK, 1, status]
     in [FRAME_HEAD, CMD_ACK, 1, status,
         ucast (crc AND 0xFF), ucast (drop_bit 8 crc AND 0xFF), FRAME_TAIL])"

text \<open>
  A caller that sends a payload passes its length as the \<^verbatim>\<open>uint8_t len\<close> argument, so the
  length is converted to one byte.
\<close>

definition encode_frame :: "u8 \<Rightarrow> u8 list \<Rightarrow> u8 list" where
  "encode_frame c payload = APP_Comm_SendData c payload (of_nat (length payload))"

text \<open>The command code, length and payload of a frame that passed validation.\<close>

definition frame_content :: "Frame_t \<Rightarrow> u8 \<times> nat \<times> u8 list" where
  "frame_content f = (cmd f, unat (len f), take (unat (len f)) (data f))"

text \<open>
  What a byte stream makes the parser deliver: for each closed frame either its content
  (\<open>Inr\<close>, handed to \<^verbatim>\<open>ProcessFrame\<close>) or the command code answered with a CRC error
  (\<open>Inl\<close>).
\<close>

fun rx_content :: "rx_event \<Rightarrow> u8 + (u8 \<times> nat \<times> u8 list)" where
  "rx_content (FrameOK f) = Inr (frame_content f)"
| "rx_content (CrcError c) = Inl c"

definition received :: "parser \<Rightarrow> u8 list \<Rightarrow> comm_fault + (u8 + (u8 \<times> nat \<times> u8 list)) list" where
  "received p bs =
    (case ParseBytes p bs of Inl e \<Rightarrow> Inl e | Inr (p', evs) \<Rightarrow> Inr (map rx_content evs))"


section \<open>Calibration store (app\_param.h, app\_param.c)\<close>

text \<open>
  A \<^verbatim>\<open>float\<close> that is stored, copied or sent is its IEEE-754 binary32 bit pattern, four bytes
  in memory. The target (STM32F4) is little-endian.
\<close>

type_synonym f32_bits = u32

definition le16 :: "u16 \<Rightarrow> u8 list" where
  "le16 w = [ucast w, ucast (drop_bit 8 w)]"

definition le32 :: "u32 \<Rightarrow> u8 list" where
  "le32 w = [ucast w, ucast (drop_bit 8 w), ucast (drop_bit 16 w), ucast (drop_bit 24 w)]"

definition rd16 :: "u8 list \<Rightarrow> nat \<Rightarrow> u16" where
  "rd16 bs i = ucast (bs ! i) OR push_bit 8 (ucast (bs ! (i + 1)))"

definition rd32 :: "u8 list \<Rightarrow> nat \<Rightarrow> u32" where
  "rd32 bs i = ucast (bs ! i) OR push_bit 8 (ucast (bs ! (i + 1))) OR
               push_bit 16 (ucast (bs ! (i + 2))) OR push_bit 24 (ucast (bs ! (i + 3)))"

definition PARAM_MAGIC :: u32 where "PARAM_MAGIC = 0x544D5032"
definition PARAM_VERSION :: u16 where "PARAM_VERSION = 0x0100"
definition DEFAULT_CURRENT_SOURCE :: u8 where "DEFAULT_CURRENT_SOURCE = 0"

text \<open>The bit patterns of \<^verbatim>\<open>0.0f\<close>, \<^verbatim>\<open>-200.0f\<close>, \<^verbatim>\<open>100.0f\<close>, \<^verbatim>\<open>1.0f\<close> and \<^verbatim>\<open>-1.0f\<close>.\<close>

definition DEFAULT_CURRENT_ADJ_10 :: f32_bits where "DEFAULT_CURRENT_ADJ_10 = 0x00000000"
definition DEFAULT_CURRENT_ADJ_17 :: f32_bits where "DEFAULT_CURRENT_ADJ_17 = 0x00000000"
definition DEFAULT_TEMP_4MA :: f32_bits where "DEFAULT_TEMP_4MA = 0xC3480000"
definition DEFAULT_TEMP_20MA :: f32_bits where "DEFAULT_TEMP_20MA = 0x42C80000"
definition f32_one :: f32_bits where "f32_one = 0x3F800000"
definition f32_minus_one :: f32_bits where "f32_minus_one = 0xBF800000"

text \<open>
  \<^verbatim>\<open>UserParam_t\<close>, 32 bytes: the array \<^verbatim>\<open>padding[3]\<close> and the field \<^verbatim>\<open>padding2\<close> are
  members of the struct and are copied and serialised with it.
\<close>

record UserParam_t =
  magic :: u32
  version :: u16
  reserved :: u16
  current_source :: u8
  padding :: "u8 \<times> u8 \<times> u8"
  current_adj_10uA :: f32_bits
  current_adj_17uA :: f32_bits
  temp_4mA :: f32_bits
  temp_20mA :: f32_bits
  crc :: u16
  padding2 :: u16

definition sizeof_UserParam_t :: nat where "sizeof_UserParam_t = 32"

text \<open>The struct as the byte array \<^verbatim>\<open>(uint8_t *)param\<close>.\<close>

definition UserParam_bytes :: "UserParam_t \<Rightarrow> u8 list" where
  "UserParam_bytes p =
    le32 (magic p) @ le16 (version p) @ le16 (reserved p) @
    [current_source p] @ (case padding p of (a, b, c) \<Rightarrow> [a, b, c]) @
    le32 (current_adj_10uA p) @ le32 (current_adj_17uA p) @
    le32 (temp_4mA p) @ le32 (temp_20mA p) @
    le16 (UserParam_t.crc p) @ le16 (padding2 p)"

text \<open>The struct that a 32-byte read from flash fills.\<close>

definition UserParam_of_bytes :: "u8 list \<Rightarrow> UserParam_t" where
  "UserParam_of_bytes bs =
    \<lparr>magic = rd32 bs 0, version = rd16 bs 4, reserved = rd16 bs 6,
     current_source = bs ! 8, padding = (bs ! 9, bs ! 10, bs ! 11),
     current_adj_10uA = rd32 bs 12, current_adj_17uA = rd32 bs 16,
     temp_4mA = rd32 bs 20, temp_20mA = rd32 bs 24,
     crc = rd16 bs 28, padding2 = rd16 bs 30\<rparr>"

text \<open>
  \<^verbatim>\<open>CalcParamCRC\<close>: its own copy of the CRC loop, over
  \<^verbatim>\<open>len = sizeof(UserParam_t) - sizeof(uint16_t) * 2\<close> bytes from the start of the struct.
\<close>

definition CalcParamCRC :: "UserParam_t \<Rightarrow> u16" where
  "CalcParamCRC p =
    foldl crc_byte 0xFFFF (take (sizeof_UserParam_t - 2 * 2) (UserParam_bytes p))"

text \<open>\<^verbatim>\<open>VerifyParam\<close>: 0 is valid, -1 is invalid.\<close>

definition VerifyParam :: "UserParam_t \<Rightarrow> int" where
  "VerifyParam p =
    (if magic p \<noteq> PARAM_MAGIC then - 1
     else if version p > PARAM_VERSION then - 1
     else if UserParam_t.crc p \<noteq> CalcParamCRC p then - 1
     else if current_source p > 1 then - 1
     else 0)"

text \<open>\<^verbatim>\<open>FlashStatus_t\<close>, the result of the flash capability (bsp\_flash.c).\<close>

datatype FlashStatus_t =
  FLASH_OK | FLASH_ERROR_ADDR | FLASH_ERROR_ERASE | FLASH_ERROR_PROGRAM | FLASH_ERROR_VERIFY

text \<open>
  \<^verbatim>\<open>APP_Param_Load\<close>. The arguments are what \<^verbatim>\<open>BSP_Flash_ReadParam\<close> returned (its status
  and the 32 bytes it copied into \<^verbatim>\<open>temp_param\<close>) and \<^verbatim>\<open>g_param\<close>; the result is the return
  value and \<^verbatim>\<open>g_param\<close> afterwards.
\<close>

definition APP_Param_Load :: "FlashStatus_t \<Rightarrow> u8 list \<Rightarrow> UserParam_t \<Rightarrow> int \<times> UserParam_t" where
  "APP_Param_Load status flash g =
    (if status \<noteq> FLASH_OK then (- 1, g)
     else
       (let temp_param = UserParam_of_bytes flash
        in if VerifyParam temp_param \<noteq> 0 then (- 1, g) else (0, temp_param)))"

text \<open>
  \<^verbatim>\<open>APP_Param_Save\<close>: \<^verbatim>\<open>g_param.crc\<close> is updated first; then the statuses of the erase and
  of the write decide the return value. The result also gives the bytes passed to
  \<^verbatim>\<open>BSP_Flash_WriteParam\<close> when the write is reached.
\<close>

definition APP_Param_Save ::
  "FlashStatus_t \<Rightarrow> FlashStatus_t \<Rightarrow> UserParam_t \<Rightarrow> int \<times> UserParam_t \<times> u8 list option" where
  "APP_Param_Save erase_status write_status g =
    (let g' = g\<lparr>UserParam_t.crc := CalcParamCRC g\<rparr>
     in if erase_status \<noteq> FLASH_OK then (- 1, g', None)
        else if write_status \<noteq> FLASH_OK then (- 1, g', Some (UserParam_bytes g'))
        else (0, g', Some (UserParam_bytes g')))"

definition APP_Param_SetDefault :: "UserParam_t \<Rightarrow> UserParam_t" where
  "APP_Param_SetDefault g =
    (let g' = g\<lparr>magic := PARAM_MAGIC, version := PARAM_VERSION, reserved := 0,
                 current_source := DEFAULT_CURRENT_SOURCE,
                 current_adj_10uA := DEFAULT_CURRENT_ADJ_10,
                 current_adj_17uA := DEFAULT_CURRENT_ADJ_17,
                 temp_4mA := DEFAULT_TEMP_4MA, temp_20mA := DEFAULT_TEMP_20MA\<rparr>
     in g'\<lparr>UserParam_t.crc := CalcParamCRC g'\<rparr>)"

text \<open>The static initialiser of \<^verbatim>\<open>g_param\<close>; members it does not name are zero.\<close>

definition g_param_init :: UserParam_t where
  "g_param_init =
    \<lparr>magic = PARAM_MAGIC, version = PARAM_VERSION, reserved = 0,
     current_source = DEFAULT_CURRENT_SOURCE, padding = (0, 0, 0),
     current_adj_10uA = DEFAULT_CURRENT_ADJ_10, current_adj_17uA = DEFAULT_CURRENT_ADJ_17,
     temp_4mA = DEFAULT_TEMP_4MA, temp_20mA = DEFAULT_TEMP_20MA,
     crc = 0, padding2 = 0\<rparr>"

text \<open>
  The order of binary32 values read from their bit patterns: a NaN (exponent all ones,
  mantissa not zero) compares false with everything; otherwise sign and magnitude decide,
  and the two zeros are equal.
\<close>

definition f32_is_nan :: "f32_bits \<Rightarrow> bool" where
  "f32_is_nan w = (w AND 0x7FFFFFFF > 0x7F800000)"

definition f32_key :: "f32_bits \<Rightarrow> int" where
  "f32_key w = (if bit w 31 then - uint (w AND 0x7FFFFFFF) else uint (w AND 0x7FFFFFFF))"

definition f32_lt :: "f32_bits \<Rightarrow> f32_bits \<Rightarrow> bool" where
  "f32_lt a b = (\<not> f32_is_nan a \<and> \<not> f32_is_nan b \<and> f32_key a < f32_key b)"

text \<open>The limit to \<open>\<plusminus>1\<close> in \<^verbatim>\<open>APP_Param_SetCurrentAdj10\<close> and \<^verbatim>\<open>APP_Param_SetCurrentAdj17\<close>.\<close>

definition clamp_adj :: "f32_bits \<Rightarrow> f32_bits" where
  "clamp_adj adj =
    (let adj1 = (if f32_lt f32_one adj then f32_one else adj)
     in if f32_lt adj1 f32_minus_one then f32_minus_one else adj1)"

definition APP_Param_SetCurrentSource :: "u8 \<Rightarrow> UserParam_t \<Rightarrow> UserParam_t" where
  "APP_Param_SetCurrentSource src g = (if src \<le> 1 then g\<lparr>current_source := src\<rparr> else g)"

definition APP_Param_SetCurrentAdj10 :: "f32_bits \<Rightarrow> UserParam_t \<Rightarrow> UserParam_t" where
  "APP_Param_SetCurrentAdj10 adj g = g\<lparr>current_adj_10uA := clamp_adj adj\<rparr>"

definition APP_Param_SetCurrentAdj17 :: "f32_bits \<Rightarrow> UserParam_t \<Rightarrow> UserParam_t" where
  "APP_Param_SetCurrentAdj17 adj g = g\<lparr>current_adj_17uA := clamp_adj adj\<rparr>"

definition APP_Param_Set4mATemp :: "f32_bits \<Rightarrow> UserParam_t \<Rightarrow> UserParam_t" where
  "APP_Param_Set4mATemp t g = g\<lparr>temp_4mA := t\<rparr>"

definition APP_Param_Set20mATemp :: "f32_bits \<Rightarrow> UserParam_t \<Rightarrow> UserParam_t" where
  "APP_Param_Set20mATemp t g = g\<lparr>temp_20mA := t\<rparr>"


section \<open>Application state and the capabilities it calls\<close>

text \<open>
  \<^verbatim>\<open>TempState_t\<close>, \<^verbatim>\<open>ProbeStatus_t\<close> and \<^verbatim>\<open>TempMeasure_t\<close> (app\_temp.h),
  \<^verbatim>\<open>OutputConfig_t\<close> (app\_output.h), \<^verbatim>\<open>CurrentSource_e\<close> (svc\_dac.h). The type
  parameter \<open>'f\<close> stands for \<^verbatim>\<open>float\<close>: the protocol engine moves floats as bit patterns
  (\<open>f32_bits\<close>), the acquisition pipeline computes with their values.
\<close>

datatype TempState_t =
  TEMP_STATE_IDLE | TEMP_STATE_SAMPLING | TEMP_STATE_FILTERING | TEMP_STATE_CALCULATING
  | TEMP_STATE_OUTPUTTING | TEMP_STATE_ERROR

datatype ProbeStatus_t =
  PROBE_STATUS_OK | PROBE_STATUS_OPEN | PROBE_STATUS_SHORT | PROBE_STATUS_RANGE_ERR

fun ProbeStatus_value :: "ProbeStatus_t \<Rightarrow> u8" where
  "ProbeStatus_value PROBE_STATUS_OK = 0"
| "ProbeStatus_value PROBE_STATUS_OPEN = 1"
| "ProbeStatus_value PROBE_STATUS_SHORT = 2"
| "ProbeStatus_value PROBE_STATUS_RANGE_ERR = 3"

record 'f TempMeasure_t =
  state :: TempState_t
  probe_status :: ProbeStatus_t
  current_src :: u8
  running :: u8
  raw_voltage :: 'f
  filtered_voltage :: 'f
  temperature_K :: 'f
  temperature_C :: 'f
  sample_count :: u32

record 'f OutputConfig_t =
  temp_4mA :: 'f
  temp_20mA :: 'f
  current_mA :: 'f

datatype CurrentSource_e = CURRENT_SRC_10UA | CURRENT_SRC_17UA

text \<open>
  The calls into the service and board layers (ADC, DAC, display, USB, flash), which the
  application treats as capabilities: each call is recorded with its arguments, in order.
\<close>

datatype 'f hw_call =
  SVC_ADC_Init
  | SVC_ADC_StartConversion
  | SVC_DAC_Init
  | SVC_DAC_SetCurrentSource CurrentSource_e
  | SVC_DAC_SetCurrentAdj CurrentSource_e 'f
  | SVC_DAC_Set420mA 'f
  | SVC_LCD_SetStatus string
  | SVC_LCD_SetTemperature 'f
  | SVC_LCD_SetVoltage 'f
  | SVC_LCD_SetCurrent 'f
  | SVC_LCD_SetCurrentSource u8
  | SVC_USB_Transmit "u8 list"
  | BSP_Flash_ReadParam
  | BSP_Flash_EraseParam
  | BSP_Flash_WriteParam "u8 list"

text \<open>
  The static variables of app\_param.c, app\_temp.c and app\_output.c, and the record of
  capability calls.
\<close>

record 'f app_state =
  g_param :: UserParam_t
  g_temp :: "'f TempMeasure_t"
  sample_buffer :: "'f list"
  sample_index :: u8
  filter_buffer :: "'f list"
  filter_index :: u8
  filter_count :: u8
  filter_sum :: 'f
  g_output :: "'f OutputConfig_t"
  calls :: "'f hw_call list"

definition TEMP_SAMPLE_COUNT :: nat where "TEMP_SAMPLE_COUNT = 5"
definition TEMP_FILTER_SIZE :: nat where "TEMP_FILTER_SIZE = 16"
definition TEMP_TABLE_MAX_POINTS :: u16 where "TEMP_TABLE_MAX_POINTS = 4871"
definition TEMP_TABLE_MAGIC :: u32 where "TEMP_TABLE_MAGIC = 0x004C4254"

text \<open>
  The calibration table in flash behind \<^verbatim>\<open>p_table_header\<close> and \<^verbatim>\<open>p_table_points\<close>:
  \<^verbatim>\<open>TempTableHeader_t\<close>, then the array of \<^verbatim>\<open>TempTablePoint_t\<close>.
\<close>

record TempTableHeader_t =
  table_magic :: u32
  point_count :: u16
  table_reserved :: u16

record 'f TempTablePoint_t =
  voltage :: 'f
  temperature :: 'f

record 'f temp_table =
  table_header :: TempTableHeader_t
  table_points :: "'f TempTablePoint_t list"

text \<open>\<^verbatim>\<open>APP_Temp_TableVerify\<close>: 0 is valid, -1 is invalid.\<close>

definition APP_Temp_TableVerify :: "'f temp_table \<Rightarrow> int" where
  "APP_Temp_TableVerify tbl =
    (if table_magic (table_header tbl) \<noteq> TEMP_TABLE_MAGIC then - 1
     else if point_count (table_header tbl) = 0 \<or>
             point_count (table_header tbl) > TEMP_TABLE_MAX_POINTS then - 1
     else 0)"

text \<open>\<^verbatim>\<open>APP_Temp_Init\<close>; \<^verbatim>\<open>0.0f\<close> is the zero of \<open>'f\<close>.\<close>

definition APP_Temp_Init :: "'f temp_table \<Rightarrow> ('f::zero) app_state \<Rightarrow> 'f app_state" where
  "APP_Temp_Init tbl s =
    (let g = \<lparr>state = TEMP_STATE_IDLE, probe_status = PROBE_STATUS_OK, current_src = 0,
              running = 0, raw_voltage = 0, filtered_voltage = 0, temperature_K = 0,
              temperature_C = 0, sample_count = 0\<rparr>;
         g' = (if APP_Temp_TableVerify tbl \<noteq> 0 then g\<lparr>state := TEMP_STATE_ERROR\<rparr> else g)
     in s\<lparr>g_temp := g',
           filter_buffer := replicate TEMP_FILTER_SIZE 0,
           filter_index := 0, filter_count := 0, filter_sum := 0,
           sample_index := 0,
           calls := calls s @
             [SVC_ADC_Init, SVC_DAC_Init, SVC_DAC_SetCurrentSource CURRENT_SRC_10UA]\<rparr>)"

definition APP_Temp_Start :: "'f app_state \<Rightarrow> 'f app_state" where
  "APP_Temp_Start s =
    s\<lparr>g_temp := (g_temp s)\<lparr>running := 1, state := TEMP_STATE_SAMPLING\<rparr>,
      sample_index := 0,
      calls := calls s @ [SVC_ADC_StartConversion, SVC_LCD_SetStatus ''Measuring...'']\<rparr>"

definition APP_Temp_Stop :: "'f app_state \<Rightarrow> 'f app_state" where
  "APP_Temp_Stop s =
    s\<lparr>g_temp := (g_temp s)\<lparr>running := 0, state := TEMP_STATE_IDLE\<rparr>,
      calls := calls s @ [SVC_LCD_SetStatus ''Stopped'']\<rparr>"

definition APP_Temp_SetCurrentSource :: "u8 \<Rightarrow> 'f app_state \<Rightarrow> 'f app_state" where
  "APP_Temp_SetCurrentSource src s =
    s\<lparr>g_temp := (g_temp s)\<lparr>current_src := src\<rparr>,
      calls := calls s @
        [SVC_DAC_SetCurrentSource (if src \<noteq> 0 then CURRENT_SRC_17UA else CURRENT_SRC_10UA),
         SVC_LCD_SetCurrentSource src]\<rparr>"

section \<open>Protocol engine: command dispatch (app\_comm.c)\<close>

definition CMD_GET_DEVICE_ID :: u8 where "CMD_GET_DEVICE_ID = 0x01"
definition CMD_GET_TEMPERATURE :: u8 where "CMD_GET_TEMPERATURE = 0x02"
definition CMD_GET_VOLTAGE :: u8 where "CMD_GET_VOLTAGE = 0x03"
definition CMD_GET_CURRENT :: u8 where "CMD_GET_CURRENT = 0x04"
definition CMD_GET_STATUS :: u8 where "CMD_GET_STATUS = 0x05"
definition CMD_SET_CURRENT_SRC :: u8 where "CMD_SET_CURRENT_SRC = 0x10"
definition CMD_SET_CURRENT_ADJ_10 :: u8 where "CMD_SET_CURRENT_ADJ_10 = 0x11"
definition CMD_SET_CURRENT_ADJ_17 :: u8 where "CMD_SET_CURRENT_ADJ_17 = 0x12"
definition CMD_SET_4MA_TEMP :: u8 where "CMD_SET_4MA_TEMP = 0x20"
definition CMD_SET_20MA_TEMP :: u8 where "CMD_SET_20MA_TEMP = 0x21"
definition CMD_START_ACQ :: u8 where "CMD_START_ACQ = 0x30"
definition CMD_STOP_ACQ :: u8 where "CMD_STOP_ACQ = 0x31"
definition CMD_SAVE_PARAM :: u8 where "CMD_SAVE_PARAM = 0x50"
definition CMD_LOAD_PARAM :: u8 where "CMD_LOAD_PARAM = 0x51"
definition CMD_RESET_DEFAULT :: u8 where "CMD_RESET_DEFAULT = 0x52"

definition DEVICE_ID_LEN :: u8 where "DEVICE_ID_LEN = 16"

text \<open>\<^verbatim>\<open>device_id[DEVICE_ID_LEN] = "TM02-00000001"\<close>: 13 characters, then zeros.\<close>

definition device_id :: "u8 list" where
  "device_id = [0x54, 0x4D, 0x30, 0x32, 0x2D, 0x30, 0x30, 0x30, 0x30, 0x30, 0x30, 0x30, 0x31,
                0x00, 0x00, 0x00]"

text \<open>What the flash capability answers during one dispatch.\<close>

record flash_env =
  erase_status :: FlashStatus_t
  write_status :: FlashStatus_t
  read_status :: FlashStatus_t
  read_bytes :: "u8 list"

definition send_ack :: "u8 \<Rightarrow> u8 \<Rightarrow> 'f app_state \<Rightarrow> 'f app_state" where
  "send_ack c status s = s\<lparr>calls := calls s @ [SVC_USB_Transmit (APP_Comm_SendAck c status)]\<rparr>"

definition send_data :: "u8 \<Rightarrow> u8 list \<Rightarrow> u8 \<Rightarrow> 'f app_state \<Rightarrow> 'f app_state" where
  "send_data c d n s = s\<lparr>calls := calls s @ [SVC_USB_Transmit (APP_Comm_SendData c d n)]\<rparr>"

text \<open>
  \<^verbatim>\<open>ProcessFrame\<close>. \<^verbatim>\<open>memcpy(&fval, frame->data, 4)\<close> reads the first four payload bytes as
  a float's bit pattern.
\<close>

definition ProcessFrame :: "flash_env \<Rightarrow> Frame_t \<Rightarrow> f32_bits app_state \<Rightarrow> f32_bits app_state" where
  "ProcessFrame env frame s =
    (let c = cmd frame; fval = rd32 (data frame) 0 in
     if c = CMD_GET_DEVICE_ID then send_data CMD_GET_DEVICE_ID device_id DEVICE_ID_LEN s
     else if c = CMD_GET_TEMPERATURE then
       send_data CMD_GET_TEMPERATURE (le32 (temperature_C (g_temp s))) 4 s
     else if c = CMD_GET_VOLTAGE then
       send_data CMD_GET_VOLTAGE (le32 (filtered_voltage (g_temp s))) 4 s
     else if c = CMD_GET_CURRENT then
       send_data CMD_GET_CURRENT (le32 (current_mA (g_output s))) 4 s
     else if c = CMD_GET_STATUS then
       send_data CMD_GET_STATUS
         ([running (g_temp s), current_src (g_temp s),
           ProbeStatus_value (probe_status (g_temp s)), 0] @ le32 (sample_count (g_temp s))) 8 s
     else if c = CMD_SET_CURRENT_SRC then
       (if len frame \<ge> 1 \<and> data frame ! 0 \<le> 1
        then
          (let s1 = APP_Temp_SetCurrentSource (data frame ! 0) s;
               s2 = s1\<lparr>g_param := APP_Param_SetCurrentSource (data frame ! 0) (g_param s1)\<rparr>
           in send_ack c STATUS_OK s2)
        else send_ack c STATUS_INVALID_PARAM s)
     else if c = CMD_SET_CURRENT_ADJ_10 then
       (if len frame \<ge> 4
        then
          (let s1 = s\<lparr>g_param := APP_Param_SetCurrentAdj10 fval (g_param s)\<rparr>;
               s2 = s1\<lparr>calls := calls s1 @ [SVC_DAC_SetCurrentAdj CURRENT_SRC_10UA fval]\<rparr>
           in send_ack c STATUS_OK s2)
        else send_ack c STATUS_INVALID_PARAM s)
     else if c = CMD_SET_CURRENT_ADJ_17 then
       (if len frame \<ge> 4
        then
          (let s1 = s\<lparr>g_param := APP_Param_SetCurrentAdj17 fval (g_param s)\<rparr>;
               s2 = s1\<lparr>calls := calls s1 @ [SVC_DAC_SetCurrentAdj CURRENT_SRC_17UA fval]\<rparr>
           in send_ack c STATUS_OK s2)
        else send_ack c STATUS_INVALID_PARAM s)
     else if c = CMD_SET_4MA_TEMP then
       (if len frame \<ge> 4
        then
          (let s1 = s\<lparr>g_param := APP_Param_Set4mATemp fval (g_param s)\<rparr>;
               s2 = s1\<lparr>g_output := (g_output s1)\<lparr>temp_4mA := fval\<rparr>\<rparr>
           in send_ack c STATUS_OK s2)
        else send_ack c STATUS_INVALID_PARAM s)
     else if c = CMD_SET_20MA_TEMP then
       (if len frame \<ge> 4
        then
          (let s1 = s\<lparr>g_param := APP_Param_Set20mATemp fval (g_param s)\<rparr>;
               s2 = s1\<lparr>g_output := (g_output s1)\<lparr>temp_20mA := fval\<rparr>\<rparr>
           in send_ack c STATUS_OK s2)
        else send_ack c STATUS_INVALID_PARAM s)
     else if c = CMD_START_ACQ then send_ack c STATUS_OK (APP_Temp_Start s)
     else if c = CMD_STOP_ACQ then send_ack c STATUS_OK (APP_Temp_Stop s)
     else if c = CMD_SAVE_PARAM then
       (case APP_Param_Save (erase_status env) (write_status env) (g_param s) of
          (ret, g', written) \<Rightarrow>
            (let s1 = s\<lparr>g_param := g',
                         calls := calls s @ BSP_Flash_EraseParam #
                           (case written of None \<Rightarrow> [] | Some bs \<Rightarrow> [BSP_Flash_WriteParam bs])\<rparr>
             in send_ack c (if ret = 0 then STATUS_OK else STATUS_FLASH_ERROR) s1))
     else if c = CMD_LOAD_PARAM then
       (case APP_Param_Load (read_status env) (read_bytes env) (g_param s) of
          (ret, g') \<Rightarrow>
            (let s1 = s\<lparr>g_param := g', calls := calls s @ [BSP_Flash_ReadParam]\<rparr>
             in send_ack c (if ret = 0 then STATUS_OK else STATUS_FLASH_ERROR) s1))
     else if c = CMD_RESET_DEFAULT then
       send_ack c STATUS_OK (s\<lparr>g_param := APP_Param_SetDefault (g_param s)\<rparr>)
     else send_ack c STATUS_INVALID_CMD s)"

text \<open>
  \<^verbatim>\<open>ParseByte\<close> as a whole: the parser step, then the call it makes on the application
  state.
\<close>

definition ParseByte ::
  "flash_env \<Rightarrow> u8 \<Rightarrow> parser \<times> f32_bits app_state \<Rightarrow> comm_fault + (parser \<times> f32_bits app_state)" where
  "ParseByte env byte ps =
    (case ParseByte_step byte (fst ps) of
       Inl e \<Rightarrow> Inl e
     | Inr (p', ev) \<Rightarrow>
         Inr (p', (case ev of
                     None \<Rightarrow> snd ps
                   | Some (FrameOK f) \<Rightarrow> ProcessFrame env f (snd ps)
                   | Some (CrcError c) \<Rightarrow> send_ack c STATUS_CRC_ERROR (snd ps))))"


section \<open>Float arithmetic of the acquisition pipeline\<close>

text \<open>
  Where the source computes with a \<^verbatim>\<open>float\<close>, the model computes with its IEEE 754
  binary32 value: a finite number (\<open>Fin 0\<close> is the positive zero), the negative zero, an
  infinity, or NaN. NaNs are not told apart: the code never looks at their payload.
\<close>

datatype float = Fin real | NegZero | PInf | NInf | NaN

instantiation float :: zero
begin

definition zero_float :: float where
  "zero_float = Fin 0"

instance ..

end

fun is_finite :: "float \<Rightarrow> bool" where
  "is_finite (Fin r) = True"
| "is_finite NegZero = True"
| "is_finite PInf = False"
| "is_finite NInf = False"
| "is_finite NaN = False"

fun is_inf :: "float \<Rightarrow> bool" where
  "is_inf (Fin r) = False"
| "is_inf NegZero = False"
| "is_inf PInf = True"
| "is_inf NInf = True"
| "is_inf NaN = False"

text \<open>The number a finite float stands for (0 for the others, where it is not used).\<close>

fun fval :: "float \<Rightarrow> real" where
  "fval (Fin r) = r"
| "fval NegZero = 0"
| "fval PInf = 0"
| "fval NInf = 0"
| "fval NaN = 0"

fun is_zero :: "float \<Rightarrow> bool" where
  "is_zero (Fin r) = (r = 0)"
| "is_zero NegZero = True"
| "is_zero PInf = False"
| "is_zero NInf = False"
| "is_zero NaN = False"

text \<open>The sign bit (not used for NaN).\<close>

fun fsign :: "float \<Rightarrow> bool" where
  "fsign (Fin r) = (r < 0)"
| "fsign NegZero = True"
| "fsign PInf = False"
| "fsign NInf = True"
| "fsign NaN = False"

definition finf :: "bool \<Rightarrow> float" where
  "finf neg = (if neg then NInf else PInf)"

definition fzero :: "bool \<Rightarrow> float" where
  "fzero neg = (if neg then NegZero else Fin 0)"

text \<open>The largest finite binary32 number, \<open>(2\<^sup>2\<^sup>4 - 1) \<times> 2\<^sup>1\<^sup>0\<^sup>4\<close>.\<close>

definition FLT_MAX :: real where
  "FLT_MAX = (2 ^ 24 - 1) * 2 ^ 104"

fun bit_length :: "nat \<Rightarrow> nat" where
  "bit_length n = (if n = 0 then 0 else Suc (bit_length (n div 2)))"

declare bit_length.simps [simp del]

definition pow2 :: "int \<Rightarrow> real" where
  "pow2 k = (if 0 \<le> k then 2 ^ nat k else 1 / 2 ^ nat (- k))"

text \<open>
  The spacing of binary32 numbers around \<open>x\<close>: \<open>\<bar>x\<bar>\<close> counted in units of \<open>2\<^sup>-\<^sup>1\<^sup>4\<^sup>9\<close> has
  \<open>n\<close> bits, of which 24 are kept.
\<close>

definition f32_exp :: "real \<Rightarrow> int" where
  "f32_exp x = int (max (bit_length (nat \<lfloor>\<bar>x\<bar> * 2 ^ 149\<rfloor>)) 24)"

definition f32_ulp :: "real \<Rightarrow> real" where
  "f32_ulp x = pow2 (f32_exp x - 173)"

definition round_even :: "real \<Rightarrow> int" where
  "round_even y =
    (let f = \<lfloor>y\<rfloor>; d = y - of_int f
     in if d < 1 / 2 then f else if d > 1 / 2 then f + 1 else if even f then f else f + 1)"

text \<open>
  The first step of rounding: the nearest number with 24 significant bits and an exponent
  of at least \<open>-149\<close> (gradual underflow), ties to even. The exponent is not yet bounded
  above.
\<close>

definition f32_nearest :: "real \<Rightarrow> real" where
  "f32_nearest x = of_int (round_even (x / f32_ulp x)) * f32_ulp x"

text \<open>
  The result of an operation whose exact value is \<open>x\<close>: beyond \<open>FLT_MAX\<close> the nearest number
  becomes an infinity (overflow); a result that rounds to zero keeps the sign of \<open>x\<close>, and
  \<open>neg\<close> is the sign that the operation gives to an exact zero.
\<close>

definition f32_round :: "bool \<Rightarrow> real \<Rightarrow> float" where
  "f32_round neg x =
    (let r = f32_nearest x
     in if r > FLT_MAX then PInf
        else if r < - FLT_MAX then NInf
        else if r \<noteq> 0 then Fin r
        else if x < 0 \<or> (x = 0 \<and> neg) then NegZero
        else Fin 0)"

text \<open>The real numbers that are binary32 numbers: in range, and rounding leaves them unchanged.\<close>

definition f32_rep :: "real \<Rightarrow> bool" where
  "f32_rep r = (f32_nearest r = r \<and> \<bar>r\<bar> \<le> FLT_MAX)"

text \<open>The values that a \<^verbatim>\<open>float\<close> can hold.\<close>

fun is_f32 :: "float \<Rightarrow> bool" where
  "is_f32 (Fin r) = f32_rep r"
| "is_f32 NegZero = True"
| "is_f32 PInf = True"
| "is_f32 NInf = True"
| "is_f32 NaN = True"

text \<open>
  The value of a bit pattern: sign bit, eight exponent bits, 23 fraction bits. This is how
  the floats that the protocol engine and the flash hold as \<open>f32_bits\<close> are read by the
  pipeline.
\<close>

definition f32_value :: "f32_bits \<Rightarrow> float" where
  "f32_value w =
    (let neg = bit w 31;
         e = unat (drop_bit 23 w AND 0xFF);
         m = unat (w AND 0x7FFFFF)
     in if e = 255 then (if m = 0 then finf neg else NaN)
        else if e = 0 \<and> m = 0 then fzero neg
        else
          (let r = (if e = 0 then real m * pow2 (- 149)
                    else real (2 ^ 23 + m) * pow2 (int e - 150))
           in Fin (if neg then - r else r)))"

text \<open>
  The operators \<^verbatim>\<open>+\<close>, \<^verbatim>\<open>-\<close>, \<^verbatim>\<open>*\<close> and \<^verbatim>\<open>/\<close> on \<^verbatim>\<open>float\<close> operands. NaN propagates;
  \<open>\<infinity> - \<infinity>\<close>, \<open>0 \<times> \<infinity>\<close>, \<open>\<infinity> / \<infinity>\<close> and \<open>0 / 0\<close> are NaN; a non-zero number divided by zero is
  an infinity; an exact zero sum is negative only if both operands are negative zeros;
  products and quotients take the exclusive or of the operands' signs.
\<close>

definition fadd :: "float \<Rightarrow> float \<Rightarrow> float" where
  "fadd a b =
    (if a = NaN \<or> b = NaN then NaN
     else if is_inf a then (if is_inf b \<and> a \<noteq> b then NaN else a)
     else if is_inf b then b
     else f32_round (a = NegZero \<and> b = NegZero) (fval a + fval b))"

fun fneg :: "float \<Rightarrow> float" where
  "fneg (Fin r) = (if r = 0 then NegZero else Fin (- r))"
| "fneg NegZero = Fin 0"
| "fneg PInf = NInf"
| "fneg NInf = PInf"
| "fneg NaN = NaN"

definition fsub :: "float \<Rightarrow> float \<Rightarrow> float" where
  "fsub a b = fadd a (fneg b)"

definition fmul :: "float \<Rightarrow> float \<Rightarrow> float" where
  "fmul a b =
    (if a = NaN \<or> b = NaN then NaN
     else if is_inf a \<or> is_inf b
       then (if is_zero a \<or> is_zero b then NaN else finf (fsign a \<noteq> fsign b))
     else f32_round (fsign a \<noteq> fsign b) (fval a * fval b))"

definition fdiv :: "float \<Rightarrow> float \<Rightarrow> float" where
  "fdiv a b =
    (if a = NaN \<or> b = NaN then NaN
     else if is_inf a then (if is_inf b then NaN else finf (fsign a \<noteq> fsign b))
     else if is_inf b then fzero (fsign a \<noteq> fsign b)
     else if is_zero b then (if is_zero a then NaN else finf (fsign a \<noteq> fsign b))
     else f32_round (fsign a \<noteq> fsign b) (fval a / fval b))"

text \<open>
  The comparisons \<^verbatim>\<open><\<close>, \<^verbatim>\<open>==\<close>, \<^verbatim>\<open><=\<close>, \<^verbatim>\<open>>\<close> and \<^verbatim>\<open>>=\<close>: false whenever an operand is
  NaN; the two zeros are equal.
\<close>

definition flt :: "float \<Rightarrow> float \<Rightarrow> bool" where
  "flt a b =
    (a \<noteq> NaN \<and> b \<noteq> NaN \<and>
     (if is_inf a \<or> is_inf b then a \<noteq> b \<and> (a = NInf \<or> b = PInf) else fval a < fval b))"

definition feq :: "float \<Rightarrow> float \<Rightarrow> bool" where
  "feq a b =
    (a \<noteq> NaN \<and> b \<noteq> NaN \<and> (if is_inf a \<or> is_inf b then a = b else fval a = fval b))"

definition fle :: "float \<Rightarrow> float \<Rightarrow> bool" where
  "fle a b = (flt a b \<or> feq a b)"

definition fgt :: "float \<Rightarrow> float \<Rightarrow> bool" where
  "fgt a b = flt b a"

definition fge :: "float \<Rightarrow> float \<Rightarrow> bool" where
  "fge a b = fle b a"

text \<open>
  A float on the extended number line, for comparing results: an infinity lies at
  \<open>\<plusminus>2\<^sup>1\<^sup>2\<^sup>8\<close>, just beyond the finite numbers.
\<close>

fun fext :: "float \<Rightarrow> real" where
  "fext (Fin r) = r"
| "fext NegZero = 0"
| "fext PInf = 2 ^ 128"
| "fext NInf = - (2 ^ 128)"
| "fext NaN = 0"

text \<open>The floats that stand on that line with the finite ones inside \<open>\<plusminus>FLT_MAX\<close>.\<close>

definition fnum :: "float \<Rightarrow> bool" where
  "fnum a = (a \<noteq> NaN \<and> \<bar>fval a\<bar> \<le> FLT_MAX)"

section \<open>Calibration table lookup (app\_temp.c)\<close>

text \<open>
  The \<^verbatim>\<open>while (high - low > 1)\<close> loop of \<^verbatim>\<open>APP_Temp_TableLookup\<close>. \<open>low\<close> and \<open>high\<close> are
  C \<^verbatim>\<open>int\<close>s that stay between 0 and 4870, where \<^verbatim>\<open>/\<close> is \<open>div\<close>.
\<close>

function table_search :: "float TempTablePoint_t list \<Rightarrow> float \<Rightarrow> int \<Rightarrow> int \<Rightarrow> int \<times> int" where
  "table_search pts v low high =
    (if high - low > 1
     then
       (let mid = (low + high) div 2
        in if fgt v (voltage (pts ! nat mid))
           then table_search pts v low mid
           else table_search pts v mid high)
     else (low, high))"
  by pat_completeness auto
termination
  by (relation "measure (\<lambda>(pts, v, low, high). nat (high - low))") auto

declare table_search.simps [simp del]

text \<open>The return expression \<^verbatim>\<open>t0 + (voltage - v0) * (t1 - t0) / (v1 - v0)\<close>.\<close>

definition interpolate :: "float \<Rightarrow> float \<Rightarrow> float \<Rightarrow> float \<Rightarrow> float \<Rightarrow> float" where
  "interpolate v v0 t0 v1 t1 = fadd t0 (fdiv (fmul (fsub v v0) (fsub t1 t0)) (fsub v1 v0))"

definition APP_Temp_TableLookup :: "float temp_table \<Rightarrow> float \<Rightarrow> float" where
  "APP_Temp_TableLookup tbl v =
    (let pts = table_points tbl;
         high = int (unat (point_count (table_header tbl))) - 1
     in if APP_Temp_TableVerify tbl \<noteq> 0 then Fin 0
        else if fge v (voltage (pts ! 0)) then temperature (pts ! 0)
        else if fle v (voltage (pts ! nat high)) then temperature (pts ! nat high)
        else
          (case table_search pts v 0 high of
             (lo, hi) \<Rightarrow>
               interpolate v (voltage (pts ! nat lo)) (temperature (pts ! nat lo))
                 (voltage (pts ! nat hi)) (temperature (pts ! nat hi))))"

text \<open>A table image built from a list of (voltage, temperature) pairs, with a valid header.\<close>

definition mk_table :: "(float \<times> float) list \<Rightarrow> float temp_table" where
  "mk_table ps =
    \<lparr>table_header = \<lparr>table_magic = TEMP_TABLE_MAGIC, point_count = of_nat (length ps),
                      table_reserved = 0\<rparr>,
     table_points = map (\<lambda>(v, t). \<lparr>voltage = v, temperature = t\<rparr>) ps\<rparr>"

section \<open>Probe classification, filters and the acquisition state machine (app\_temp.c)\<close>

definition PROBE_OPEN_VOLTAGE :: float where "PROBE_OPEN_VOLTAGE = Fin 3000"
definition PROBE_SHORT_VOLTAGE :: float where "PROBE_SHORT_VOLTAGE = Fin 10"
definition PROBE_MAX_VOLTAGE :: float where "PROBE_MAX_VOLTAGE = Fin 2500"
definition PROBE_MIN_VOLTAGE :: float where "PROBE_MIN_VOLTAGE = Fin 100"

text \<open>\<^verbatim>\<open>CheckProbeStatus\<close>: the value it stores in \<^verbatim>\<open>g_temp.probe_status\<close>.\<close>

definition CheckProbeStatus :: "float \<Rightarrow> ProbeStatus_t" where
  "CheckProbeStatus v =
    (if fgt v PROBE_OPEN_VOLTAGE then PROBE_STATUS_OPEN
     else if flt v PROBE_SHORT_VOLTAGE then PROBE_STATUS_SHORT
     else if fgt v PROBE_MAX_VOLTAGE \<or> flt v PROBE_MIN_VOLTAGE then PROBE_STATUS_RANGE_ERR
     else PROBE_STATUS_OK)"

text \<open>\<^verbatim>\<open>Kelvin_to_Celsius\<close>; \<^verbatim>\<open>273.15f\<close> is the binary32 number nearest to 273.15.\<close>

definition Kelvin_to_Celsius :: "float \<Rightarrow> float" where
  "Kelvin_to_Celsius kelvin = fsub kelvin (f32_round False (27315 / 100))"

text \<open>The two loops of the bubble sort in \<^verbatim>\<open>MedianFilter\<close>.\<close>

function bubble_inner :: "nat \<Rightarrow> nat \<Rightarrow> float list \<Rightarrow> float list" where
  "bubble_inner j n xs =
    (if j < n
     then bubble_inner (j + 1) n
            (if fgt (xs ! j) (xs ! (j + 1)) then xs[j := xs ! (j + 1), j + 1 := xs ! j] else xs)
     else xs)"
  by pat_completeness auto
termination
  by (relation "measure (\<lambda>(j, n, xs). n - j)") auto

declare bubble_inner.simps [simp del]

function bubble_outer :: "nat \<Rightarrow> nat \<Rightarrow> float list \<Rightarrow> float list" where
  "bubble_outer i n xs =
    (if i < n - 1 then bubble_outer (i + 1) n (bubble_inner 0 (n - 1 - i) xs) else xs)"
  by pat_completeness auto
termination
  by (relation "measure (\<lambda>(i, n, xs). n - 1 - i)") auto

declare bubble_outer.simps [simp del]

definition MedianFilter :: "float list \<Rightarrow> nat \<Rightarrow> float" where
  "MedianFilter d n = bubble_outer 0 n (take (min n TEMP_SAMPLE_COUNT) d) ! (n div 2)"

text \<open>
  \<^verbatim>\<open>MovingAvgFilter\<close>: the filter variables afterwards and the returned average. The count,
  a \<^verbatim>\<open>uint8_t\<close>, converts to \<^verbatim>\<open>float\<close> without rounding.
\<close>

definition MovingAvgFilter :: "float \<Rightarrow> float app_state \<Rightarrow> float app_state \<times> float" where
  "MovingAvgFilter v s =
    (let i = unat (filter_index s);
         sum1 = fsub (filter_sum s) (filter_buffer s ! i);
         sum2 = fadd sum1 v;
         cnt = (if unat (filter_count s) < TEMP_FILTER_SIZE then filter_count s + 1
                else filter_count s)
     in (s\<lparr>filter_sum := sum2, filter_buffer := (filter_buffer s)[i := v],
           filter_index := of_nat ((i + 1) mod TEMP_FILTER_SIZE), filter_count := cnt\<rparr>,
         fdiv sum2 (Fin (real (unat cnt)))))"

section \<open>Analog output mapper (app\_output.c)\<close>

definition OUTPUT_MIN_CURRENT :: float where "OUTPUT_MIN_CURRENT = Fin 4"
definition OUTPUT_MAX_CURRENT :: float where "OUTPUT_MAX_CURRENT = Fin 20"

definition APP_Output_CalcCurrent :: "float OutputConfig_t \<Rightarrow> float \<Rightarrow> float" where
  "APP_Output_CalcCurrent g T =
    (let temp_range = fsub (temp_20mA g) (temp_4mA g)
     in if feq temp_range (Fin 0) then Fin 12
        else
          (let current = fadd OUTPUT_MIN_CURRENT
                           (fmul (fdiv (fsub T (temp_4mA g)) temp_range)
                                 (fsub OUTPUT_MAX_CURRENT OUTPUT_MIN_CURRENT));
               current1 = (if flt current OUTPUT_MIN_CURRENT then OUTPUT_MIN_CURRENT
                           else current)
           in if fgt current1 OUTPUT_MAX_CURRENT then OUTPUT_MAX_CURRENT else current1))"

definition APP_Output_UpdateCurrent :: "float \<Rightarrow> float app_state \<Rightarrow> float app_state" where
  "APP_Output_UpdateCurrent T s =
    (let current = APP_Output_CalcCurrent (g_output s) T
     in s\<lparr>g_output := (g_output s)\<lparr>current_mA := current\<rparr>,
           calls := calls s @ [SVC_DAC_Set420mA current, SVC_LCD_SetCurrent current]\<rparr>)"

section \<open>The acquisition state machine (app\_temp.c)\<close>

text \<open>What the ADC capability answers during one call of \<^verbatim>\<open>APP_Temp_Process\<close>.\<close>

record adc_env =
  adc_ready :: bool
  adc_voltage :: float

text \<open>A store through \<^verbatim>\<open>sample_buffer[sample_index++]\<close> outside the array.\<close>

datatype acq_fault = SampleOverrun

definition probe_message :: "ProbeStatus_t \<Rightarrow> string" where
  "probe_message st =
    (case st of
       PROBE_STATUS_OPEN \<Rightarrow> ''Probe Open!''
     | PROBE_STATUS_SHORT \<Rightarrow> ''Probe Short!''
     | PROBE_STATUS_RANGE_ERR \<Rightarrow> ''Out of Range!''
     | PROBE_STATUS_OK \<Rightarrow> ''Error!'')"

definition APP_Temp_Process ::
  "float temp_table \<Rightarrow> adc_env \<Rightarrow> float app_state \<Rightarrow> acq_fault + float app_state" where
  "APP_Temp_Process tbl adc s =
    (if running (g_temp s) = 0 then Inr s
     else
       (case state (g_temp s) of
          TEMP_STATE_SAMPLING \<Rightarrow>
            (if adc_ready adc
             then
               (if unat (sample_index s) < TEMP_SAMPLE_COUNT
                then
                  (let s1 = s\<lparr>g_temp := (g_temp s)\<lparr>raw_voltage := adc_voltage adc\<rparr>,
                               sample_buffer :=
                                 (sample_buffer s)[unat (sample_index s) := adc_voltage adc],
                               sample_index := sample_index s + 1\<rparr>
                   in if unat (sample_index s1) \<ge> TEMP_SAMPLE_COUNT
                      then Inr (s1\<lparr>sample_index := 0,
                                   g_temp := (g_temp s1)\<lparr>state := TEMP_STATE_FILTERING\<rparr>\<rparr>)
                      else Inr (s1\<lparr>calls := calls s1 @ [SVC_ADC_StartConversion]\<rparr>))
                else Inl SampleOverrun)
             else Inr s)
        | TEMP_STATE_FILTERING \<Rightarrow>
            (let median_value = MedianFilter (sample_buffer s) TEMP_SAMPLE_COUNT
             in case MovingAvgFilter median_value s of
                  (s1, avg) \<Rightarrow>
                    Inr (s1\<lparr>g_temp := (g_temp s1)\<lparr>filtered_voltage := avg,
                                                  probe_status := CheckProbeStatus avg,
                                                  state := TEMP_STATE_CALCULATING\<rparr>\<rparr>))
        | TEMP_STATE_CALCULATING \<Rightarrow>
            (let s1 =
               (if probe_status (g_temp s) = PROBE_STATUS_OK
                then
                  (let k = APP_Temp_TableLookup tbl (filtered_voltage (g_temp s));
                       c = Kelvin_to_Celsius k
                   in s\<lparr>g_temp := (g_temp s)\<lparr>temperature_K := k, temperature_C := c\<rparr>,
                         calls := calls s @
                           [SVC_LCD_SetTemperature c,
                            SVC_LCD_SetVoltage (filtered_voltage (g_temp s)),
                            SVC_LCD_SetStatus ''OK'']\<rparr>)
                else s\<lparr>calls := calls s @
                            [SVC_LCD_SetStatus (probe_message (probe_status (g_temp s)))]\<rparr>)
             in Inr (s1\<lparr>g_temp := (g_temp s1)\<lparr>state := TEMP_STATE_OUTPUTTING\<rparr>\<rparr>))
        | TEMP_STATE_OUTPUTTING \<Rightarrow>
            (let s1 = (if probe_status (g_temp s) = PROBE_STATUS_OK
                       then APP_Output_UpdateCurrent (temperature_C (g_temp s)) s else s)
             in Inr (s1\<lparr>g_temp := (g_temp s1)\<lparr>sample_count := sample_count (g_temp s1) + 1,
                                              state := TEMP_STATE_SAMPLING\<rparr>,
                         calls := calls s1 @ [SVC_ADC_StartConversion]\<rparr>))
        | TEMP_STATE_ERROR \<Rightarrow>
            Inr (s\<lparr>calls := calls s @ [SVC_LCD_SetStatus ''System Error!'']\<rparr>)
        | TEMP_STATE_IDLE \<Rightarrow>
            Inr (s\<lparr>g_temp := (g_temp s)\<lparr>state := TEMP_STATE_IDLE\<rparr>\<rparr>)))"

text \<open>
  The static initialisers of app\_temp.c, app\_output.c and app\_param.c before
  \<^verbatim>\<open>App_Init\<close> runs; the output set-points are given, since their float constants differ
  between the two readings of \<open>'f\<close>.
\<close>

definition app_state_init :: "'f \<Rightarrow> 'f \<Rightarrow> 'f \<Rightarrow> ('f::zero) app_state" where
  "app_state_init t4 t20 i4 =
    \<lparr>g_param = g_param_init,
     g_temp = \<lparr>state = TEMP_STATE_IDLE, probe_status = PROBE_STATUS_OK, current_src = 0,
               running = 0, raw_voltage = 0, filtered_voltage = 0, temperature_K = 0,
               temperature_C = 0, sample_count = 0\<rparr>,
     sample_buffer = replicate TEMP_SAMPLE_COUNT 0,
     sample_index = 0,
     filter_buffer = replicate TEMP_FILTER_SIZE 0,
     filter_index = 0, filter_count = 0, filter_sum = 0,
     g_output = \<lparr>temp_4mA = t4, temp_20mA = t20, current_mA = i4\<rparr>,
     calls = []\<rparr>"

text \<open>
  The application state as the static initialisers leave it, in both readings of \<open>'f\<close>:
  \<^verbatim>\<open>g_output = {-200.0f, 100.0f, 4.0f}\<close>.
\<close>

definition boot_state_bits :: "f32_bits app_state" where
  "boot_state_bits = app_state_init 0xC3480000 0x42C80000 0x40800000"

definition boot_state :: "float app_state" where
  "boot_state = app_state_init (Fin (- 200)) (Fin 100) (Fin 4)"


section \<open>Properties of the protocol parser\<close>

lemma funpow8: "(f ^^ 8) x = f (f (f (f (f (f (f (f x)))))))"
  by (simp add: numeral_eq_Suc)

lemmas crc_eval = APP_Comm_CRC16_def crc_byte_def crc_shift_def funpow8

lemma ff_mask: "(0xFF :: u16) = mask 8"
  by (simp add: mask_eq_exp_minus_1)

lemma crc_join:
  "ucast (ucast (w AND 0xFF) :: u8) OR push_bit 8 (ucast (ucast (drop_bit 8 w AND 0xFF) :: u8)) = (w :: u16)"
  unfolding ff_mask by (rule bit_word_eqI) (auto simp: bit_simps)

lemma unat_u8_le: "unat (w :: u8) \<le> 255"
  using unsigned_less [of w, where 'a = nat] by simp

lemma ParseBytes_step_None:
  "ParseByte_step b p = Inr (p', None) \<Longrightarrow> ParseBytes p (b # bs) = ParseBytes p' bs"
  by (simp split: sum.splits prod.splits)

text \<open>One payload byte in the \<^verbatim>\<open>PARSE_DATA\<close> state, while the index is below the length.\<close>

lemma data_step:
  assumes "parse_state p = PARSE_DATA" "unat (data_index p) = i" "i < unat (len (rx_frame p))"
  shows "ParseByte_step x p =
         Inr (p\<lparr>rx_frame := (rx_frame p)\<lparr>data := (data (rx_frame p))[i := x]\<rparr>,
                data_index := of_nat (Suc i),
                parse_state := (if Suc i \<ge> unat (len (rx_frame p)) then PARSE_CRC_L else PARSE_DATA)\<rparr>,
              None)"
proof -
  have i_lt: "i < 255" using assms(3) unat_u8_le [of "len (rx_frame p)"] by simp
  have w: "data_index p = of_nat i" using assms(2) [symmetric] by simp
  have idx: "data_index p + 1 = of_nat (Suc i)" by (simp add: w)
  have "unat (of_nat (Suc i) :: u16) = Suc i"
    using i_lt by (simp add: unat_of_nat del: of_nat_Suc)
  then show ?thesis
    using assms i_lt idx
    by (simp add: ParseByte_step_def Let_def MAX_DATA_LEN_def del: of_nat_Suc)
qed

text \<open>The whole payload: the bytes land at the front of the array, in order.\<close>

lemma data_phase:
  "parse_state p = PARSE_DATA \<Longrightarrow> unat (data_index p) = i \<Longrightarrow>
   i + length xs = unat (len (rx_frame p)) \<Longrightarrow> xs \<noteq> [] \<Longrightarrow>
   length (data (rx_frame p)) = MAX_DATA_LEN \<Longrightarrow>
   ParseBytes p (xs @ rest) =
   ParseBytes (p\<lparr>rx_frame := (rx_frame p)\<lparr>data := take i (data (rx_frame p)) @ xs @
                                                  drop (i + length xs) (data (rx_frame p))\<rparr>,
                 data_index := of_nat (i + length xs), parse_state := PARSE_CRC_L\<rparr>) rest"
proof (induction xs arbitrary: p i)
  case Nil
  then show ?case by simp
next
  case (Cons x xs)
  let ?d = "data (rx_frame p)"
  have i_lt: "i < 255" using Cons.prems unat_u8_le [of "len (rx_frame p)"] by simp
  have upd: "?d[i := x] = take i ?d @ x # drop (Suc i) ?d"
    using Cons.prems i_lt by (simp add: upd_conv_take_nth_drop MAX_DATA_LEN_def)
  have step: "ParseByte_step x p =
         Inr (p\<lparr>rx_frame := (rx_frame p)\<lparr>data := ?d[i := x]\<rparr>,
                data_index := of_nat (Suc i),
                parse_state := (if Suc i \<ge> unat (len (rx_frame p)) then PARSE_CRC_L else PARSE_DATA)\<rparr>,
              None)"
    using Cons.prems by (intro data_step) simp_all
  show ?case
  proof (cases "xs = []")
    case True
    then show ?thesis
      using Cons.prems step upd by (simp del: of_nat_Suc split: sum.splits prod.splits)
  next
    case False
    let ?p' = "p\<lparr>rx_frame := (rx_frame p)\<lparr>data := ?d[i := x]\<rparr>,
                data_index := of_nat (Suc i), parse_state := PARSE_DATA\<rparr>"
    have u: "unat (of_nat (Suc i) :: u16) = Suc i"
      using i_lt by (simp add: unat_of_nat del: of_nat_Suc)
    have lt: "Suc i < unat (len (rx_frame p))" using Cons.prems False by (cases xs) simp_all
    have IH: "ParseBytes ?p' (xs @ rest) =
       ParseBytes (?p'\<lparr>rx_frame := (rx_frame ?p')\<lparr>data := take (Suc i) (data (rx_frame ?p')) @ xs @
                          drop (Suc i + length xs) (data (rx_frame ?p'))\<rparr>,
                 data_index := of_nat (Suc i + length xs), parse_state := PARSE_CRC_L\<rparr>) rest"
      using Cons.prems False u by (intro Cons.IH) simp_all
    have tk: "take (Suc i) (?d[i := x]) = take i ?d @ [x]"
      using Cons.prems i_lt by (simp add: upd MAX_DATA_LEN_def)
    have dr: "drop (Suc i + length xs) (?d[i := x]) = drop (Suc i + length xs) ?d"
      by simp
    show ?thesis
      using step lt IH tk dr by (simp del: of_nat_Suc split: sum.splits prod.splits)
  qed
qed

lemma roundtrip_events:
  assumes hd: "parse_state p = PARSE_HEAD"
    and dl: "length (data (rx_frame p)) = MAX_DATA_LEN"
    and pl: "length payload \<le> 255"
  shows "\<exists>p' f. ParseBytes p (encode_frame c payload) = Inr (p', [FrameOK f]) \<and>
           frame_content f = (c, length payload, payload) \<and> parse_state p' = PARSE_HEAD"
proof -
  define n :: u8 where "n = of_nat (length payload)"
  have un: "unat n = length payload"
    using pl by (simp add: n_def unat_of_nat)
  define k where "k = APP_Comm_CRC16 (c # n # payload)"
  define trailer :: "u8 list" where
    "trailer = [ucast (k AND 0xFF), ucast (drop_bit 8 k AND 0xFF), FRAME_TAIL]"
  have enc: "encode_frame c payload = FRAME_HEAD # c # n # payload @ trailer"
    by (simp add: encode_frame_def APP_Comm_SendData_def Let_def un n_def [symmetric]
        k_def trailer_def)
  define p3 where
    "p3 = p\<lparr>rx_frame := (rx_frame p)\<lparr>head := FRAME_HEAD, cmd := c, len := n\<rparr>, data_index := 0,
             parse_state := (if n > 0 then PARSE_DATA else PARSE_CRC_L)\<rparr>"
  have start: "ParseBytes p (FRAME_HEAD # c # n # rest) = ParseBytes p3 rest" for rest
    using hd by (simp add: ParseByte_step_def p3_def split: sum.splits prod.splits)
  define d' where "d' = payload @ drop (length payload) (data (rx_frame p))"
  define p4 where
    "p4 = p\<lparr>rx_frame := (rx_frame p)\<lparr>head := FRAME_HEAD, cmd := c, len := n, data := d'\<rparr>,
             data_index := of_nat (length payload), parse_state := PARSE_CRC_L\<rparr>"
  have mid: "ParseBytes p3 (payload @ trailer) = ParseBytes p4 trailer"
  proof (cases "payload = []")
    case True
    then have "n = 0" by (simp add: n_def)
    then show ?thesis using True by (simp add: p3_def p4_def d'_def)
  next
    case False
    then have "unat n \<noteq> 0" using un by simp
    then have npos: "n > 0" by (simp add: word_greater_zero_iff unat_eq_0)
    have "ParseBytes p3 (payload @ trailer) =
      ParseBytes (p3\<lparr>rx_frame := (rx_frame p3)\<lparr>data := take 0 (data (rx_frame p3)) @ payload @
                          drop (0 + length payload) (data (rx_frame p3))\<rparr>,
                 data_index := of_nat (0 + length payload), parse_state := PARSE_CRC_L\<rparr>) trailer"
      using False npos un dl by (intro data_phase) (simp_all add: p3_def)
    then show ?thesis by (simp add: p3_def p4_def d'_def)
  qed
  define f where
    "f = (rx_frame p)\<lparr>head := FRAME_HEAD, cmd := c, len := n, data := d', Frame_t.crc := k\<rparr>"
  have tk: "take (unat n) d' = payload" by (simp add: d'_def un)
  have fin: "ParseBytes p4 trailer = Inr (p4\<lparr>rx_frame := f, parse_state := PARSE_HEAD\<rparr>, [FrameOK f])"
    by (simp add: trailer_def ParseByte_step_def p4_def f_def Let_def crc_join tk k_def)
  have "frame_content f = (c, length payload, payload)"
    using tk by (simp add: frame_content_def f_def un)
  then show ?thesis
    using enc start mid fin by auto
qed

text \<open>
  Claim C8, as amended. For every command code and every payload of at most 255 bytes
  (the largest length that the one-byte length field and the \<^verbatim>\<open>uint8_t len\<close> argument of
  \<^verbatim>\<open>APP_Comm_SendData\<close> can carry), the bytes of the encoded frame, fed one at a time to a
  parser in the head-seek state, deliver exactly one validated frame, with the same command
  code, length and payload, and no CRC error.
\<close>

theorem C8_roundtrip:
  assumes "parse_state p = PARSE_HEAD"
    and "length (data (rx_frame p)) = MAX_DATA_LEN"
    and "length payload \<le> 255"
  shows "received p (encode_frame c payload) = Inr [Inr (c, length payload, payload)]"
proof -
  obtain p' f where "ParseBytes p (encode_frame c payload) = Inr (p', [FrameOK f])"
    and "frame_content f = (c, length payload, payload)"
    using roundtrip_events [OF assms] by blast
  then show ?thesis by (simp add: received_def)
qed

theorem C8_roundtrip_witness:
  "parse_state parser_init = PARSE_HEAD \<and>
   length (data (rx_frame parser_init)) = MAX_DATA_LEN \<and>
   length [5, 6, 7 :: u8] \<le> 255 \<and>
   received parser_init (encode_frame 1 [5, 6, 7]) = Inr [Inr (1, length [5, 6, 7 :: u8], [5, 6, 7])]"
proof -
  have h1: "parse_state parser_init = PARSE_HEAD" by (simp add: parser_init_def)
  have h2: "length (data (rx_frame parser_init)) = MAX_DATA_LEN" by (simp add: parser_init_def)
  have h3: "length [5, 6, 7 :: u8] \<le> 255" by simp
  show ?thesis using h1 h2 h3 C8_roundtrip [OF h1 h2 h3, of 1] by simp
qed

text \<open>
  Claim C8 as stated fails at the protocol maximum itself: a payload of 256 bytes
  (\<^verbatim>\<open>MAX_DATA_LEN\<close>) is sent with the length byte 0 and arrives as an empty frame.
\<close>

theorem C8_counterexample:
  "length (replicate 256 (0 :: u8)) \<le> MAX_DATA_LEN \<and>
   received parser_init (encode_frame 1 (replicate 256 0)) = Inr [Inr (1, 0, [])] \<and>
   received parser_init (encode_frame 1 (replicate 256 0)) \<noteq>
     Inr [Inr (1, length (replicate 256 (0 :: u8)), replicate 256 0)]"
proof -
  have enc: "encode_frame 1 (replicate 256 0) = [0xAA, 1, 0, 0x00, 0x20, 0x55]"
    by (simp add: encode_frame_def APP_Comm_SendData_def Let_def FRAME_HEAD_def FRAME_TAIL_def
        crc_eval)
  have crc: "APP_Comm_CRC16 [1, 0] = 0x2000" by (simp add: crc_eval)
  have "received parser_init [0xAA, 1, 0, 0x00, 0x20, 0x55] = Inr [Inr (1, 0, [])]"
    by (simp add: received_def ParseByte_step_def parser_init_def Let_def FRAME_HEAD_def
        FRAME_TAIL_def frame_content_def crc)
  then show ?thesis by (simp add: enc MAX_DATA_LEN_def)
qed

text \<open>
  The invariant of the parser: the payload array keeps its 256 entries, and in the
  \<^verbatim>\<open>PARSE_DATA\<close> state, the only one that stores into the array, the index is below the
  length byte.
\<close>

lemma ParseByte_step_inv:
  assumes "length (data (rx_frame p)) = MAX_DATA_LEN"
    and "parse_state p = PARSE_DATA \<longrightarrow> unat (data_index p) < unat (len (rx_frame p))"
  shows "\<exists>p' ev. ParseByte_step b p = Inr (p', ev) \<and>
           length (data (rx_frame p')) = MAX_DATA_LEN \<and>
           (parse_state p' = PARSE_DATA \<longrightarrow> unat (data_index p') < unat (len (rx_frame p')))"
proof (cases "parse_state p")
  case PARSE_DATA
  then have lt: "unat (data_index p) < unat (len (rx_frame p))" using assms(2) by simp
  then have "unat (data_index p) < 255" using unat_u8_le [of "len (rx_frame p)"] by simp
  then have "unat (of_nat (Suc (unat (data_index p))) :: u16) = Suc (unat (data_index p))"
    by (simp add: unat_of_nat del: of_nat_Suc)
  then show ?thesis
    using assms(1) PARSE_DATA
    by (simp add: data_step [OF PARSE_DATA refl lt] del: of_nat_Suc)
next
  case PARSE_LEN
  then show ?thesis
    using assms(1) by (simp add: ParseByte_step_def word_greater_zero_iff unat_gt_0)
qed (use assms(1) in \<open>simp_all add: ParseByte_step_def Let_def\<close>)

lemma ParseBytes_inv:
  "length (data (rx_frame p)) = MAX_DATA_LEN \<Longrightarrow>
   (parse_state p = PARSE_DATA \<longrightarrow> unat (data_index p) < unat (len (rx_frame p))) \<Longrightarrow>
   \<exists>p' evs. ParseBytes p bs = Inr (p', evs) \<and>
     length (data (rx_frame p')) = MAX_DATA_LEN \<and>
     (parse_state p' = PARSE_DATA \<longrightarrow> unat (data_index p') < unat (len (rx_frame p')))"
proof (induction bs arbitrary: p)
  case Nil
  then show ?case by simp
next
  case (Cons b bs)
  obtain p1 ev where s: "ParseByte_step b p = Inr (p1, ev)"
    and i1: "length (data (rx_frame p1)) = MAX_DATA_LEN"
    and i2: "parse_state p1 = PARSE_DATA \<longrightarrow> unat (data_index p1) < unat (len (rx_frame p1))"
    using ParseByte_step_inv [OF Cons.prems] by blast
  from Cons.IH [OF i1 i2] obtain p' evs where "ParseBytes p1 bs = Inr (p', evs)"
    and "length (data (rx_frame p')) = MAX_DATA_LEN"
    and "parse_state p' = PARSE_DATA \<longrightarrow> unat (data_index p') < unat (len (rx_frame p'))"
    by blast
  then show ?case using s by simp
qed

text \<open>
  Claim C10. Whatever bytes the parser has been fed since initialisation, it has made no
  store outside the payload array, and whenever it is about to store a payload byte (state
  \<^verbatim>\<open>PARSE_DATA\<close>) the write index is strictly below the declared length, which is at most
  255 and so below the 256 entries of the array.
\<close>

theorem C10_payload_writes_in_bounds:
  "\<exists>p evs. ParseBytes parser_init bs = Inr (p, evs) \<and>
     length (data (rx_frame p)) = MAX_DATA_LEN \<and>
     (parse_state p = PARSE_DATA \<longrightarrow>
        unat (data_index p) < unat (len (rx_frame p)) \<and>
        unat (len (rx_frame p)) \<le> 255 \<and>
        unat (data_index p) < length (data (rx_frame p)))"
proof -
  obtain p evs where r: "ParseBytes parser_init bs = Inr (p, evs)"
    and l: "length (data (rx_frame p)) = MAX_DATA_LEN"
    and i: "parse_state p = PARSE_DATA \<longrightarrow> unat (data_index p) < unat (len (rx_frame p))"
    using ParseBytes_inv [of parser_init bs] by (auto simp: parser_init_def)
  have "unat (len (rx_frame p)) \<le> 255" by (rule unat_u8_le)
  then show ?thesis using r l i by (auto simp: MAX_DATA_LEN_def)
qed

theorem C10_payload_writes_in_bounds_witness:
  "\<exists>p evs. ParseBytes parser_init [0xAA, 0x01, 0x02] = Inr (p, evs) \<and>
     parse_state p = PARSE_DATA \<and>
     unat (data_index p) < unat (len (rx_frame p)) \<and>
     unat (len (rx_frame p)) \<le> 255 \<and>
     unat (data_index p) < length (data (rx_frame p))"
proof -
  obtain p evs where r: "ParseBytes parser_init [0xAA, 0x01, 0x02] = Inr (p, evs)"
    and i: "parse_state p = PARSE_DATA \<longrightarrow>
        unat (data_index p) < unat (len (rx_frame p)) \<and>
        unat (len (rx_frame p)) \<le> 255 \<and>
        unat (data_index p) < length (data (rx_frame p))"
    using C10_payload_writes_in_bounds [of "[0xAA, 0x01, 0x02]"] by blast
  have "parse_state p = PARSE_DATA"
    using r by (auto simp: ParseByte_step_def parser_init_def FRAME_HEAD_def)
  then show ?thesis using r i by blast
qed

section \<open>Properties of the calibration store\<close>

lemma UserParam_bytes_prefix:
  "take 28 (UserParam_bytes p) =
     le32 (magic p) @ le16 (version p) @ le16 (reserved p) @ [current_source p] @
     (case padding p of (a, b, c) \<Rightarrow> [a, b, c]) @
     le32 (current_adj_10uA p) @ le32 (current_adj_17uA p) @
     le32 (UserParam_t.temp_4mA p) @ le32 (UserParam_t.temp_20mA p)"
  by (cases "padding p") (simp add: UserParam_bytes_def le32_def le16_def)

lemma CalcParamCRC_covers:
  "CalcParamCRC p =
     APP_Comm_CRC16 (le32 (magic p) @ le16 (version p) @ le16 (reserved p) @ [current_source p] @
       (case padding p of (a, b, c) \<Rightarrow> [a, b, c]) @
       le32 (current_adj_10uA p) @ le32 (current_adj_17uA p) @
       le32 (UserParam_t.temp_4mA p) @ le32 (UserParam_t.temp_20mA p))"
  using UserParam_bytes_prefix [of p]
  by (simp add: CalcParamCRC_def APP_Comm_CRC16_def sizeof_UserParam_t_def)

lemma CalcParamCRC_ignores:
  "CalcParamCRC (p\<lparr>UserParam_t.crc := c, padding2 := q\<rparr>) = CalcParamCRC p"
  "CalcParamCRC (p\<lparr>UserParam_t.crc := c\<rparr>) = CalcParamCRC p"
  by (simp_all add: CalcParamCRC_covers)

lemma default_bytes:
  "take 28 (UserParam_bytes g_param_init) =
    [0x32, 0x50, 0x4D, 0x54, 0x00, 0x01, 0, 0, 0, 0, 0, 0, 0, 0, 0, 0, 0, 0, 0, 0,
     0, 0, 0x48, 0xC3, 0, 0, 0xC8, 0x42]"
  by (simp add: UserParam_bytes_prefix g_param_init_def le32_def le16_def PARAM_MAGIC_def
      PARAM_VERSION_def DEFAULT_CURRENT_SOURCE_def DEFAULT_CURRENT_ADJ_10_def
      DEFAULT_CURRENT_ADJ_17_def DEFAULT_TEMP_4MA_def DEFAULT_TEMP_20MA_def)

lemma crc_default: "CalcParamCRC g_param_init = 0xEA58"
  by (simp add: CalcParamCRC_def sizeof_UserParam_t_def default_bytes crc_byte_def crc_shift_def funpow8)

lemma padded_bytes:
  "take 28 (UserParam_bytes (g_param_init\<lparr>padding := (1, 0, 0)\<rparr>)) =
    [0x32, 0x50, 0x4D, 0x54, 0x00, 0x01, 0, 0, 0, 1, 0, 0, 0, 0, 0, 0, 0, 0, 0, 0,
     0, 0, 0x48, 0xC3, 0, 0, 0xC8, 0x42]"
  by (simp add: UserParam_bytes_prefix g_param_init_def le32_def le16_def PARAM_MAGIC_def
      PARAM_VERSION_def DEFAULT_CURRENT_SOURCE_def DEFAULT_CURRENT_ADJ_10_def
      DEFAULT_CURRENT_ADJ_17_def DEFAULT_TEMP_4MA_def DEFAULT_TEMP_20MA_def)

lemma crc_padded: "CalcParamCRC (g_param_init\<lparr>padding := (1, 0, 0)\<rparr>) = 0x1665"
  by (simp add: CalcParamCRC_def sizeof_UserParam_t_def padded_bytes crc_byte_def crc_shift_def funpow8)

lemma SetDefault_init: "APP_Param_SetDefault g_param_init = g_param_init\<lparr>UserParam_t.crc := 0xEA58\<rparr>"
proof -
  have "g_param_init\<lparr>magic := PARAM_MAGIC, version := PARAM_VERSION, reserved := 0,
                 current_source := DEFAULT_CURRENT_SOURCE,
                 current_adj_10uA := DEFAULT_CURRENT_ADJ_10,
                 current_adj_17uA := DEFAULT_CURRENT_ADJ_17,
                 UserParam_t.temp_4mA := DEFAULT_TEMP_4MA, UserParam_t.temp_20mA := DEFAULT_TEMP_20MA\<rparr> = g_param_init"
    by (simp add: g_param_init_def)
  then show ?thesis by (simp add: APP_Param_SetDefault_def Let_def crc_default)
qed

text \<open>
  Claim C2, as amended. The checksum that \<^verbatim>\<open>CalcParamCRC\<close> computes is the CRC16 (generator
  0xA001, reflected, initial value 0xFFFF) of the first 28 bytes of the serialised record:
  every field before the checksum, and with them the 3 alignment bytes after the
  current-source selector. Only the checksum field and the 2 trailing padding bytes are left
  out. A record that passes \<^verbatim>\<open>VerifyParam\<close>, and the record that \<^verbatim>\<open>APP_Param_SetDefault\<close> or
  \<^verbatim>\<open>APP_Param_Save\<close> leaves in memory, stores exactly this checksum.
\<close>

theorem C2_checksum_coverage:
  "CalcParamCRC p =
     APP_Comm_CRC16 (le32 (magic p) @ le16 (version p) @ le16 (reserved p) @ [current_source p] @
       (case padding p of (a, b, c) \<Rightarrow> [a, b, c]) @
       le32 (current_adj_10uA p) @ le32 (current_adj_17uA p) @
       le32 (UserParam_t.temp_4mA p) @ le32 (UserParam_t.temp_20mA p)) \<and>
   CalcParamCRC (p\<lparr>UserParam_t.crc := c, padding2 := q\<rparr>) = CalcParamCRC p \<and>
   (VerifyParam p = 0 \<longrightarrow> UserParam_t.crc p = CalcParamCRC p) \<and>
   UserParam_t.crc (APP_Param_SetDefault g) = CalcParamCRC (APP_Param_SetDefault g) \<and>
   UserParam_t.crc (fst (snd (APP_Param_Save es ws g))) =
     CalcParamCRC (fst (snd (APP_Param_Save es ws g)))"
proof -
  have "VerifyParam p = 0 \<longrightarrow> UserParam_t.crc p = CalcParamCRC p"
    by (simp add: VerifyParam_def split: if_splits)
  moreover have "UserParam_t.crc (APP_Param_SetDefault g) = CalcParamCRC (APP_Param_SetDefault g)"
    by (simp add: APP_Param_SetDefault_def Let_def CalcParamCRC_ignores)
  moreover have "UserParam_t.crc (fst (snd (APP_Param_Save es ws g))) =
     CalcParamCRC (fst (snd (APP_Param_Save es ws g)))"
    by (simp add: APP_Param_Save_def Let_def CalcParamCRC_ignores)
  ultimately show ?thesis
    using CalcParamCRC_covers [of p] CalcParamCRC_ignores(1) by blast
qed

theorem C2_checksum_coverage_witness:
  "VerifyParam (APP_Param_SetDefault g_param_init) = 0 \<and>
   UserParam_t.crc (APP_Param_SetDefault g_param_init) =
     CalcParamCRC (APP_Param_SetDefault g_param_init)"
proof -
  have v: "VerifyParam (APP_Param_SetDefault g_param_init) = 0"
    by (simp add: SetDefault_init VerifyParam_def CalcParamCRC_ignores crc_default)
       (simp add: g_param_init_def PARAM_VERSION_def DEFAULT_CURRENT_SOURCE_def)
  show ?thesis
    using v C2_checksum_coverage [of "APP_Param_SetDefault g_param_init"] by blast
qed

text \<open>
  Claim C2 as stated fails: two records that differ only in an alignment byte have
  different checksums, so the alignment bytes are part of the checksummed range.
\<close>

theorem C2_counterexample:
  "CalcParamCRC (g_param_init\<lparr>padding := (1, 0, 0)\<rparr>) \<noteq> CalcParamCRC g_param_init"
  by (simp add: crc_default crc_padded)


lemma join16: "ucast (ucast w :: u8) OR push_bit 8 (ucast (ucast (drop_bit 8 w) :: u8)) = (w :: u16)"
  by (rule bit_word_eqI) (auto simp: bit_simps)

lemma join32:
  "ucast (ucast w :: u8) OR push_bit 8 (ucast (ucast (drop_bit 8 w) :: u8)) OR
   push_bit 16 (ucast (ucast (drop_bit 16 w) :: u8)) OR
   push_bit 24 (ucast (ucast (drop_bit 24 w) :: u8)) = (w :: u32)"
  apply (rule bit_word_eqI)
  apply (auto simp: bit_simps)
  subgoal for n by (cases "n < 24") simp_all
  done

lemma UserParam_of_bytes_bytes: "UserParam_of_bytes (UserParam_bytes p) = p"
  by (cases "padding p")
     (simp add: UserParam_of_bytes_def UserParam_bytes_def le32_def le16_def rd32_def rd16_def
        join16 join32)

text \<open>
  Claim C5. With \<open>stored\<close> the record read from flash: a wrong magic tag, a version above
  the supported one or a checksum that differs from the recomputed one makes
  \<^verbatim>\<open>APP_Param_Load\<close> return -1; whenever it returns -1 the in-memory record is the one
  before the call; and the only other outcome is 0 with the in-memory record equal to the
  whole stored record.
\<close>

theorem C5_load:
  "(magic (UserParam_of_bytes flash) \<noteq> PARAM_MAGIC \<or>
    version (UserParam_of_bytes flash) > PARAM_VERSION \<or>
    UserParam_t.crc (UserParam_of_bytes flash) \<noteq> CalcParamCRC (UserParam_of_bytes flash)
      \<longrightarrow> APP_Param_Load st flash g = (- 1, g)) \<and>
   (APP_Param_Load st flash g = (- 1, g) \<or>
    APP_Param_Load st flash g = (0, UserParam_of_bytes flash))"
  by (simp add: APP_Param_Load_def VerifyParam_def Let_def)

theorem C5_load_witness:
  "magic (UserParam_of_bytes (replicate 32 0xFF)) \<noteq> PARAM_MAGIC \<and>
   APP_Param_Load FLASH_OK (replicate 32 0xFF) g_param_init = (- 1, g_param_init)"
proof -
  have m: "magic (UserParam_of_bytes (replicate 32 0xFF)) \<noteq> PARAM_MAGIC"
    by (simp add: UserParam_of_bytes_def rd32_def PARAM_MAGIC_def)
  show ?thesis
    using m C5_load [of "replicate 32 0xFF" FLASH_OK g_param_init] by blast
qed

lemma Load_accepts_saved:
  "APP_Param_Load FLASH_OK (UserParam_bytes (APP_Param_SetDefault g_param_init)) g =
     (0, APP_Param_SetDefault g_param_init)"
  by (simp add: APP_Param_Load_def UserParam_of_bytes_bytes Let_def SetDefault_init
      VerifyParam_def CalcParamCRC_ignores crc_default)
     (simp add: g_param_init_def PARAM_VERSION_def DEFAULT_CURRENT_SOURCE_def)

section \<open>Properties of command dispatch\<close>

lemmas cmd_defs = CMD_GET_DEVICE_ID_def CMD_GET_TEMPERATURE_def CMD_GET_VOLTAGE_def
  CMD_GET_CURRENT_def CMD_GET_STATUS_def CMD_SET_CURRENT_SRC_def CMD_SET_CURRENT_ADJ_10_def
  CMD_SET_CURRENT_ADJ_17_def CMD_SET_4MA_TEMP_def CMD_SET_20MA_TEMP_def CMD_START_ACQ_def
  CMD_STOP_ACQ_def CMD_SAVE_PARAM_def CMD_LOAD_PARAM_def CMD_RESET_DEFAULT_def

lemma ProcessFrame_SET_CURRENT_SRC:
  "cmd f = CMD_SET_CURRENT_SRC \<Longrightarrow>
   ProcessFrame env f s =
     (if len f \<ge> 1 \<and> data f ! 0 \<le> 1
      then send_ack (cmd f) STATUS_OK
             ((APP_Temp_SetCurrentSource (data f ! 0) s)
                \<lparr>g_param := APP_Param_SetCurrentSource (data f ! 0) (g_param s)\<rparr>)
      else send_ack (cmd f) STATUS_INVALID_PARAM s)"
  by (simp add: ProcessFrame_def Let_def cmd_defs APP_Temp_SetCurrentSource_def)

lemma ProcessFrame_SET_CURRENT_ADJ_10:
  "cmd f = CMD_SET_CURRENT_ADJ_10 \<Longrightarrow>
   ProcessFrame env f s =
     (if len f \<ge> 4
      then send_ack (cmd f) STATUS_OK
             (s\<lparr>g_param := APP_Param_SetCurrentAdj10 (rd32 (data f) 0) (g_param s),
                calls := calls s @ [SVC_DAC_SetCurrentAdj CURRENT_SRC_10UA (rd32 (data f) 0)]\<rparr>)
      else send_ack (cmd f) STATUS_INVALID_PARAM s)"
  by (simp add: ProcessFrame_def Let_def cmd_defs)

lemma ProcessFrame_SET_CURRENT_ADJ_17:
  "cmd f = CMD_SET_CURRENT_ADJ_17 \<Longrightarrow>
   ProcessFrame env f s =
     (if len f \<ge> 4
      then send_ack (cmd f) STATUS_OK
             (s\<lparr>g_param := APP_Param_SetCurrentAdj17 (rd32 (data f) 0) (g_param s),
                calls := calls s @ [SVC_DAC_SetCurrentAdj CURRENT_SRC_17UA (rd32 (data f) 0)]\<rparr>)
      else send_ack (cmd f) STATUS_INVALID_PARAM s)"
  by (simp add: ProcessFrame_def Let_def cmd_defs)

lemma ProcessFrame_SET_4MA_TEMP:
  "cmd f = CMD_SET_4MA_TEMP \<Longrightarrow>
   ProcessFrame env f s =
     (if len f \<ge> 4
      then send_ack (cmd f) STATUS_OK
             (s\<lparr>g_param := APP_Param_Set4mATemp (rd32 (data f) 0) (g_param s),
                g_output := (g_output s)\<lparr>temp_4mA := rd32 (data f) 0\<rparr>\<rparr>)
      else send_ack (cmd f) STATUS_INVALID_PARAM s)"
  by (simp add: ProcessFrame_def Let_def cmd_defs)

lemma ProcessFrame_SET_20MA_TEMP:
  "cmd f = CMD_SET_20MA_TEMP \<Longrightarrow>
   ProcessFrame env f s =
     (if len f \<ge> 4
      then send_ack (cmd f) STATUS_OK
             (s\<lparr>g_param := APP_Param_Set20mATemp (rd32 (data f) 0) (g_param s),
                g_output := (g_output s)\<lparr>temp_20mA := rd32 (data f) 0\<rparr>\<rparr>)
      else send_ack (cmd f) STATUS_INVALID_PARAM s)"
  by (simp add: ProcessFrame_def Let_def cmd_defs)

lemma ProcessFrame_START_ACQ:
  "cmd f = CMD_START_ACQ \<Longrightarrow> ProcessFrame env f s = send_ack (cmd f) STATUS_OK (APP_Temp_Start s)"
  by (simp add: ProcessFrame_def Let_def cmd_defs)

lemma ProcessFrame_STOP_ACQ:
  "cmd f = CMD_STOP_ACQ \<Longrightarrow> ProcessFrame env f s = send_ack (cmd f) STATUS_OK (APP_Temp_Stop s)"
  by (simp add: ProcessFrame_def Let_def cmd_defs)

lemma last_send_ack: "last (calls (send_ack c st s)) = SVC_USB_Transmit (APP_Comm_SendAck c st)"
  by (simp add: send_ack_def)

lemma send_ack_eq: "send_ack c st s = s\<lparr>calls := calls s @ [SVC_USB_Transmit (APP_Comm_SendAck c st)]\<rparr>"
  by (simp add: send_ack_def)

text \<open>
  Claim C4, as amended. For a frame that carries a parameter-setting command,
  \<^verbatim>\<open>ProcessFrame\<close> checks the payload before it acts: the length byte must be at least 4 for
  the four float parameters, and at least 1 with a first payload byte of at most 1 for the
  current-source selector. When the check fails, the only effect is the transmission of the
  acknowledgment frame with status "invalid parameter": the parameter record, the output
  configuration, the measurement state and every other capability stay untouched. When the
  check passes, the last thing done is the transmission of the "OK" acknowledgment.
\<close>

theorem C4_payload_validation:
  "((cmd f \<in> {CMD_SET_CURRENT_ADJ_10, CMD_SET_CURRENT_ADJ_17, CMD_SET_4MA_TEMP, CMD_SET_20MA_TEMP}
       \<and> len f < 4) \<or>
    (cmd f = CMD_SET_CURRENT_SRC \<and> (len f < 1 \<or> data f ! 0 > 1))
    \<longrightarrow> ProcessFrame env f s =
          s\<lparr>calls := calls s @ [SVC_USB_Transmit (APP_Comm_SendAck (cmd f) STATUS_INVALID_PARAM)]\<rparr>) \<and>
   ((cmd f \<in> {CMD_SET_CURRENT_ADJ_10, CMD_SET_CURRENT_ADJ_17, CMD_SET_4MA_TEMP, CMD_SET_20MA_TEMP}
       \<and> len f \<ge> 4) \<or>
    (cmd f = CMD_SET_CURRENT_SRC \<and> len f \<ge> 1 \<and> data f ! 0 \<le> 1)
    \<longrightarrow> last (calls (ProcessFrame env f s)) =
          SVC_USB_Transmit (APP_Comm_SendAck (cmd f) STATUS_OK))"
proof (intro conjI impI)
  assume "(cmd f \<in> {CMD_SET_CURRENT_ADJ_10, CMD_SET_CURRENT_ADJ_17, CMD_SET_4MA_TEMP, CMD_SET_20MA_TEMP}
       \<and> len f < 4) \<or>
    (cmd f = CMD_SET_CURRENT_SRC \<and> (len f < 1 \<or> data f ! 0 > 1))"
  then consider
      (a10) "cmd f = CMD_SET_CURRENT_ADJ_10" "len f < 4"
    | (a17) "cmd f = CMD_SET_CURRENT_ADJ_17" "len f < 4"
    | (t4) "cmd f = CMD_SET_4MA_TEMP" "len f < 4"
    | (t20) "cmd f = CMD_SET_20MA_TEMP" "len f < 4"
    | (src) "cmd f = CMD_SET_CURRENT_SRC" "len f < 1 \<or> data f ! 0 > 1"
    by blast
  then show "ProcessFrame env f s =
          s\<lparr>calls := calls s @ [SVC_USB_Transmit (APP_Comm_SendAck (cmd f) STATUS_INVALID_PARAM)]\<rparr>"
  proof cases
    case a10
    then show ?thesis by (simp add: ProcessFrame_SET_CURRENT_ADJ_10 send_ack_eq not_le)
  next
    case a17
    then show ?thesis by (simp add: ProcessFrame_SET_CURRENT_ADJ_17 send_ack_eq not_le)
  next
    case t4
    then show ?thesis by (simp add: ProcessFrame_SET_4MA_TEMP send_ack_eq not_le)
  next
    case t20
    then show ?thesis by (simp add: ProcessFrame_SET_20MA_TEMP send_ack_eq not_le)
  next
    case src
    then show ?thesis by (auto simp: ProcessFrame_SET_CURRENT_SRC send_ack_eq not_le)
  qed
next
  assume "(cmd f \<in> {CMD_SET_CURRENT_ADJ_10, CMD_SET_CURRENT_ADJ_17, CMD_SET_4MA_TEMP, CMD_SET_20MA_TEMP}
       \<and> len f \<ge> 4) \<or>
    (cmd f = CMD_SET_CURRENT_SRC \<and> len f \<ge> 1 \<and> data f ! 0 \<le> 1)"
  then consider
      (a10) "cmd f = CMD_SET_CURRENT_ADJ_10" "len f \<ge> 4"
    | (a17) "cmd f = CMD_SET_CURRENT_ADJ_17" "len f \<ge> 4"
    | (t4) "cmd f = CMD_SET_4MA_TEMP" "len f \<ge> 4"
    | (t20) "cmd f = CMD_SET_20MA_TEMP" "len f \<ge> 4"
    | (src) "cmd f = CMD_SET_CURRENT_SRC" "len f \<ge> 1" "data f ! 0 \<le> 1"
    by blast
  then show "last (calls (ProcessFrame env f s)) =
          SVC_USB_Transmit (APP_Comm_SendAck (cmd f) STATUS_OK)"
  proof cases
    case a10
    then show ?thesis by (simp add: ProcessFrame_SET_CURRENT_ADJ_10 last_send_ack)
  next
    case a17
    then show ?thesis by (simp add: ProcessFrame_SET_CURRENT_ADJ_17 last_send_ack)
  next
    case t4
    then show ?thesis by (simp add: ProcessFrame_SET_4MA_TEMP last_send_ack)
  next
    case t20
    then show ?thesis by (simp add: ProcessFrame_SET_20MA_TEMP last_send_ack)
  next
    case src
    then show ?thesis by (simp add: ProcessFrame_SET_CURRENT_SRC last_send_ack)
  qed
qed


theorem C4_payload_validation_witness:
  "cmd \<lparr>head = 0xAA, cmd = 0x20, len = 3, data = replicate 256 0, crc = 0, tail = 0\<rparr>
     \<in> {CMD_SET_CURRENT_ADJ_10, CMD_SET_CURRENT_ADJ_17, CMD_SET_4MA_TEMP, CMD_SET_20MA_TEMP} \<and>
   len \<lparr>head = 0xAA, cmd = 0x20, len = 3, data = replicate 256 0, crc = 0, tail = 0\<rparr> < 4 \<and>
   ProcessFrame
     \<lparr>erase_status = FLASH_OK, write_status = FLASH_OK, read_status = FLASH_OK, read_bytes = []\<rparr>
     \<lparr>head = 0xAA, cmd = 0x20, len = 3, data = replicate 256 0, crc = 0, tail = 0\<rparr>
     boot_state_bits =
   boot_state_bits\<lparr>calls := calls boot_state_bits @
     [SVC_USB_Transmit (APP_Comm_SendAck 0x20 STATUS_INVALID_PARAM)]\<rparr>"
proof -
  let ?f = "\<lparr>head = 0xAA, cmd = 0x20, len = 3, data = replicate 256 0, Frame_t.crc = 0, tail = 0\<rparr>"
  have h: "cmd ?f \<in> {CMD_SET_CURRENT_ADJ_10, CMD_SET_CURRENT_ADJ_17, CMD_SET_4MA_TEMP, CMD_SET_20MA_TEMP}
            \<and> len ?f < 4"
    by (simp add: cmd_defs)
  show ?thesis
    using h C4_payload_validation [of ?f
        "\<lparr>erase_status = FLASH_OK, write_status = FLASH_OK, read_status = FLASH_OK, read_bytes = []\<rparr>"
        boot_state_bits]
    by simp
qed

text \<open>
  Claim C4 as stated fails: a set-point frame whose length byte is 5, not 4, is accepted;
  the set-point is overwritten and the acknowledgment is "OK".
\<close>

theorem C4_counterexample:
  "len \<lparr>head = 0xAA, cmd = 0x20, len = 5, data = [0, 0, 0x80, 0x3F, 0] @ replicate 251 0,
         crc = 0, tail = 0\<rparr> \<noteq> 4 \<and>
   temp_4mA (g_output boot_state_bits) = 0xC3480000 \<and>
   temp_4mA (g_output (ProcessFrame
     \<lparr>erase_status = FLASH_OK, write_status = FLASH_OK, read_status = FLASH_OK, read_bytes = []\<rparr>
     \<lparr>head = 0xAA, cmd = 0x20, len = 5, data = [0, 0, 0x80, 0x3F, 0] @ replicate 251 0,
      crc = 0, tail = 0\<rparr>
     boot_state_bits)) = 0x3F800000 \<and>
   last (calls (ProcessFrame
     \<lparr>erase_status = FLASH_OK, write_status = FLASH_OK, read_status = FLASH_OK, read_bytes = []\<rparr>
     \<lparr>head = 0xAA, cmd = 0x20, len = 5, data = [0, 0, 0x80, 0x3F, 0] @ replicate 251 0,
      crc = 0, tail = 0\<rparr>
     boot_state_bits)) = SVC_USB_Transmit (APP_Comm_SendAck 0x20 STATUS_OK)"
proof -
  let ?f = "\<lparr>head = 0xAA, cmd = 0x20, len = 5, data = [0, 0, 0x80, 0x3F, 0] @ replicate 251 0,
             Frame_t.crc = 0, tail = 0\<rparr>"
  have c: "cmd ?f = CMD_SET_4MA_TEMP" by (simp add: cmd_defs)
  have r: "rd32 (data ?f) 0 = 0x3F800000" by (simp add: rd32_def)
  show ?thesis
    unfolding ProcessFrame_SET_4MA_TEMP [OF c]
    using r by (simp add: send_ack_def boot_state_bits_def app_state_init_def)
qed

section \<open>Properties of the acquisition state machine\<close>

text \<open>
  Claim C1 does not hold of the code. \<^verbatim>\<open>APP_Temp_Init\<close> enters the Error phase when the
  calibration table fails verification (here: an erased flash region), and
  \<^verbatim>\<open>APP_Temp_Start\<close>, which \<^verbatim>\<open>App_Init\<close> calls next and which the start-acquisition command
  calls, moves the machine from Error to Sampling with the running flag set.
\<close>

theorem C1_start_leaves_error:
  "state (g_temp (APP_Temp_Init
      \<lparr>table_header = \<lparr>table_magic = 0xFFFFFFFF, point_count = 0xFFFF, table_reserved = 0xFFFF\<rparr>,
       table_points = []\<rparr> s)) = TEMP_STATE_ERROR \<and>
   state (g_temp (APP_Temp_Start (APP_Temp_Init
      \<lparr>table_header = \<lparr>table_magic = 0xFFFFFFFF, point_count = 0xFFFF, table_reserved = 0xFFFF\<rparr>,
       table_points = []\<rparr> s))) = TEMP_STATE_SAMPLING \<and>
   running (g_temp (APP_Temp_Start (APP_Temp_Init
      \<lparr>table_header = \<lparr>table_magic = 0xFFFFFFFF, point_count = 0xFFFF, table_reserved = 0xFFFF\<rparr>,
       table_points = []\<rparr> s))) = 1"
  by (simp add: APP_Temp_Init_def APP_Temp_Start_def APP_Temp_TableVerify_def Let_def
      TEMP_TABLE_MAGIC_def)

text \<open>The sibling paths: \<^verbatim>\<open>APP_Temp_Process\<close> holds the Error phase, the commands do not.\<close>

lemma Process_keeps_Error:
  "state (g_temp s) = TEMP_STATE_ERROR \<Longrightarrow>
   \<exists>s'. APP_Temp_Process tbl adc s = Inr s' \<and> state (g_temp s') = TEMP_STATE_ERROR"
  by (simp add: APP_Temp_Process_def)

lemma Start_command_leaves_Error:
  "cmd f = CMD_START_ACQ \<Longrightarrow> state (g_temp (ProcessFrame env f s)) = TEMP_STATE_SAMPLING"
  by (simp add: ProcessFrame_START_ACQ send_ack_def APP_Temp_Start_def)

lemma Stop_command_leaves_Error:
  "cmd f = CMD_STOP_ACQ \<Longrightarrow> state (g_temp (ProcessFrame env f s)) = TEMP_STATE_IDLE"
  by (simp add: ProcessFrame_STOP_ACQ send_ack_def APP_Temp_Stop_def)

section \<open>Properties of binary32 rounding\<close>

lemma pow2_powi: "pow2 k = 2 powi k"
  by (simp add: pow2_def power_int_def field_simps)

lemma pow2_pos: "0 < pow2 k"
  by (simp add: pow2_powi)

lemma pow2_add: "pow2 (a + b) = pow2 a * pow2 b"
  by (simp add: pow2_powi power_int_add)

lemma pow2_mono: "a \<le> b \<Longrightarrow> pow2 a \<le> pow2 b"
  by (simp add: pow2_powi power_int_increasing)

lemma pow2_nat: "pow2 (int n) = 2 ^ n"
  by (simp add: pow2_def)

lemma bit_length_upper: "n < 2 ^ bit_length n"
proof (induction n rule: bit_length.induct)
  case (1 n)
  show ?case
  proof (cases "n = 0")
    case True
    then show ?thesis by (simp add: bit_length.simps)
  next
    case False
    then have "n div 2 < 2 ^ bit_length (n div 2)" using 1 by simp
    then have "n < 2 * 2 ^ bit_length (n div 2)" by linarith
    then show ?thesis using False by (simp add: bit_length.simps [of n])
  qed
qed

lemma bit_length_lower: "n \<noteq> 0 \<Longrightarrow> 2 ^ (bit_length n - 1) \<le> n"
proof (induction n rule: bit_length.induct)
  case (1 n)
  show ?case
  proof (cases "n div 2 = 0")
    case True
    then have "n = 1" using 1(2) by linarith
    then show ?thesis by (simp add: bit_length.simps)
  next
    case False
    then have ih: "2 ^ (bit_length (n div 2) - 1) \<le> n div 2" using 1 by simp
    have pos: "bit_length (n div 2) \<noteq> 0" using False by (simp add: bit_length.simps [of "n div 2"])
    have "bit_length n = Suc (bit_length (n div 2))" using 1(2) by (simp add: bit_length.simps [of n])
    then have "(2::nat) ^ (bit_length n - 1) = 2 * 2 ^ (bit_length (n div 2) - 1)"
      using pos by (cases "bit_length (n div 2)") simp_all
    then show ?thesis using ih by linarith
  qed
qed

lemma bit_length_mono: "m \<le> n \<Longrightarrow> bit_length m \<le> bit_length n"
proof (rule ccontr)
  assume mn: "m \<le> n" and "\<not> bit_length m \<le> bit_length n"
  then have lt: "bit_length n < bit_length m" by simp
  have "bit_length 0 = 0" by (simp add: bit_length.simps)
  then have m0: "m \<noteq> 0" using lt by (cases "m = 0") simp_all
  have "n < 2 ^ bit_length n" by (rule bit_length_upper)
  also have "(2::nat) ^ bit_length n \<le> 2 ^ (bit_length m - 1)"
    using lt by (intro power_increasing) auto
  also have "\<dots> \<le> m" using m0 by (rule bit_length_lower)
  finally show False using mn by simp
qed


lemma round_even_of_int: "round_even (of_int n) = n"
  by (simp add: round_even_def)

lemma round_even_bounds: "y - 1 / 2 \<le> of_int (round_even y)" "of_int (round_even y) \<le> y + 1 / 2"
  unfolding round_even_def Let_def by (auto split: if_splits) linarith+

lemma round_even_mono: "a \<le> b \<Longrightarrow> round_even a \<le> round_even b"
proof -
  assume ab: "a \<le> b"
  have fl: "\<lfloor>a\<rfloor> \<le> \<lfloor>b\<rfloor>" using ab by (rule floor_mono)
  have lo: "\<lfloor>y\<rfloor> \<le> round_even y" and hi: "round_even y \<le> \<lfloor>y\<rfloor> + 1" for y
    by (simp_all add: round_even_def Let_def)
  show ?thesis
  proof (cases "\<lfloor>a\<rfloor> = \<lfloor>b\<rfloor>")
    case True
    have "a - of_int \<lfloor>a\<rfloor> \<le> b - of_int \<lfloor>b\<rfloor>" using ab True by simp
    then show ?thesis using True by (auto simp: round_even_def Let_def)
  next
    case False
    then have "\<lfloor>a\<rfloor> + 1 \<le> \<lfloor>b\<rfloor>" using fl by linarith
    then show ?thesis using lo [of b] hi [of a] by linarith
  qed
qed


lemma floor_neg_nonint: "y \<noteq> of_int \<lfloor>y\<rfloor> \<Longrightarrow> \<lfloor>- y\<rfloor> = - \<lfloor>y\<rfloor> - 1"
proof -
  assume ni: "y \<noteq> of_int \<lfloor>y\<rfloor>"
  have a: "of_int \<lfloor>y\<rfloor> < y" using ni of_int_floor_le [of y] by linarith
  have b: "y < of_int \<lfloor>y\<rfloor> + 1" by linarith
  show ?thesis
  proof (rule floor_unique)
    show "of_int (- \<lfloor>y\<rfloor> - 1) \<le> - y" using b by simp
    show "- y < of_int (- \<lfloor>y\<rfloor> - 1) + 1" using a by simp
  qed
qed

lemma round_even_neg: "round_even (- y) = - round_even y"
proof (cases "y = of_int \<lfloor>y\<rfloor>")
  case True
  then obtain n where "y = of_int n" ..
  then have "- y = of_int (- n)" by simp
  then show ?thesis unfolding \<open>y = of_int n\<close> by (simp only: round_even_of_int)
next
  case False
  have fl: "\<lfloor>- y\<rfloor> = - \<lfloor>y\<rfloor> - 1" using False by (rule floor_neg_nonint)
  define f where "f = \<lfloor>y\<rfloor>"
  define d where "d = y - of_int f"
  have y: "y = of_int f + d" by (simp add: d_def)
  have r1: "round_even y = (if d < 1 / 2 then f else if d > 1 / 2 then f + 1 else if even f then f else f + 1)"
    by (simp add: round_even_def Let_def f_def d_def)
  have d': "- y - of_int (- f - 1) = 1 - d" by (simp add: y)
  have r2: "round_even (- y) = (if 1 - d < 1 / 2 then - f - 1 else if 1 - d > 1 / 2 then - f else
       if even (- f - 1) then - f - 1 else - f)"
    unfolding round_even_def Let_def fl f_def [symmetric] d' by simp
  show ?thesis
  proof (cases "d < 1 / 2")
    case True
    then show ?thesis by (simp add: r1 r2)
  next
    case False
    note nlt = this
    show ?thesis
    proof (cases "d > 1 / 2")
      case True
      then show ?thesis by (simp add: r1 r2)
    next
      case False
      then have "d = 1 / 2" using nlt by simp
      then show ?thesis by (simp add: r1 r2)
    qed
  qed
qed


lemma f32_exp_ge: "24 \<le> f32_exp x"
  by (simp add: f32_exp_def)

lemma f32_exp_abs: "f32_exp (- x) = f32_exp x"
  by (simp add: f32_exp_def)

lemma f32_ulp_neg: "f32_ulp (- x) = f32_ulp x"
  by (simp add: f32_ulp_def f32_exp_abs)

lemma f32_ulp_pos: "0 < f32_ulp x"
  by (simp add: f32_ulp_def pow2_pos)

lemma f32_nearest_neg: "f32_nearest (- x) = - f32_nearest x"
  by (simp add: f32_nearest_def f32_ulp_neg round_even_neg)

lemma f32_nearest_zero: "f32_nearest 0 = 0"
  by (simp add: f32_nearest_def round_even_def)

lemma f32_exp_mono: "\<bar>x\<bar> \<le> \<bar>y\<bar> \<Longrightarrow> f32_exp x \<le> f32_exp y"
proof -
  assume "\<bar>x\<bar> \<le> \<bar>y\<bar>"
  then have "\<bar>x\<bar> * 2 ^ 149 \<le> \<bar>y\<bar> * 2 ^ 149" by simp
  then have "nat \<lfloor>\<bar>x\<bar> * 2 ^ 149\<rfloor> \<le> nat \<lfloor>\<bar>y\<bar> * 2 ^ 149\<rfloor>"
    by (intro nat_mono floor_mono)
  then have "bit_length (nat \<lfloor>\<bar>x\<bar> * 2 ^ 149\<rfloor>) \<le> bit_length (nat \<lfloor>\<bar>y\<bar> * 2 ^ 149\<rfloor>)"
    by (rule bit_length_mono)
  then show ?thesis by (simp add: f32_exp_def)
qed

text \<open>A non-negative \<open>x\<close>, counted in units of \<open>2\<^sup>-\<^sup>1\<^sup>4\<^sup>9\<close>, lies below \<open>2\<close> to its exponent.\<close>

lemma scaled_less:
  assumes "0 \<le> x"
  shows "x * 2 ^ 149 < pow2 (f32_exp x)"
proof -
  define N where "N = nat \<lfloor>x * 2 ^ 149\<rfloor>"
  have nn: "0 \<le> \<lfloor>x * 2 ^ 149\<rfloor>" using assms by simp
  have "x * 2 ^ 149 < of_int \<lfloor>x * 2 ^ 149\<rfloor> + 1" by linarith
  also have "\<dots> = real N + 1" using nn by (simp add: N_def)
  also have "\<dots> \<le> 2 ^ bit_length N"
  proof -
    have "Suc N \<le> 2 ^ bit_length N" using bit_length_upper [of N] by simp
    then have "real (Suc N) \<le> real (2 ^ bit_length N)" by (rule of_nat_mono)
    then show ?thesis by simp
  qed
  also have "\<dots> \<le> 2 ^ max (bit_length N) 24"
    by (intro power_increasing) auto
  also have "\<dots> = pow2 (f32_exp x)"
    using assms by (simp add: f32_exp_def N_def pow2_nat)
  finally show ?thesis .
qed

lemma scaled_ge:
  assumes "0 \<le> x" "24 < f32_exp x"
  shows "pow2 (f32_exp x - 1) \<le> x * 2 ^ 149"
proof -
  define N where "N = nat \<lfloor>x * 2 ^ 149\<rfloor>"
  have nn: "0 \<le> \<lfloor>x * 2 ^ 149\<rfloor>" using assms by simp
  have big: "24 < bit_length N" using assms by (simp add: f32_exp_def N_def)
  then have e: "f32_exp x = int (bit_length N)" using assms by (simp add: f32_exp_def N_def)
  have "bit_length 0 = 0" by (simp add: bit_length.simps)
  then have N0: "N \<noteq> 0" using big by (cases "N = 0") simp_all
  have "f32_exp x - 1 = int (bit_length N - 1)" using big e by simp
  then have "pow2 (f32_exp x - 1) = 2 ^ (bit_length N - 1)" by (simp only: pow2_nat)
  also have "\<dots> = real (2 ^ (bit_length N - 1))" by simp
  also have "\<dots> \<le> real N" using bit_length_lower [OF N0] by (rule of_nat_mono)
  also have "\<dots> = of_int \<lfloor>x * 2 ^ 149\<rfloor>" using nn by (simp add: N_def)
  also have "\<dots> \<le> x * 2 ^ 149" by simp
  finally show ?thesis .
qed

lemma ratio_ulp: "x / f32_ulp x = x * 2 ^ 149 / pow2 (f32_exp x - 24)"
proof -
  have "pow2 (f32_exp x - 24) = pow2 ((f32_exp x - 173) + 149)" by simp
  also have "\<dots> = pow2 (f32_exp x - 173) * 2 ^ 149"
    by (simp only: pow2_add) (simp add: pow2_def)
  finally show ?thesis by (simp add: f32_ulp_def)
qed

lemma ratio_less:
  assumes "0 \<le> x"
  shows "x / f32_ulp x < 2 ^ 24"
proof -
  have "pow2 (f32_exp x) = pow2 ((f32_exp x - 24) + 24)" by simp
  also have "\<dots> = pow2 (f32_exp x - 24) * 2 ^ 24"
    by (simp only: pow2_add) (simp add: pow2_def)
  finally have "x * 2 ^ 149 < pow2 (f32_exp x - 24) * 2 ^ 24"
    using scaled_less [OF assms] by simp
  then show ?thesis
    using pow2_pos [of "f32_exp x - 24"] by (simp add: ratio_ulp field_simps)
qed

lemma ratio_ge:
  assumes "0 \<le> x" "24 < f32_exp x"
  shows "2 ^ 23 \<le> x / f32_ulp x"
proof -
  have "pow2 (f32_exp x - 1) = pow2 ((f32_exp x - 24) + 23)" by simp
  also have "\<dots> = pow2 (f32_exp x - 24) * 2 ^ 23"
    by (simp only: pow2_add) (simp add: pow2_def)
  finally have "pow2 (f32_exp x - 24) * 2 ^ 23 \<le> x * 2 ^ 149"
    using scaled_ge [OF assms] by simp
  then show ?thesis
    using pow2_pos [of "f32_exp x - 24"] by (simp add: ratio_ulp field_simps)
qed

lemma f32_nearest_nonneg:
  assumes "0 \<le> x"
  shows "0 \<le> f32_nearest x"
proof -
  have "0 \<le> x / f32_ulp x" using assms f32_ulp_pos [of x] by simp
  then have "round_even 0 \<le> round_even (x / f32_ulp x)" by (rule round_even_mono)
  then have "0 \<le> round_even (x / f32_ulp x)" by (simp add: round_even_def)
  then show ?thesis using f32_ulp_pos [of x] by (simp add: f32_nearest_def)
qed

lemma f32_nearest_upper:
  assumes "0 \<le> x"
  shows "f32_nearest x \<le> pow2 (f32_exp x - 149)"
proof -
  have "round_even (x / f32_ulp x) \<le> round_even (of_int (2 ^ 24))"
    using ratio_less [OF assms] by (intro round_even_mono) simp
  then have "round_even (x / f32_ulp x) \<le> 2 ^ 24" by (simp only: round_even_of_int)
  then have "real_of_int (round_even (x / f32_ulp x)) \<le> real_of_int (2 ^ 24)"
    by (rule of_int_le_iff [THEN iffD2])
  then have "f32_nearest x \<le> 2 ^ 24 * f32_ulp x"
    using f32_ulp_pos [of x] by (simp add: f32_nearest_def)
  also have "\<dots> = pow2 24 * pow2 (f32_exp x - 173)" by (simp add: f32_ulp_def pow2_def)
  also have "\<dots> = pow2 (24 + (f32_exp x - 173))" by (simp only: pow2_add)
  finally show ?thesis by (simp add: algebra_simps)
qed

lemma f32_nearest_lower:
  assumes "0 \<le> x" "24 < f32_exp x"
  shows "pow2 (f32_exp x - 150) \<le> f32_nearest x"
proof -
  have "round_even (of_int (2 ^ 23)) \<le> round_even (x / f32_ulp x)"
    using ratio_ge [OF assms] by (intro round_even_mono) simp
  then have "2 ^ 23 \<le> round_even (x / f32_ulp x)" by (simp only: round_even_of_int)
  then have "real_of_int (2 ^ 23) \<le> real_of_int (round_even (x / f32_ulp x))"
    by (rule of_int_le_iff [THEN iffD2])
  then have "2 ^ 23 * f32_ulp x \<le> f32_nearest x"
    using f32_ulp_pos [of x] by (simp add: f32_nearest_def)
  moreover have "2 ^ 23 * f32_ulp x = pow2 23 * pow2 (f32_exp x - 173)"
    by (simp add: f32_ulp_def pow2_def)
  moreover have "\<dots> = pow2 (23 + (f32_exp x - 173))" by (simp only: pow2_add)
  ultimately show ?thesis by (simp add: algebra_simps)
qed

lemma f32_nearest_mono_nonneg:
  assumes "0 \<le> x" "x \<le> y"
  shows "f32_nearest x \<le> f32_nearest y"
proof -
  have y0: "0 \<le> y" using assms by simp
  have le: "f32_exp x \<le> f32_exp y" using assms by (intro f32_exp_mono) simp
  show ?thesis
  proof (cases "f32_exp x = f32_exp y")
    case True
    then have u: "f32_ulp x = f32_ulp y" by (simp add: f32_ulp_def)
    have "x / f32_ulp y \<le> y / f32_ulp y"
      using assms f32_ulp_pos [of y] by (simp add: divide_right_mono)
    then have "round_even (x / f32_ulp y) \<le> round_even (y / f32_ulp y)" by (rule round_even_mono)
    then show ?thesis using f32_ulp_pos [of y] by (simp add: f32_nearest_def u)
  next
    case False
    then have lt: "f32_exp x < f32_exp y" using le by simp
    then have big: "24 < f32_exp y" using f32_exp_ge [of x] by simp
    have "f32_nearest x \<le> pow2 (f32_exp x - 149)" using assms(1) by (rule f32_nearest_upper)
    also have "\<dots> \<le> pow2 (f32_exp y - 150)" using lt by (intro pow2_mono) simp
    also have "\<dots> \<le> f32_nearest y" using y0 big by (rule f32_nearest_lower)
    finally show ?thesis .
  qed
qed

lemma f32_nearest_mono: "x \<le> y \<Longrightarrow> f32_nearest x \<le> f32_nearest y"
proof -
  assume xy: "x \<le> y"
  consider "0 \<le> x" | "x < 0" "0 \<le> y" | "y < 0" by linarith
  then show ?thesis
  proof cases
    case 1
    then show ?thesis using xy by (rule f32_nearest_mono_nonneg)
  next
    case 2
    have "0 \<le> f32_nearest (- x)" using 2 by (intro f32_nearest_nonneg) simp
    then have "f32_nearest x \<le> 0" by (simp add: f32_nearest_neg)
    also have "0 \<le> f32_nearest y" using 2 by (intro f32_nearest_nonneg)
    finally show ?thesis .
  next
    case 3
    have "f32_nearest (- y) \<le> f32_nearest (- x)" using 3 xy by (intro f32_nearest_mono_nonneg) simp_all
    then show ?thesis by (simp add: f32_nearest_neg)
  qed
qed


text \<open>Every binary32 number is a whole multiple of \<open>2\<^sup>-\<^sup>1\<^sup>4\<^sup>9\<close>.\<close>

lemma f32_rep_multiple:
  assumes "f32_nearest a = a"
  shows "\<exists>m :: int. a = of_int m * pow2 (- 149)"
proof -
  define r where "r = round_even (a / f32_ulp a)"
  define e where "e = nat (f32_exp a - 24)"
  have "f32_exp a - 173 = int e + (- 149)" using f32_exp_ge [of a] by (simp add: e_def)
  then have "f32_ulp a = pow2 (int e + (- 149))" by (simp add: f32_ulp_def)
  also have "\<dots> = 2 ^ e * pow2 (- 149)" by (simp only: pow2_add pow2_nat)
  finally have u: "f32_ulp a = 2 ^ e * pow2 (- 149)" .
  have "a = of_int r * f32_ulp a" using assms by (simp add: f32_nearest_def r_def)
  then have "a = of_int (r * 2 ^ e) * pow2 (- 149)" by (simp add: u)
  then show ?thesis ..
qed

lemma f32_nearest_pos:
  assumes "0 < m"
  shows "0 < f32_nearest (of_int m * pow2 (- 149))"
proof -
  define y where "y = of_int m * pow2 (- 149)"
  have y0: "0 \<le> y" using assms pow2_pos [of "- 149"] by (simp add: y_def)
  show ?thesis
  proof (cases "f32_exp y = 24")
    case True
    then have u: "f32_ulp y = pow2 (- 149)" by (simp add: f32_ulp_def)
    have "y / pow2 (- 149) = of_int m" using pow2_pos [of "- 149"] by (simp add: y_def)
    then have "y / f32_ulp y = of_int m" by (simp only: u)
    then have "f32_nearest y = of_int m * pow2 (- 149)"
      by (simp only: f32_nearest_def round_even_of_int u)
    then show ?thesis using assms pow2_pos [of "- 149"] by (simp add: y_def)
  next
    case False
    then have "24 < f32_exp y" using f32_exp_ge [of y] by simp
    then have "pow2 (f32_exp y - 150) \<le> f32_nearest y" using y0 by (intro f32_nearest_lower)
    then show ?thesis using pow2_pos [of "f32_exp y - 150"] by (simp add: y_def)
  qed
qed

text \<open>The difference of two distinct binary32 numbers does not round to zero.\<close>

lemma f32_sub_nonzero:
  assumes "f32_nearest a = a" "f32_nearest b = b" "a \<noteq> b"
  shows "f32_nearest (a - b) \<noteq> 0"
proof -
  obtain m n :: int where a: "a = of_int m * pow2 (- 149)" and b: "b = of_int n * pow2 (- 149)"
    using assms f32_rep_multiple by blast
  have mn: "m \<noteq> n" using assms(3) a b by auto
  have d: "a - b = of_int (m - n) * pow2 (- 149)" by (simp add: a b algebra_simps)
  show ?thesis
  proof (cases "n < m")
    case True
    then have "0 < f32_nearest (a - b)" unfolding d by (intro f32_nearest_pos) simp
    then show ?thesis by simp
  next
    case False
    then have "0 < n - m" using mn by simp
    then have "0 < f32_nearest (of_int (n - m) * pow2 (- 149))" by (rule f32_nearest_pos)
    moreover have "of_int (n - m) * pow2 (- 149) = - (a - b)" by (simp add: d algebra_simps)
    ultimately have "0 < f32_nearest (- (a - b))" by simp
    then have "0 < - f32_nearest (a - b)" by (simp only: f32_nearest_neg)
    then show ?thesis by simp
  qed
qed

section \<open>Properties of the float operations\<close>

lemma FLT_MAX_less: "FLT_MAX < 2 ^ 128"
  by (simp add: FLT_MAX_def)

lemma FLT_MAX_pos: "0 < FLT_MAX"
  by (simp add: FLT_MAX_def)

lemma f32_round_not_NaN: "f32_round s x \<noteq> NaN"
  by (simp add: f32_round_def Let_def)

lemma f32_round_finite:
  assumes "\<bar>f32_nearest x\<bar> \<le> FLT_MAX"
  shows "is_finite (f32_round s x)" "fval (f32_round s x) = f32_nearest x"
  using assms by (auto simp: f32_round_def Let_def)

lemma f32_round_PInf: "f32_round s x = PInf \<longleftrightarrow> FLT_MAX < f32_nearest x"
  by (simp add: f32_round_def Let_def)

lemma f32_round_NInf: "f32_round s x = NInf \<longleftrightarrow> f32_nearest x < - FLT_MAX"
  using FLT_MAX_pos by (auto simp: f32_round_def Let_def)

lemma f32_round_is_finite:
  "is_finite (f32_round s x) \<longleftrightarrow> \<bar>f32_nearest x\<bar> \<le> FLT_MAX"
  using FLT_MAX_pos by (auto simp: f32_round_def Let_def)

lemma f32_round_is_inf:
  "is_inf (f32_round s x) \<longleftrightarrow> FLT_MAX < \<bar>f32_nearest x\<bar>"
  using FLT_MAX_pos by (auto simp: f32_round_def Let_def)

lemma f32_round_is_zero: "is_zero (f32_round s x) \<longleftrightarrow> f32_nearest x = 0"
  using FLT_MAX_pos by (auto simp: f32_round_def Let_def)

lemma f32_round_bounded: "\<bar>fval (f32_round s x)\<bar> \<le> FLT_MAX"
  using FLT_MAX_pos by (auto simp: f32_round_def Let_def)

lemma fext_round:
  "fext (f32_round s x) =
    (if FLT_MAX < f32_nearest x then 2 ^ 128
     else if f32_nearest x < - FLT_MAX then - (2 ^ 128) else f32_nearest x)"
  by (auto simp: f32_round_def Let_def)

text \<open>Rounding, overflow included, keeps the order.\<close>

lemma fext_round_mono:
  assumes "x \<le> y"
  shows "fext (f32_round s x) \<le> fext (f32_round s' y)"
proof -
  have "f32_nearest x \<le> f32_nearest y" using assms by (rule f32_nearest_mono)
  then show ?thesis using FLT_MAX_less FLT_MAX_pos by (auto simp: fext_round)
qed

lemma is_f32_bounded: "is_f32 a \<Longrightarrow> \<bar>fval a\<bar> \<le> FLT_MAX"
  using FLT_MAX_pos by (cases a) (simp_all add: f32_rep_def)

lemma fext_finite: "is_finite a \<Longrightarrow> fext a = fval a"
  by (cases a) simp_all

lemma fext_le: "\<bar>fval a\<bar> \<le> FLT_MAX \<Longrightarrow> fext a \<le> 2 ^ 128"
  using FLT_MAX_less by (cases a) simp_all

lemma fext_ge: "\<bar>fval a\<bar> \<le> FLT_MAX \<Longrightarrow> - (2 ^ 128) \<le> fext a"
  using FLT_MAX_less by (cases a) simp_all

text \<open>The comparisons, read on the extended number line.\<close>

lemma fle_fext:
  assumes "a \<noteq> NaN" "b \<noteq> NaN" "\<bar>fval a\<bar> \<le> FLT_MAX" "\<bar>fval b\<bar> \<le> FLT_MAX"
  shows "fle a b \<longleftrightarrow> fext a \<le> fext b"
  using assms FLT_MAX_less by (cases a; cases b) (auto simp: fle_def flt_def feq_def)

lemma flt_fext:
  assumes "a \<noteq> NaN" "b \<noteq> NaN" "\<bar>fval a\<bar> \<le> FLT_MAX" "\<bar>fval b\<bar> \<le> FLT_MAX"
  shows "flt a b \<longleftrightarrow> fext a < fext b"
  using assms FLT_MAX_less by (cases a; cases b) (auto simp: flt_def)

lemma flt_not_NaN: "flt a b \<Longrightarrow> a \<noteq> NaN \<and> b \<noteq> NaN"
  by (simp add: flt_def)

lemma fle_not_NaN: "fle a b \<Longrightarrow> a \<noteq> NaN \<and> b \<noteq> NaN"
  by (auto simp: fle_def flt_def feq_def)

lemma flt_fle: "flt a b \<Longrightarrow> fle a b"
  by (simp add: fle_def)

lemma not_fgt_fle: "a \<noteq> NaN \<Longrightarrow> b \<noteq> NaN \<Longrightarrow> \<not> fgt a b \<Longrightarrow> fle a b"
  by (cases a; cases b) (auto simp: fgt_def fle_def flt_def feq_def)

lemma not_fge_flt: "a \<noteq> NaN \<Longrightarrow> b \<noteq> NaN \<Longrightarrow> \<not> fge a b \<Longrightarrow> flt a b"
  by (cases a; cases b) (auto simp: fge_def fle_def flt_def feq_def)

lemma flt_not_fge: "flt a b \<Longrightarrow> \<not> fge a b"
  by (cases a; cases b) (auto simp: fge_def fle_def flt_def feq_def)

lemma flt_not_fle: "flt a b \<Longrightarrow> \<not> fle b a"
  by (cases a; cases b) (auto simp: fle_def flt_def feq_def)

lemma flt_fgt: "flt a b \<Longrightarrow> fgt b a"
  by (simp add: fgt_def)

lemma flt_fle_trans: "flt a b \<Longrightarrow> fle b c \<Longrightarrow> flt a c"
  by (cases a; cases b; cases c) (auto simp: fle_def flt_def feq_def)

lemma fle_flt_trans: "fle a b \<Longrightarrow> flt b c \<Longrightarrow> flt a c"
  by (cases a; cases b; cases c) (auto simp: fle_def flt_def feq_def)

lemma fle_trans: "fle a b \<Longrightarrow> fle b c \<Longrightarrow> fle a c"
  by (cases a; cases b; cases c) (auto simp: fle_def flt_def feq_def)

lemma fle_refl: "a \<noteq> NaN \<Longrightarrow> fle a a"
  by (cases a) (auto simp: fle_def flt_def feq_def)

lemma flt_finite:
  "is_finite a \<Longrightarrow> is_finite b \<Longrightarrow> flt a b \<longleftrightarrow> fval a < fval b"
  by (cases a; cases b) (auto simp: flt_def)

lemma fle_finite:
  "is_finite a \<Longrightarrow> is_finite b \<Longrightarrow> fle a b \<longleftrightarrow> fval a \<le> fval b"
  by (cases a; cases b) (auto simp: fle_def flt_def feq_def)

lemma feq_finite:
  "is_finite a \<Longrightarrow> is_finite b \<Longrightarrow> feq a b \<longleftrightarrow> fval a = fval b"
  by (cases a; cases b) (auto simp: feq_def)

text \<open>A float between two finite floats is finite.\<close>

lemma between_finite:
  "fle a b \<Longrightarrow> fle b c \<Longrightarrow> is_finite a \<Longrightarrow> is_finite c \<Longrightarrow> is_finite b"
  by (cases a; cases b; cases c) (auto simp: fle_def flt_def feq_def)

text \<open>The operations on finite operands.\<close>

lemma fval_fneg: "fval (fneg a) = - fval a"
  by (cases a) simp_all

lemma is_finite_fneg: "is_finite (fneg a) = is_finite a"
  by (cases a) simp_all

lemma fadd_finite:
  "is_finite a \<Longrightarrow> is_finite b \<Longrightarrow>
   fadd a b = f32_round (a = NegZero \<and> b = NegZero) (fval a + fval b)"
  by (cases a; cases b) (simp_all add: fadd_def)

lemma fsub_finite:
  "is_finite a \<Longrightarrow> is_finite b \<Longrightarrow>
   fsub a b = f32_round (a = NegZero \<and> fneg b = NegZero) (fval a - fval b)"
  by (simp add: fsub_def fadd_finite is_finite_fneg fval_fneg)

lemma fmul_finite:
  "is_finite a \<Longrightarrow> is_finite b \<Longrightarrow> fmul a b = f32_round (fsign a \<noteq> fsign b) (fval a * fval b)"
  by (cases a; cases b) (simp_all add: fmul_def)

lemma fdiv_finite:
  "is_finite a \<Longrightarrow> is_finite b \<Longrightarrow> fval b \<noteq> 0 \<Longrightarrow>
   fdiv a b = f32_round (fsign a \<noteq> fsign b) (fval a / fval b)"
  by (cases a; cases b) (simp_all add: fdiv_def)

text \<open>A finite sum or difference has finite operands.\<close>

lemma fadd_finite_D: "is_finite (fadd a b) \<Longrightarrow> is_finite a \<and> is_finite b"
  by (cases a; cases b) (simp_all add: fadd_def)

lemma fsub_finite_D: "is_finite (fsub a b) \<Longrightarrow> is_finite a \<and> is_finite b"
  using fadd_finite_D [of a "fneg b"] by (simp add: fsub_def is_finite_fneg)

lemma fadd_NaN:
  "fadd a b = NaN \<longleftrightarrow> a = NaN \<or> b = NaN \<or> (a = PInf \<and> b = NInf) \<or> (a = NInf \<and> b = PInf)"
  by (cases a; cases b) (simp_all add: fadd_def f32_round_not_NaN)

lemma fsub_NaN:
  "fsub a b = NaN \<longleftrightarrow> a = NaN \<or> b = NaN \<or> (a = PInf \<and> b = PInf) \<or> (a = NInf \<and> b = NInf)"
  by (cases a; cases b) (simp_all add: fsub_def fadd_def f32_round_not_NaN)

lemma fmul_NaN:
  "fmul a b = NaN \<longleftrightarrow>
     a = NaN \<or> b = NaN \<or> (is_inf a \<and> is_zero b) \<or> (is_zero a \<and> is_inf b)"
  by (cases a; cases b) (simp_all add: fmul_def f32_round_not_NaN finf_def)

lemma fdiv_NaN:
  "fdiv a b = NaN \<longleftrightarrow>
     a = NaN \<or> b = NaN \<or> (is_inf a \<and> is_inf b) \<or> (is_zero a \<and> is_zero b)"
  by (cases a; cases b) (auto simp: fdiv_def f32_round_not_NaN finf_def fzero_def)

text \<open>An exact result that is a binary32 number is the result.\<close>

lemma f32_round_rep:
  "f32_rep x \<Longrightarrow> is_finite (f32_round s x) \<and> fval (f32_round s x) = x"
  using f32_round_finite [of x s] by (simp add: f32_rep_def)

section \<open>Every bit pattern is a float value\<close>

lemma bit_length_double: "0 < n \<Longrightarrow> bit_length (2 * n) = Suc (bit_length n)"
  by (simp add: bit_length.simps [of "2 * n"])

lemma bit_length_shift: "0 < n \<Longrightarrow> bit_length (n * 2 ^ j) = bit_length n + j"
proof (induction j)
  case 0
  then show ?case by simp
next
  case (Suc j)
  have "n * 2 ^ Suc j = 2 * (n * 2 ^ j)" by simp
  moreover have "0 < n * 2 ^ j" using Suc.prems by simp
  ultimately have "bit_length (n * 2 ^ Suc j) = Suc (bit_length (n * 2 ^ j))"
    by (simp only: bit_length_double)
  then show ?case using Suc by simp
qed

lemma bit_length_le: "n < 2 ^ k \<Longrightarrow> bit_length n \<le> k"
proof (rule ccontr)
  assume n: "n < 2 ^ k" and "\<not> bit_length n \<le> k"
  then have k: "k \<le> bit_length n - 1" by simp
  have "bit_length 0 = 0" by (simp add: bit_length.simps)
  then have "n \<noteq> 0" using k \<open>\<not> bit_length n \<le> k\<close> by (cases "n = 0") simp_all
  then have a: "2 ^ (bit_length n - 1) \<le> n" by (rule bit_length_lower)
  have b: "(2::nat) ^ k \<le> 2 ^ (bit_length n - 1)" using k by (intro power_increasing) auto
  from b a have "2 ^ k \<le> n" by (rule order_trans)
  then show False using n by simp
qed

text \<open>A number \<open>M \<times> 2\<^sup>j\<^sup>-\<^sup>1\<^sup>4\<^sup>9\<close> with \<open>M < 2\<^sup>2\<^sup>4\<close> is not changed by rounding.\<close>

lemma f32_nearest_scaled:
  assumes "M < 2 ^ 24"
  shows "f32_nearest (real M * 2 ^ j * pow2 (- 149)) = real M * 2 ^ j * pow2 (- 149)"
proof (cases "M = 0")
  case True
  then show ?thesis by (simp add: f32_nearest_zero)
next
  case False
  define x where "x = real M * 2 ^ j * pow2 (- 149)"
  have p: "pow2 (- 149) * 2 ^ 149 = 1" by (simp add: pow2_def)
  have "x * 2 ^ 149 = real M * 2 ^ j * (pow2 (- 149) * 2 ^ 149)"
    by (simp only: x_def mult.assoc)
  then have sc: "x * 2 ^ 149 = real (M * 2 ^ j)" by (simp only: p) simp
  have x0: "0 \<le> x" using pow2_pos [of "- 149"] by (simp add: x_def)
  have "\<bar>x\<bar> * 2 ^ 149 = real (M * 2 ^ j)" using x0 sc by (simp only: abs_of_nonneg)
  then have "nat \<lfloor>\<bar>x\<bar> * 2 ^ 149\<rfloor> = M * 2 ^ j" by (simp only: floor_of_nat nat_int)
  then have "f32_exp x = int (max (bit_length (M * 2 ^ j)) 24)" by (simp only: f32_exp_def)
  then have e: "f32_exp x = int (max (bit_length M + j) 24)"
    using False by (simp add: bit_length_shift)
  have b: "bit_length M \<le> 24" using assms by (rule bit_length_le)
  obtain c :: nat where c: "f32_exp x - 173 + int c = int j - 149"
  proof (cases "24 \<le> bit_length M + j")
    case True
    then have "f32_exp x - 173 + int (24 - bit_length M) = int j - 149"
      using b by (simp add: e)
    then show ?thesis by (rule that)
  next
    case False
    then have "f32_exp x - 173 + int j = int j - 149" by (simp add: e)
    then show ?thesis by (rule that)
  qed
  have "pow2 (int j - 149) = pow2 (f32_exp x - 173 + int c)" by (simp only: c)
  also have "\<dots> = f32_ulp x * 2 ^ c" by (simp only: pow2_add pow2_nat f32_ulp_def)
  finally have u: "pow2 (int j - 149) = f32_ulp x * 2 ^ c" .
  have "pow2 (int j - 149) = pow2 (int j + (- 149))" by simp
  also have "\<dots> = 2 ^ j * pow2 (- 149)" by (simp only: pow2_add pow2_nat)
  finally have "2 ^ j * pow2 (- 149) = f32_ulp x * 2 ^ c" using u by simp
  then have "real M * (2 ^ j * pow2 (- 149)) = real M * (f32_ulp x * 2 ^ c)" by (simp only:)
  then have "x = real M * (f32_ulp x * 2 ^ c)" by (simp only: x_def mult.assoc)
  moreover define U where "U = f32_ulp x"
  ultimately have "x = real M * (U * 2 ^ c)" by simp
  then have xr: "x = real_of_int (int (M * 2 ^ c)) * U" by (simp add: ac_simps)
  have U0: "0 < U" by (simp add: U_def f32_ulp_pos)
  have "real_of_int (int (M * 2 ^ c)) * U / U = real_of_int (int (M * 2 ^ c))"
    using U0 by simp
  then have "x / U = real_of_int (int (M * 2 ^ c))" by (simp only: xr [symmetric])
  then have "f32_nearest x = real_of_int (int (M * 2 ^ c)) * U"
    by (simp only: f32_nearest_def round_even_of_int U_def)
  then have "f32_nearest x = x" by (simp only: xr [symmetric])
  then show ?thesis by (simp only: x_def)
qed

lemma field_bounds:
  "unat (w AND 0x7FFFFF :: u32) < 2 ^ 23" "unat (drop_bit 23 w AND 0xFF :: u32) \<le> 255"
proof -
  have "(w AND 0x7FFFFF) \<le> 0x7FFFFF" by (rule word_and_le1)
  then have "unat (w AND 0x7FFFFF) \<le> unat (0x7FFFFF :: u32)" by (simp add: word_le_nat_alt)
  then show "unat (w AND 0x7FFFFF :: u32) < 2 ^ 23" by simp
  have "(drop_bit 23 w AND 0xFF) \<le> 0xFF" by (rule word_and_le1)
  then have "unat (drop_bit 23 w AND 0xFF) \<le> unat (0xFF :: u32)" by (simp add: word_le_nat_alt)
  then show "unat (drop_bit 23 w AND 0xFF :: u32) \<le> 255" by simp
qed

lemma f32_rep_neg: "f32_rep (- r) = f32_rep r"
  by (auto simp: f32_rep_def f32_nearest_neg)

lemma f32_rep_scaled:
  assumes "M < 2 ^ 24" "j \<le> 253"
  shows "f32_rep (real M * 2 ^ j * pow2 (- 149))"
proof -
  have "real M \<le> 2 ^ 24 - 1"
  proof -
    have "M \<le> 2 ^ 24 - 1" using assms(1) by simp
    then have "real M \<le> real (2 ^ 24 - 1)" by (rule of_nat_mono)
    then show ?thesis by simp
  qed
  moreover have "(2::real) ^ j \<le> 2 ^ 253" using assms(2) by (intro power_increasing) simp_all
  ultimately have "real M * 2 ^ j \<le> (2 ^ 24 - 1) * 2 ^ 253"
    by (intro mult_mono) simp_all
  then have "real M * 2 ^ j * pow2 (- 149) \<le> (2 ^ 24 - 1) * 2 ^ 253 * pow2 (- 149)"
    using pow2_pos [of "- 149"] by (intro mult_right_mono) simp_all
  also have "\<dots> = FLT_MAX" by (simp add: FLT_MAX_def pow2_def)
  finally have "real M * 2 ^ j * pow2 (- 149) \<le> FLT_MAX" .
  moreover have "0 \<le> real M * 2 ^ j * pow2 (- 149)" using pow2_pos [of "- 149"] by simp
  ultimately show ?thesis using assms(1) by (simp add: f32_rep_def f32_nearest_scaled)
qed

text \<open>
  Every bit pattern stands for a value that \<open>is_f32\<close> admits, so that hypothesis excludes
  no \<^verbatim>\<open>float\<close> of the program.
\<close>

lemma is_f32_value: "is_f32 (f32_value w)"
proof -
  define e where "e = unat (drop_bit 23 w AND 0xFF)"
  define m where "m = unat (w AND 0x7FFFFF)"
  have m: "m < 2 ^ 23" and e: "e \<le> 255" using field_bounds [of w] by (simp_all add: m_def e_def)
  have sp: "is_f32 (finf s)" "is_f32 (fzero s)" "is_f32 NaN" for s
    by (simp_all add: finf_def fzero_def f32_rep_def f32_nearest_zero FLT_MAX_def)
  show ?thesis
  proof (cases "e = 255 \<or> (e = 0 \<and> m = 0)")
    case True
    then have "f32_value w = finf (bit w 31) \<or> f32_value w = NaN \<or>
               f32_value w = fzero (bit w 31)"
      unfolding f32_value_def Let_def e_def [symmetric] m_def [symmetric] by auto
    then show ?thesis using sp by auto
  next
    case False
    define r where "r = (if e = 0 then real m * pow2 (- 149)
                         else real (2 ^ 23 + m) * pow2 (int e - 150))"
    have v: "f32_value w = Fin (if bit w 31 then - r else r)"
      using False by (auto simp: f32_value_def Let_def e_def [symmetric] m_def [symmetric] r_def)
    have "f32_rep r"
    proof (cases "e = 0")
      case True
      have "f32_rep (real m * 2 ^ 0 * pow2 (- 149))" using m by (intro f32_rep_scaled) simp_all
      then show ?thesis using True by (simp add: r_def)
    next
      case ne: False
      then have "int e - 150 = int (e - 1) + (- 149)" by simp
      then have "pow2 (int e - 150) = 2 ^ (e - 1) * pow2 (- 149)"
        by (simp only: pow2_add pow2_nat)
      then have "r = real (2 ^ 23 + m) * 2 ^ (e - 1) * pow2 (- 149)" using ne by (simp add: r_def)
      moreover have "f32_rep (real (2 ^ 23 + m) * 2 ^ (e - 1) * pow2 (- 149))"
        using m e False ne by (intro f32_rep_scaled) simp_all
      ultimately show ?thesis by simp
    qed
    then show ?thesis by (simp add: v f32_rep_neg)
  qed
qed

lemma f32_value_examples:
  "f32_value 0xC3480000 = Fin (- 200)" "f32_value 0x42C80000 = Fin 100"
  "f32_value 0x40800000 = Fin 4" "f32_value 0x3F800000 = Fin 1"
  "f32_value 0x7F7FFFFF = Fin FLT_MAX" "f32_value 0x80000000 = NegZero"
  "f32_value 0x7F800000 = PInf" "f32_value 0x7FC00000 = NaN"
  "f32_value 0x00000001 = Fin (pow2 (- 149))" "f32_value 0x7F400000 = Fin (3 * 2 ^ 126)"
  by (simp_all add: f32_value_def Let_def finf_def fzero_def pow2_def FLT_MAX_def bit_iff_odd
      drop_bit_eq_div)

section \<open>Properties of probe classification and of the output mapper\<close>

lemmas flt_eval = f32_round_def f32_nearest_def f32_ulp_def f32_exp_def round_even_def pow2_def
  bit_length.simps Let_def fadd_def fsub_def fmul_def fdiv_def FLT_MAX_def finf_def fzero_def

lemmas cmp_eval = flt_def feq_def fle_def fgt_def fge_def

text \<open>
  Claim C6. The classification of a filtered bridge voltage \<open>v\<close> (in millivolts): open
  exactly when \<open>v > 3000\<close>; otherwise short exactly when \<open>v < 10\<close>; otherwise out of range
  exactly when \<open>v > 2500\<close> or \<open>v < 100\<close>; otherwise ok. The open and short checks come
  first, the comparisons are strict, and 3000 itself is not open. This holds for every
  number \<open>r\<close> and, with the comparisons of \<^verbatim>\<open>float\<close>, for every value \<open>v\<close> of the type: NaN
  compares false and is classified ok, the infinities are open and short.
\<close>

theorem C6_probe_classification:
  "(CheckProbeStatus (Fin r) = PROBE_STATUS_OPEN \<longleftrightarrow> r > 3000) \<and>
   (CheckProbeStatus (Fin r) = PROBE_STATUS_SHORT \<longleftrightarrow> \<not> r > 3000 \<and> r < 10) \<and>
   (CheckProbeStatus (Fin r) = PROBE_STATUS_RANGE_ERR \<longleftrightarrow>
      \<not> r > 3000 \<and> \<not> r < 10 \<and> (r > 2500 \<or> r < 100)) \<and>
   (CheckProbeStatus (Fin r) = PROBE_STATUS_OK \<longleftrightarrow>
      \<not> r > 3000 \<and> \<not> r < 10 \<and> \<not> (r > 2500 \<or> r < 100)) \<and>
   CheckProbeStatus (Fin 3000) \<noteq> PROBE_STATUS_OPEN \<and>
   (CheckProbeStatus v = PROBE_STATUS_OPEN \<longleftrightarrow> fgt v (Fin 3000)) \<and>
   (CheckProbeStatus v = PROBE_STATUS_SHORT \<longleftrightarrow> \<not> fgt v (Fin 3000) \<and> flt v (Fin 10)) \<and>
   (CheckProbeStatus v = PROBE_STATUS_RANGE_ERR \<longleftrightarrow>
      \<not> fgt v (Fin 3000) \<and> \<not> flt v (Fin 10) \<and> (fgt v (Fin 2500) \<or> flt v (Fin 100))) \<and>
   (CheckProbeStatus v = PROBE_STATUS_OK \<longleftrightarrow>
      \<not> fgt v (Fin 3000) \<and> \<not> flt v (Fin 10) \<and> \<not> (fgt v (Fin 2500) \<or> flt v (Fin 100))) \<and>
   CheckProbeStatus NaN = PROBE_STATUS_OK \<and>
   CheckProbeStatus PInf = PROBE_STATUS_OPEN \<and>
   CheckProbeStatus NInf = PROBE_STATUS_SHORT \<and>
   CheckProbeStatus NegZero = PROBE_STATUS_SHORT"
  by (simp add: CheckProbeStatus_def PROBE_OPEN_VOLTAGE_def PROBE_SHORT_VOLTAGE_def
      PROBE_MAX_VOLTAGE_def PROBE_MIN_VOLTAGE_def cmp_eval)

theorem C6_probe_classification_witness:
  "CheckProbeStatus (Fin 3000) = PROBE_STATUS_RANGE_ERR \<and>
   CheckProbeStatus (Fin 3001) = PROBE_STATUS_OPEN \<and>
   CheckProbeStatus (Fin 5) = PROBE_STATUS_SHORT \<and>
   CheckProbeStatus (Fin 50) = PROBE_STATUS_RANGE_ERR \<and>
   CheckProbeStatus (Fin 1500) = PROBE_STATUS_OK"
  using C6_probe_classification [of 3000 "Fin 3000"] C6_probe_classification [of 3001 "Fin 3001"]
    C6_probe_classification [of 5 "Fin 5"] C6_probe_classification [of 50 "Fin 50"]
    C6_probe_classification [of 1500 "Fin 1500"]
  by simp

lemma span_16: "fsub (Fin 20) (Fin 4) = Fin 16"
  by (simp add: flt_eval)

lemma feq_zero: "feq a (Fin 0) \<longleftrightarrow> is_zero a"
  by (cases a) (simp_all add: feq_def)

lemma f32_nearest_fval: "is_f32 a \<Longrightarrow> f32_nearest (fval a) = fval a"
  by (cases a) (simp_all add: f32_rep_def f32_nearest_zero)

text \<open>Equal finite operands: the difference is a zero.\<close>

lemma fsub_equal:
  assumes "is_finite b" "feq a b"
  shows "is_zero (fsub a b)"
proof -
  have fa: "is_finite a" using assms by (cases a; cases b) (simp_all add: feq_def)
  then have "fval a = fval b" using assms by (simp add: feq_finite)
  then show ?thesis using fa assms(1)
    by (simp add: fsub_finite f32_round_is_zero f32_nearest_zero)
qed

text \<open>Unequal operands: the difference is not a zero.\<close>

lemma fsub_unequal:
  assumes "is_f32 a" "is_f32 b" "\<not> (is_finite b \<and> feq a b)"
  shows "\<not> is_zero (fsub a b)"
proof (cases "is_finite a \<and> is_finite b")
  case True
  then have "fval a \<noteq> fval b" using assms(3) by (simp add: feq_finite)
  then have "f32_nearest (fval a - fval b) \<noteq> 0"
    using assms(1,2) by (intro f32_sub_nonzero) (simp_all add: f32_nearest_fval)
  then show ?thesis using True by (simp add: fsub_finite f32_round_is_zero)
next
  case False
  then show ?thesis by (cases a; cases b) (simp_all add: fsub_def fadd_def)
qed

lemma not_fgt_4_20: "\<not> fgt (Fin 4) (Fin 20)"
  by (simp add: cmp_eval)

lemma CalcCurrent_unfold:
  "APP_Output_CalcCurrent g T =
    (if is_zero (fsub (temp_20mA g) (temp_4mA g)) then Fin 12
     else
       (let c = fadd (Fin 4) (fmul (fdiv (fsub T (temp_4mA g))
                                          (fsub (temp_20mA g) (temp_4mA g))) (Fin 16))
        in if flt c (Fin 4) then Fin 4 else if fgt c (Fin 20) then Fin 20 else c))"
  by (simp add: APP_Output_CalcCurrent_def Let_def span_16 OUTPUT_MIN_CURRENT_def
      OUTPUT_MAX_CURRENT_def feq_zero not_fgt_4_20)

text \<open>The limiter passes NaN on; every other value ends between 4 and 20.\<close>

lemma clamp_range:
  assumes "r = (if flt c (Fin 4) then Fin 4 else if fgt c (Fin 20) then Fin 20 else c)"
  shows "(r = NaN \<longleftrightarrow> c = NaN) \<and> (r \<noteq> NaN \<longrightarrow> fle (Fin 4) r \<and> fle r (Fin 20))"
  unfolding assms by (cases c) (auto simp: cmp_eval)

lemma CalcCurrent_range:
  "APP_Output_CalcCurrent g T \<noteq> NaN \<Longrightarrow>
   fle (Fin 4) (APP_Output_CalcCurrent g T) \<and> fle (APP_Output_CalcCurrent g T) (Fin 20)"
proof (cases "is_zero (fsub (temp_20mA g) (temp_4mA g))")
  case True
  then show ?thesis by (simp add: CalcCurrent_unfold cmp_eval)
next
  case False
  assume n: "APP_Output_CalcCurrent g T \<noteq> NaN"
  define c where "c = fadd (Fin 4) (fmul (fdiv (fsub T (temp_4mA g))
                                          (fsub (temp_20mA g) (temp_4mA g))) (Fin 16))"
  have "APP_Output_CalcCurrent g T =
      (if flt c (Fin 4) then Fin 4 else if fgt c (Fin 20) then Fin 20 else c)"
    using False by (simp add: CalcCurrent_unfold Let_def c_def)
  then show ?thesis using n clamp_range by blast
qed

lemma CalcCurrent_NaN:
  assumes "is_finite T" "is_finite (temp_4mA g)" "is_finite (temp_20mA g)"
  shows "APP_Output_CalcCurrent g T = NaN \<longleftrightarrow>
         is_inf (fsub T (temp_4mA g)) \<and> is_inf (fsub (temp_20mA g) (temp_4mA g))"
proof (cases "is_zero (fsub (temp_20mA g) (temp_4mA g))")
  case True
  moreover have "\<not> is_inf (fsub (temp_20mA g) (temp_4mA g))"
    using True by (cases "fsub (temp_20mA g) (temp_4mA g)") simp_all
  ultimately show ?thesis by (simp add: CalcCurrent_unfold)
next
  case False
  define X where "X = fsub T (temp_4mA g)"
  define R where "R = fsub (temp_20mA g) (temp_4mA g)"
  define c where "c = fadd (Fin 4) (fmul (fdiv X R) (Fin 16))"
  have nn: "X \<noteq> NaN" "R \<noteq> NaN"
    using assms by (auto simp: X_def R_def fsub_NaN)
  have "APP_Output_CalcCurrent g T =
      (if flt c (Fin 4) then Fin 4 else if fgt c (Fin 20) then Fin 20 else c)"
    using False by (simp add: CalcCurrent_unfold Let_def c_def X_def R_def)
  then have "APP_Output_CalcCurrent g T = NaN \<longleftrightarrow> c = NaN" using clamp_range by blast
  also have "\<dots> \<longleftrightarrow> fdiv X R = NaN" by (simp add: c_def fadd_NaN fmul_NaN)
  also have "\<dots> \<longleftrightarrow> is_inf X \<and> is_inf R"
    using nn False by (simp add: fdiv_NaN R_def [symmetric])
  finally show ?thesis by (simp add: X_def R_def)
qed

lemma e1: "fsub (Fin 100) (Fin (- 200)) = Fin 300" by (simp add: flt_eval)
lemma e2: "fsub (Fin (- 200)) (Fin (- 200)) = Fin 0" by (simp add: flt_eval)
lemma e3: "fsub (Fin (- 50)) (Fin (- 200)) = Fin 150" by (simp add: flt_eval)
lemma e4: "fdiv (Fin 0) (Fin 300) = Fin 0" "fdiv (Fin 300) (Fin 300) = Fin 1"
  "fdiv (Fin 150) (Fin 300) = Fin (1 / 2)" by (simp_all add: flt_eval)
lemma e5: "fmul (Fin 0) (Fin 16) = Fin 0" "fmul (Fin 1) (Fin 16) = Fin 16"
  "fmul (Fin (1 / 2)) (Fin 16) = Fin 8" by (simp_all add: flt_eval)
lemma e6: "fadd (Fin 4) (Fin 0) = Fin 4" "fadd (Fin 4) (Fin 16) = Fin 20"
  "fadd (Fin 4) (Fin 8) = Fin 12" by (simp_all add: flt_eval)

lemma CalcCurrent_default:
  "APP_Output_CalcCurrent \<lparr>temp_4mA = Fin (- 200), temp_20mA = Fin 100, current_mA = c\<rparr>
     (Fin (- 200)) = Fin 4"
  "APP_Output_CalcCurrent \<lparr>temp_4mA = Fin (- 200), temp_20mA = Fin 100, current_mA = c\<rparr>
     (Fin 100) = Fin 20"
  "APP_Output_CalcCurrent \<lparr>temp_4mA = Fin (- 200), temp_20mA = Fin 100, current_mA = c\<rparr>
     (Fin (- 50)) = Fin 12"
  by (simp_all add: CalcCurrent_unfold e1 e2 e3 e4 e5 e6 cmp_eval)

lemma f32_small: "is_f32 (Fin (- 200))" "is_f32 (Fin 100)" "is_f32 (Fin (- 50))"
  by (simp_all add: f32_rep_def flt_eval)

lemma rep_mid: "f32_rep 225" "f32_rep 300" "f32_rep (3 / 4)" "f32_rep 12" "f32_rep 16"
  by (simp_all add: f32_rep_def flt_eval)

lemma near_mid:
  "f32_nearest 200 = 200" "f32_nearest 300 = 300"
  "f32_nearest (2 / 3) = 11184811 / 16777216"
  "f32_nearest (11184811 / 1048576) = 11184811 / 1048576"
  "f32_nearest (15379115 / 1048576) = 15379115 / 1048576"
  by (simp_all add: flt_eval)

lemma big_sum: "fsub (Fin (3 * 2 ^ 126)) (Fin (- (3 * 2 ^ 126))) = PInf"
  by (simp add: flt_eval)

lemma f32_big: "is_f32 (Fin (3 * 2 ^ 126))" "is_f32 (Fin (- (3 * 2 ^ 126)))"
  by (simp_all add: f32_rep_def flt_eval)

text \<open>
  Where no operation rounds, the result is the formula of the note in the source,
  \<open>4 + (T - T_4mA) / (T_20mA - T_4mA) \<times> 16\<close>, limited to the interval from 4 to 20.
\<close>

lemma CalcCurrent_exact:
  assumes fin: "is_finite T" "is_finite (temp_4mA g)" "is_finite (temp_20mA g)"
    and ne: "fval (temp_20mA g) \<noteq> fval (temp_4mA g)"
    and x: "f32_rep (fval T - fval (temp_4mA g))"
    and r: "f32_rep (fval (temp_20mA g) - fval (temp_4mA g))"
    and q: "f32_rep ((fval T - fval (temp_4mA g)) / (fval (temp_20mA g) - fval (temp_4mA g)))"
    and m: "f32_rep ((fval T - fval (temp_4mA g)) / (fval (temp_20mA g) - fval (temp_4mA g)) * 16)"
    and c: "f32_rep (4 + (fval T - fval (temp_4mA g)) /
                          (fval (temp_20mA g) - fval (temp_4mA g)) * 16)"
  shows "is_finite (APP_Output_CalcCurrent g T) \<and>
         fval (APP_Output_CalcCurrent g T) =
           max 4 (min 20 (4 + (fval T - fval (temp_4mA g)) /
                              (fval (temp_20mA g) - fval (temp_4mA g)) * 16))"
proof -
  define X where "X = fsub T (temp_4mA g)"
  define R where "R = fsub (temp_20mA g) (temp_4mA g)"
  define Q where "Q = fdiv X R"
  define M where "M = fmul Q (Fin 16)"
  define C where "C = fadd (Fin 4) M"
  have X: "is_finite X" "fval X = fval T - fval (temp_4mA g)"
    using fin x by (simp_all add: X_def fsub_finite f32_round_rep)
  have R: "is_finite R" "fval R = fval (temp_20mA g) - fval (temp_4mA g)"
    using fin r by (simp_all add: R_def fsub_finite f32_round_rep)
  have R0: "fval R \<noteq> 0" "\<not> is_zero R" using R ne by (cases R; simp)+
  have Q: "is_finite Q"
    "fval Q = (fval T - fval (temp_4mA g)) / (fval (temp_20mA g) - fval (temp_4mA g))"
    using X R R0 q by (simp_all add: Q_def fdiv_finite f32_round_rep)
  have M: "is_finite M"
    "fval M = (fval T - fval (temp_4mA g)) / (fval (temp_20mA g) - fval (temp_4mA g)) * 16"
    using Q m by (simp_all add: M_def fmul_finite f32_round_rep)
  have C: "is_finite C"
    "fval C = 4 + (fval T - fval (temp_4mA g)) / (fval (temp_20mA g) - fval (temp_4mA g)) * 16"
    using M c by (simp_all add: C_def fadd_finite f32_round_rep)
  have "APP_Output_CalcCurrent g T =
      (if flt C (Fin 4) then Fin 4 else if fgt C (Fin 20) then Fin 20 else C)"
    using R0(2) by (simp add: CalcCurrent_unfold Let_def C_def M_def Q_def X_def R_def)
  moreover have "flt C (Fin 4) \<longleftrightarrow> fval C < 4" "fgt C (Fin 20) \<longleftrightarrow> 20 < fval C"
    using C(1) by (simp_all add: fgt_def flt_finite)
  ultimately show ?thesis using C by (auto simp: max_def min_def)
qed

text \<open>
  Where no operation overflows, the result is that formula with every exact intermediate
  result rounded to the nearest binary32 number, limited to the interval.
\<close>

lemma CalcCurrent_rounded:
  assumes fin: "is_finite T" "is_finite (temp_4mA g)" "is_finite (temp_20mA g)"
    and x: "x = f32_nearest (fval T - fval (temp_4mA g))" "\<bar>x\<bar> \<le> FLT_MAX"
    and r: "r = f32_nearest (fval (temp_20mA g) - fval (temp_4mA g))" "\<bar>r\<bar> \<le> FLT_MAX"
      "r \<noteq> 0"
    and q: "q = f32_nearest (x / r)" "\<bar>q\<bar> \<le> FLT_MAX"
    and m: "m = f32_nearest (q * 16)" "\<bar>m\<bar> \<le> FLT_MAX"
    and c: "c = f32_nearest (4 + m)" "\<bar>c\<bar> \<le> FLT_MAX"
  shows "is_finite (APP_Output_CalcCurrent g T) \<and>
         fval (APP_Output_CalcCurrent g T) = max 4 (min 20 c)"
proof -
  define X where "X = fsub T (temp_4mA g)"
  define R where "R = fsub (temp_20mA g) (temp_4mA g)"
  define Q where "Q = fdiv X R"
  define M where "M = fmul Q (Fin 16)"
  define C where "C = fadd (Fin 4) M"
  have X: "is_finite X" "fval X = x"
    using fin x by (simp_all add: X_def fsub_finite f32_round_finite)
  have R: "is_finite R" "fval R = r"
    using fin r by (simp_all add: R_def fsub_finite f32_round_finite)
  have R0: "fval R \<noteq> 0" "\<not> is_zero R" using R r(3) by (cases R; simp)+
  have Q: "is_finite Q" "fval Q = q"
    using X R R0 q by (simp_all add: Q_def fdiv_finite f32_round_finite)
  have M: "is_finite M" "fval M = m"
    using Q m by (simp_all add: M_def fmul_finite f32_round_finite)
  have C: "is_finite C" "fval C = c"
    using M c by (simp_all add: C_def fadd_finite f32_round_finite)
  have "APP_Output_CalcCurrent g T =
      (if flt C (Fin 4) then Fin 4 else if fgt C (Fin 20) then Fin 20 else C)"
    using R0(2) by (simp add: CalcCurrent_unfold Let_def C_def M_def Q_def X_def R_def)
  moreover have "flt C (Fin 4) \<longleftrightarrow> fval C < 4" "fgt C (Fin 20) \<longleftrightarrow> 20 < fval C"
    using C(1) by (simp_all add: fgt_def flt_finite)
  ultimately show ?thesis using C by (auto simp: max_def min_def)
qed

text \<open>
  Claim C7, as amended. For every temperature \<open>T\<close> and set-points \<open>T_low\<close> (4 mA) and
  \<open>T_high\<close> (20 mA), \<^verbatim>\<open>APP_Output_CalcCurrent\<close> returns exactly 12 when the set-points are
  equal finite numbers, and otherwise \<open>4 + (T - T_low) / (T_high - T_low) \<times> 16\<close>, evaluated
  in binary32 arithmetic and limited to the interval from 4 to 20. The result lies in
  that interval unless it is NaN, which the limiter passes on; for finite arguments it is
  NaN exactly when both \<open>T - T_low\<close> and \<open>T_high - T_low\<close> overflow. Where no operation
  overflows, the result is the formula with each exact intermediate result rounded to the
  nearest binary32 number, limited to the interval; whenever those exact results are
  binary32 numbers, it is the value of the formula in real arithmetic, limited to the
  interval. With \<open>T_low = -200\<close> and \<open>T_high = 100\<close> the results for \<open>-200\<close>, \<open>100\<close> and
  \<open>-50\<close> are 4, 20 and 12.
\<close>

theorem C7_calc_current:
  "(is_finite (temp_4mA g) \<and> feq (temp_20mA g) (temp_4mA g) \<longrightarrow>
      APP_Output_CalcCurrent g T = Fin 12) \<and>
   (is_f32 (temp_4mA g) \<and> is_f32 (temp_20mA g) \<and>
    \<not> (is_finite (temp_4mA g) \<and> feq (temp_20mA g) (temp_4mA g)) \<longrightarrow>
      APP_Output_CalcCurrent g T =
        (let c = fadd (Fin 4) (fmul (fdiv (fsub T (temp_4mA g))
                                           (fsub (temp_20mA g) (temp_4mA g))) (Fin 16))
         in if flt c (Fin 4) then Fin 4 else if fgt c (Fin 20) then Fin 20 else c)) \<and>
   (APP_Output_CalcCurrent g T \<noteq> NaN \<longrightarrow>
      fle (Fin 4) (APP_Output_CalcCurrent g T) \<and> fle (APP_Output_CalcCurrent g T) (Fin 20)) \<and>
   (is_finite T \<and> is_finite (temp_4mA g) \<and> is_finite (temp_20mA g) \<longrightarrow>
      (APP_Output_CalcCurrent g T = NaN \<longleftrightarrow>
         is_inf (fsub T (temp_4mA g)) \<and> is_inf (fsub (temp_20mA g) (temp_4mA g)))) \<and>
   (is_finite T \<and> is_finite (temp_4mA g) \<and> is_finite (temp_20mA g) \<and>
    fval (temp_20mA g) \<noteq> fval (temp_4mA g) \<and>
    f32_rep (fval T - fval (temp_4mA g)) \<and>
    f32_rep (fval (temp_20mA g) - fval (temp_4mA g)) \<and>
    f32_rep ((fval T - fval (temp_4mA g)) / (fval (temp_20mA g) - fval (temp_4mA g))) \<and>
    f32_rep ((fval T - fval (temp_4mA g)) / (fval (temp_20mA g) - fval (temp_4mA g)) * 16) \<and>
    f32_rep (4 + (fval T - fval (temp_4mA g)) /
                   (fval (temp_20mA g) - fval (temp_4mA g)) * 16) \<longrightarrow>
      is_finite (APP_Output_CalcCurrent g T) \<and>
      fval (APP_Output_CalcCurrent g T) =
        max 4 (min 20 (4 + (fval T - fval (temp_4mA g)) /
                           (fval (temp_20mA g) - fval (temp_4mA g)) * 16))) \<and>
   (is_finite T \<and> is_finite (temp_4mA g) \<and> is_finite (temp_20mA g) \<and>
    x = f32_nearest (fval T - fval (temp_4mA g)) \<and>
    r = f32_nearest (fval (temp_20mA g) - fval (temp_4mA g)) \<and>
    q = f32_nearest (x / r) \<and> m = f32_nearest (q * 16) \<and> i = f32_nearest (4 + m) \<and>
    r \<noteq> 0 \<and> \<bar>x\<bar> \<le> FLT_MAX \<and> \<bar>r\<bar> \<le> FLT_MAX \<and> \<bar>q\<bar> \<le> FLT_MAX \<and>
    \<bar>m\<bar> \<le> FLT_MAX \<and> \<bar>i\<bar> \<le> FLT_MAX \<longrightarrow>
      is_finite (APP_Output_CalcCurrent g T) \<and>
      fval (APP_Output_CalcCurrent g T) = max 4 (min 20 i)) \<and>
   APP_Output_CalcCurrent \<lparr>temp_4mA = Fin (- 200), temp_20mA = Fin 100, current_mA = c\<rparr>
     (Fin (- 200)) = Fin 4 \<and>
   APP_Output_CalcCurrent \<lparr>temp_4mA = Fin (- 200), temp_20mA = Fin 100, current_mA = c\<rparr>
     (Fin 100) = Fin 20 \<and>
   APP_Output_CalcCurrent \<lparr>temp_4mA = Fin (- 200), temp_20mA = Fin 100, current_mA = c\<rparr>
     (Fin (- 50)) = Fin 12"
proof -
  have a: "is_finite (temp_4mA g) \<and> feq (temp_20mA g) (temp_4mA g) \<longrightarrow>
      APP_Output_CalcCurrent g T = Fin 12"
    using fsub_equal [of "temp_4mA g" "temp_20mA g"] by (simp add: CalcCurrent_unfold)
  have b: "is_f32 (temp_4mA g) \<and> is_f32 (temp_20mA g) \<and>
    \<not> (is_finite (temp_4mA g) \<and> feq (temp_20mA g) (temp_4mA g)) \<longrightarrow>
      APP_Output_CalcCurrent g T =
        (let c = fadd (Fin 4) (fmul (fdiv (fsub T (temp_4mA g))
                                           (fsub (temp_20mA g) (temp_4mA g))) (Fin 16))
         in if flt c (Fin 4) then Fin 4 else if fgt c (Fin 20) then Fin 20 else c)"
    using fsub_unequal [of "temp_20mA g" "temp_4mA g"] by (simp add: CalcCurrent_unfold)
  have c: "APP_Output_CalcCurrent g T \<noteq> NaN \<longrightarrow>
      fle (Fin 4) (APP_Output_CalcCurrent g T) \<and> fle (APP_Output_CalcCurrent g T) (Fin 20)"
    using CalcCurrent_range [of g T] by blast
  have d: "is_finite T \<and> is_finite (temp_4mA g) \<and> is_finite (temp_20mA g) \<longrightarrow>
      (APP_Output_CalcCurrent g T = NaN \<longleftrightarrow>
         is_inf (fsub T (temp_4mA g)) \<and> is_inf (fsub (temp_20mA g) (temp_4mA g)))"
    using CalcCurrent_NaN [of T g] by blast
  have e: "is_finite T \<and> is_finite (temp_4mA g) \<and> is_finite (temp_20mA g) \<and>
    fval (temp_20mA g) \<noteq> fval (temp_4mA g) \<and>
    f32_rep (fval T - fval (temp_4mA g)) \<and>
    f32_rep (fval (temp_20mA g) - fval (temp_4mA g)) \<and>
    f32_rep ((fval T - fval (temp_4mA g)) / (fval (temp_20mA g) - fval (temp_4mA g))) \<and>
    f32_rep ((fval T - fval (temp_4mA g)) / (fval (temp_20mA g) - fval (temp_4mA g)) * 16) \<and>
    f32_rep (4 + (fval T - fval (temp_4mA g)) /
                   (fval (temp_20mA g) - fval (temp_4mA g)) * 16) \<longrightarrow>
      is_finite (APP_Output_CalcCurrent g T) \<and>
      fval (APP_Output_CalcCurrent g T) =
        max 4 (min 20 (4 + (fval T - fval (temp_4mA g)) /
                           (fval (temp_20mA g) - fval (temp_4mA g)) * 16))"
    using CalcCurrent_exact [of T g] by blast
  have f: "is_finite T \<and> is_finite (temp_4mA g) \<and> is_finite (temp_20mA g) \<and>
    x = f32_nearest (fval T - fval (temp_4mA g)) \<and>
    r = f32_nearest (fval (temp_20mA g) - fval (temp_4mA g)) \<and>
    q = f32_nearest (x / r) \<and> m = f32_nearest (q * 16) \<and> i = f32_nearest (4 + m) \<and>
    r \<noteq> 0 \<and> \<bar>x\<bar> \<le> FLT_MAX \<and> \<bar>r\<bar> \<le> FLT_MAX \<and> \<bar>q\<bar> \<le> FLT_MAX \<and>
    \<bar>m\<bar> \<le> FLT_MAX \<and> \<bar>i\<bar> \<le> FLT_MAX \<longrightarrow>
      is_finite (APP_Output_CalcCurrent g T) \<and>
      fval (APP_Output_CalcCurrent g T) = max 4 (min 20 i)"
    using CalcCurrent_rounded [of T g x r q m i] by blast
  show ?thesis by (intro conjI) (rule a b c d e f CalcCurrent_default)+
qed

theorem C7_calc_current_witness:
  "is_finite (temp_4mA \<lparr>temp_4mA = Fin 5, temp_20mA = Fin 5, current_mA = Fin 4\<rparr>) \<and>
   feq (temp_20mA \<lparr>temp_4mA = Fin 5, temp_20mA = Fin 5, current_mA = Fin 4\<rparr>)
       (temp_4mA \<lparr>temp_4mA = Fin 5, temp_20mA = Fin 5, current_mA = Fin 4\<rparr>) \<and>
   APP_Output_CalcCurrent \<lparr>temp_4mA = Fin 5, temp_20mA = Fin 5, current_mA = Fin 4\<rparr> (Fin 7)
     = Fin 12 \<and>
   is_f32 (temp_4mA \<lparr>temp_4mA = Fin (- 200), temp_20mA = Fin 100, current_mA = Fin 4\<rparr>) \<and>
   is_f32 (temp_20mA \<lparr>temp_4mA = Fin (- 200), temp_20mA = Fin 100, current_mA = Fin 4\<rparr>) \<and>
   \<not> feq (temp_20mA \<lparr>temp_4mA = Fin (- 200), temp_20mA = Fin 100, current_mA = Fin 4\<rparr>)
         (temp_4mA \<lparr>temp_4mA = Fin (- 200), temp_20mA = Fin 100, current_mA = Fin 4\<rparr>) \<and>
   APP_Output_CalcCurrent \<lparr>temp_4mA = Fin (- 200), temp_20mA = Fin 100, current_mA = Fin 4\<rparr>
       (Fin 25) =
     (let c = fadd (Fin 4) (fmul (fdiv (fsub (Fin 25) (Fin (- 200)))
                                        (fsub (Fin 100) (Fin (- 200)))) (Fin 16))
      in if flt c (Fin 4) then Fin 4 else if fgt c (Fin 20) then Fin 20 else c) \<and>
   APP_Output_CalcCurrent \<lparr>temp_4mA = Fin (- 200), temp_20mA = Fin 100, current_mA = Fin 4\<rparr>
       (Fin (- 50)) \<noteq> NaN \<and>
   fle (Fin 4)
     (APP_Output_CalcCurrent \<lparr>temp_4mA = Fin (- 200), temp_20mA = Fin 100, current_mA = Fin 4\<rparr>
        (Fin (- 50))) \<and>
   fle (APP_Output_CalcCurrent \<lparr>temp_4mA = Fin (- 200), temp_20mA = Fin 100, current_mA = Fin 4\<rparr>
          (Fin (- 50))) (Fin 20) \<and>
   f32_rep (25 - (- 200)) \<and> f32_rep (100 - (- 200)) \<and>
   f32_rep ((25 - (- 200)) / (100 - (- 200))) \<and>
   f32_rep ((25 - (- 200)) / (100 - (- 200)) * 16) \<and>
   f32_rep (4 + (25 - (- 200)) / (100 - (- 200)) * 16) \<and>
   fval (APP_Output_CalcCurrent
           \<lparr>temp_4mA = Fin (- 200), temp_20mA = Fin 100, current_mA = Fin 4\<rparr> (Fin 25)) = 16 \<and>
   f32_nearest (0 - (- 200)) = 200 \<and> f32_nearest (100 - (- 200)) = 300 \<and>
   f32_nearest (200 / 300) = 11184811 / 16777216 \<and>
   f32_nearest (11184811 / 16777216 * 16) = 11184811 / 1048576 \<and>
   f32_nearest (4 + 11184811 / 1048576) = 15379115 / 1048576 \<and>
   fval (APP_Output_CalcCurrent
           \<lparr>temp_4mA = Fin (- 200), temp_20mA = Fin 100, current_mA = Fin 4\<rparr> (Fin 0))
     = 15379115 / 1048576 \<and>
   is_finite (Fin (3 * 2 ^ 126)) \<and> is_finite (Fin (- (3 * 2 ^ 126))) \<and>
   is_inf (fsub (Fin (3 * 2 ^ 126)) (Fin (- (3 * 2 ^ 126)))) \<and>
   APP_Output_CalcCurrent
     \<lparr>temp_4mA = Fin (- (3 * 2 ^ 126)), temp_20mA = Fin (3 * 2 ^ 126), current_mA = Fin 4\<rparr>
     (Fin (3 * 2 ^ 126)) = NaN"
proof -
  let ?e = "\<lparr>temp_4mA = Fin 5, temp_20mA = Fin 5, current_mA = Fin 4\<rparr>"
  let ?d = "\<lparr>temp_4mA = Fin (- 200), temp_20mA = Fin 100, current_mA = Fin 4\<rparr>"
  let ?b = "\<lparr>temp_4mA = Fin (- (3 * 2 ^ 126)), temp_20mA = Fin (3 * 2 ^ 126),
             current_mA = Fin 4\<rparr>"
  have h1: "is_finite (temp_4mA ?e) \<and> feq (temp_20mA ?e) (temp_4mA ?e)"
    by (simp add: feq_def)
  have c1: "APP_Output_CalcCurrent ?e (Fin 7) = Fin 12"
    using h1 C7_calc_current [of ?e "Fin 7"] by blast
  have h2: "is_f32 (temp_4mA ?d) \<and> is_f32 (temp_20mA ?d) \<and>
            \<not> feq (temp_20mA ?d) (temp_4mA ?d)"
    using f32_small by (simp add: feq_def)
  have c2: "APP_Output_CalcCurrent ?d (Fin 25) =
     (let c = fadd (Fin 4) (fmul (fdiv (fsub (Fin 25) (temp_4mA ?d))
                                        (fsub (temp_20mA ?d) (temp_4mA ?d))) (Fin 16))
      in if flt c (Fin 4) then Fin 4 else if fgt c (Fin 20) then Fin 20 else c)"
    using h2 C7_calc_current [of ?d "Fin 25"] by blast
  have h3: "APP_Output_CalcCurrent ?d (Fin (- 50)) \<noteq> NaN"
    by (simp add: CalcCurrent_default)
  have c3: "fle (Fin 4) (APP_Output_CalcCurrent ?d (Fin (- 50))) \<and>
            fle (APP_Output_CalcCurrent ?d (Fin (- 50))) (Fin 20)"
    using h3 C7_calc_current [of ?d "Fin (- 50)"] by blast
  have h4: "is_finite (Fin (3 * 2 ^ 126)) \<and> is_finite (temp_4mA ?b) \<and>
            is_finite (temp_20mA ?b)"
    by simp
  have i4: "is_inf (fsub (Fin (3 * 2 ^ 126)) (temp_4mA ?b)) \<and>
            is_inf (fsub (temp_20mA ?b) (temp_4mA ?b))"
    using big_sum by simp
  have c4: "APP_Output_CalcCurrent ?b (Fin (3 * 2 ^ 126)) = NaN"
    using h4 i4 C7_calc_current [of ?b "Fin (3 * 2 ^ 126)"] by blast
  have h5: "f32_rep (25 - (- 200)) \<and> f32_rep (100 - (- 200)) \<and>
     f32_rep ((25 - (- 200)) / (100 - (- 200))) \<and>
     f32_rep ((25 - (- 200)) / (100 - (- 200)) * 16) \<and>
     f32_rep (4 + (25 - (- 200)) / (100 - (- 200)) * 16)"
    using rep_mid by simp
  have c5: "fval (APP_Output_CalcCurrent ?d (Fin 25)) = 16"
    using h5 C7_calc_current [of ?d "Fin 25"] by simp
  have h6: "f32_nearest (0 - (- 200)) = 200 \<and> f32_nearest (100 - (- 200)) = 300 \<and>
     f32_nearest (200 / 300) = 11184811 / 16777216 \<and>
     f32_nearest (11184811 / 16777216 * 16) = 11184811 / 1048576 \<and>
     f32_nearest (4 + 11184811 / 1048576) = 15379115 / 1048576"
    using near_mid by simp
  have c6: "fval (APP_Output_CalcCurrent ?d (Fin 0)) = 15379115 / 1048576"
    using h6 C7_calc_current [where g = ?d and T = "Fin 0" and x = 200 and r = 300
        and q = "11184811 / 16777216" and m = "11184811 / 1048576"
        and i = "15379115 / 1048576"]
    by (simp add: FLT_MAX_def)
  have s: "temp_4mA ?d = Fin (- 200)" "temp_20mA ?d = Fin 100" by simp_all
  show ?thesis
    using h1 c1 h2 c2 [unfolded s] h3 c3 c4 h5 c5 h6 c6 big_sum by simp
qed

text \<open>
  Claim C7 as stated fails twice. Its last instance is miscalculated: with set-points
  \<open>-200\<close> and \<open>100\<close> the current for \<open>-50\<close> is 12, the middle of the span, not 10. And the
  result is not always in the interval: with the finite set-points \<open>\<plusminus>3 \<times> 2\<^sup>1\<^sup>2\<^sup>6\<close> (about
  \<open>2.6 \<times> 10\<^sup>3\<^sup>8\<close>) and the upper one as temperature, both differences overflow to infinity,
  their quotient is NaN, and the limiter returns NaN.
\<close>

theorem C7_counterexample:
  "APP_Output_CalcCurrent \<lparr>temp_4mA = Fin (- 200), temp_20mA = Fin 100, current_mA = Fin 4\<rparr>
     (Fin (- 50)) = Fin 12 \<and>
   \<not> feq (APP_Output_CalcCurrent
            \<lparr>temp_4mA = Fin (- 200), temp_20mA = Fin 100, current_mA = Fin 4\<rparr> (Fin (- 50)))
          (Fin 10) \<and>
   is_f32 (Fin (3 * 2 ^ 126)) \<and> is_f32 (Fin (- (3 * 2 ^ 126))) \<and>
   APP_Output_CalcCurrent
     \<lparr>temp_4mA = Fin (- (3 * 2 ^ 126)), temp_20mA = Fin (3 * 2 ^ 126), current_mA = Fin 4\<rparr>
     (Fin (3 * 2 ^ 126)) = NaN \<and>
   \<not> fle (Fin 4) (APP_Output_CalcCurrent
     \<lparr>temp_4mA = Fin (- (3 * 2 ^ 126)), temp_20mA = Fin (3 * 2 ^ 126), current_mA = Fin 4\<rparr>
     (Fin (3 * 2 ^ 126)))"
proof -
  let ?b = "\<lparr>temp_4mA = Fin (- (3 * 2 ^ 126)), temp_20mA = Fin (3 * 2 ^ 126),
             current_mA = Fin 4\<rparr>"
  have "is_inf (fsub (Fin (3 * 2 ^ 126)) (temp_4mA ?b)) \<and>
        is_inf (fsub (temp_20mA ?b) (temp_4mA ?b))"
    using big_sum by simp
  then have n: "APP_Output_CalcCurrent ?b (Fin (3 * 2 ^ 126)) = NaN"
    using CalcCurrent_NaN [of "Fin (3 * 2 ^ 126)" ?b] by simp
  have f: "is_f32 (Fin (3 * 2 ^ 126)) \<and> is_f32 (Fin (- (3 * 2 ^ 126)))"
    using f32_big by simp
  have c: "\<not> feq (Fin 12) (Fin 10)" "\<not> fle (Fin 4) NaN"
    by (simp_all add: cmp_eval)
  show ?thesis
    unfolding n using f c by (simp only: CalcCurrent_default) simp
qed

section \<open>Properties of the calibration table lookup\<close>

text \<open>
  The binary search ends on two neighbouring indices between the initial ones, whatever
  the table holds.
\<close>

lemma table_search_adjacent:
  "0 \<le> low \<Longrightarrow> low < high \<Longrightarrow>
   \<exists>lo. table_search pts v low high = (lo, lo + 1) \<and> low \<le> lo \<and> lo + 1 \<le> high"
proof (induction pts v low high rule: table_search.induct)
  case (1 pts v low high)
  show ?case
  proof (cases "high - low > 1")
    case False
    then have h: "high = low + 1" using "1.prems" by simp
    have "table_search pts v low (low + 1) = (low, low + 1)"
      by (simp add: table_search.simps [of pts v low "low + 1"])
    then show ?thesis using h by auto
  next
    case True
    define mid where "mid = (low + high) div 2"
    have m: "low < mid" "mid < high" using True by (simp_all add: mid_def)
    show ?thesis
    proof (cases "fgt v (voltage (pts ! nat mid))")
      case gt: True
      have "\<exists>lo. table_search pts v low mid = (lo, lo + 1) \<and> low \<le> lo \<and> lo + 1 \<le> mid"
        using "1.IH"(1) [OF True mid_def gt] "1.prems" m by simp
      then show ?thesis
        using True gt m by (auto simp: table_search.simps [of pts v low high] mid_def Let_def)
    next
      case le: False
      have "\<exists>lo. table_search pts v mid high = (lo, lo + 1) \<and> mid \<le> lo \<and> lo + 1 \<le> high"
        using "1.IH"(2) [OF True mid_def le] "1.prems" m by simp
      then show ?thesis
        using True le m by (auto simp: table_search.simps [of pts v low high] mid_def Let_def)
    qed
  qed
qed

text \<open>
  The invariant of the binary search where no voltage between \<open>low\<close> and \<open>high\<close> is NaN:
  the voltage at \<open>low\<close> is at or above the input, the voltage at \<open>high\<close> is below it.
\<close>

lemma table_search_bracket:
  "0 \<le> low \<Longrightarrow> low < high \<Longrightarrow> fle v (voltage (pts ! nat low)) \<Longrightarrow>
   flt (voltage (pts ! nat high)) v \<Longrightarrow>
   (\<forall>j. low \<le> j \<and> j \<le> high \<longrightarrow> voltage (pts ! nat j) \<noteq> NaN) \<Longrightarrow>
   \<exists>lo. table_search pts v low high = (lo, lo + 1) \<and> low \<le> lo \<and> lo + 1 \<le> high \<and>
        fle v (voltage (pts ! nat lo)) \<and> flt (voltage (pts ! nat (lo + 1))) v"
proof (induction pts v low high rule: table_search.induct)
  case (1 pts v low high)
  have vn: "v \<noteq> NaN" using "1.prems"(3) fle_not_NaN by blast
  show ?case
  proof (cases "high - low > 1")
    case False
    then have h: "high = low + 1" using "1.prems" by simp
    have "table_search pts v low (low + 1) = (low, low + 1)"
      by (simp add: table_search.simps [of pts v low "low + 1"])
    moreover have "flt (voltage (pts ! nat (low + 1))) v" using "1.prems" h by simp
    ultimately show ?thesis using "1.prems" h by auto
  next
    case True
    define mid where "mid = (low + high) div 2"
    have m: "low < mid" "mid < high" using True by (simp_all add: mid_def)
    have mn: "voltage (pts ! nat mid) \<noteq> NaN" using "1.prems"(5) m by simp
    show ?thesis
    proof (cases "fgt v (voltage (pts ! nat mid))")
      case gt: True
      have g: "flt (voltage (pts ! nat mid)) v" using gt by (simp add: fgt_def)
      have n: "\<forall>j. low \<le> j \<and> j \<le> mid \<longrightarrow> voltage (pts ! nat j) \<noteq> NaN"
        using "1.prems"(5) m by simp
      have "\<exists>lo. table_search pts v low mid = (lo, lo + 1) \<and> low \<le> lo \<and> lo + 1 \<le> mid \<and>
        fle v (voltage (pts ! nat lo)) \<and> flt (voltage (pts ! nat (lo + 1))) v"
        using "1.IH"(1) [OF True mid_def gt "1.prems"(1) m(1) "1.prems"(3) g n] .
      then show ?thesis
        using True gt m by (auto simp: table_search.simps [of pts v low high] mid_def Let_def)
    next
      case le: False
      have l: "fle v (voltage (pts ! nat mid))" using vn mn le by (rule not_fgt_fle)
      have n: "\<forall>j. mid \<le> j \<and> j \<le> high \<longrightarrow> voltage (pts ! nat j) \<noteq> NaN"
        using "1.prems"(5) m by simp
      have m0: "0 \<le> mid" using "1.prems"(1) m by simp
      have "\<exists>lo. table_search pts v mid high = (lo, lo + 1) \<and> mid \<le> lo \<and> lo + 1 \<le> high \<and>
        fle v (voltage (pts ! nat lo)) \<and> flt (voltage (pts ! nat (lo + 1))) v"
        using "1.IH"(2) [OF True mid_def le m0 m(2) l "1.prems"(4) n] .
      then show ?thesis
        using True le m by (auto simp: table_search.simps [of pts v low high] mid_def Let_def)
    qed
  qed
qed

lemma verify_ok:
  "APP_Temp_TableVerify tbl = 0 \<Longrightarrow> 0 < unat (point_count (table_header tbl))"
  by (auto simp: APP_Temp_TableVerify_def unat_gt_0 split: if_splits)

lemma lookup_invalid: "APP_Temp_TableVerify tbl \<noteq> 0 \<Longrightarrow> APP_Temp_TableLookup tbl v = Fin 0"
  by (simp add: APP_Temp_TableLookup_def Let_def)

lemma lookup_first:
  "APP_Temp_TableVerify tbl = 0 \<Longrightarrow> fge v (voltage (table_points tbl ! 0)) \<Longrightarrow>
   APP_Temp_TableLookup tbl v = temperature (table_points tbl ! 0)"
  by (simp add: APP_Temp_TableLookup_def Let_def)

lemma lookup_last:
  assumes "APP_Temp_TableVerify tbl = 0" "\<not> fge v (voltage (table_points tbl ! 0))"
    and "fle v (voltage (table_points tbl ! (unat (point_count (table_header tbl)) - 1)))"
  shows "APP_Temp_TableLookup tbl v =
         temperature (table_points tbl ! (unat (point_count (table_header tbl)) - 1))"
proof -
  have "nat (int (unat (point_count (table_header tbl))) - 1) =
        unat (point_count (table_header tbl)) - 1"
    by (simp del: of_nat_unat)
  then show ?thesis using assms by (simp add: APP_Temp_TableLookup_def Let_def del: of_nat_unat)
qed

text \<open>The descending voltage column.\<close>

lemma descending_nth:
  fixes pts :: "float TempTablePoint_t list"
  assumes "sorted_wrt (\<lambda>p q. flt (voltage q) (voltage p)) (take n pts)" "n \<le> length pts"
    and "i < j" "j < n"
  shows "flt (voltage (pts ! j)) (voltage (pts ! i))"
proof -
  have "flt (voltage (take n pts ! j)) (voltage (take n pts ! i))"
    using assms
    by (intro sorted_wrt_nth_less [where P = "\<lambda>p q. flt (voltage q) (voltage p)"]) simp_all
  then show ?thesis using assms by simp
qed

lemma descending_not_NaN:
  fixes pts :: "float TempTablePoint_t list"
  assumes "sorted_wrt (\<lambda>p q. flt (voltage q) (voltage p)) (take n pts)" "n \<le> length pts"
    and "2 \<le> n" "j < n"
  shows "voltage (pts ! j) \<noteq> NaN"
proof (cases "j = 0")
  case True
  have "flt (voltage (pts ! 1)) (voltage (pts ! 0))"
    using assms(3) by (intro descending_nth [OF assms(1,2)]) simp_all
  then show ?thesis using True flt_not_NaN by blast
next
  case False
  then have "flt (voltage (pts ! j)) (voltage (pts ! 0))"
    using assms(4) by (intro descending_nth [OF assms(1,2)]) simp_all
  then show ?thesis using flt_not_NaN by blast
qed

lemma descending_nth_le:
  fixes pts :: "float TempTablePoint_t list"
  assumes "sorted_wrt (\<lambda>p q. flt (voltage q) (voltage p)) (take n pts)" "n \<le> length pts"
    and "i \<le> j" "j < n" "2 \<le> n"
  shows "fle (voltage (pts ! j)) (voltage (pts ! i))"
proof (cases "i = j")
  case True
  have "voltage (pts ! j) \<noteq> NaN" using assms by (intro descending_not_NaN [OF assms(1,2)])
  then show ?thesis using True by (simp add: fle_refl)
next
  case False
  then have "i < j" using assms(3) by simp
  then show ?thesis using descending_nth [OF assms(1,2) _ assms(4)] by (simp add: flt_fle)
qed

lemma flt_irrefl: "\<not> flt a a"
  by (cases a) (simp_all add: flt_def)

lemma lookup_last_descending:
  assumes ok: "APP_Temp_TableVerify tbl = 0"
    and len: "unat (point_count (table_header tbl)) \<le> length (table_points tbl)"
    and desc: "sorted_wrt (\<lambda>p q. flt (voltage q) (voltage p))
                 (take (unat (point_count (table_header tbl))) (table_points tbl))"
    and le: "fle v (voltage (table_points tbl ! (unat (point_count (table_header tbl)) - 1)))"
  shows "APP_Temp_TableLookup tbl v =
         temperature (table_points tbl ! (unat (point_count (table_header tbl)) - 1))"
proof (cases "fge v (voltage (table_points tbl ! 0))")
  case False
  then show ?thesis using ok le by (intro lookup_last)
next
  case True
  define n where "n = unat (point_count (table_header tbl))"
  have npos: "0 < n" using ok verify_ok by (simp add: n_def)
  have "n - 1 = 0"
  proof (rule ccontr)
    assume "n - 1 \<noteq> 0"
    then have "flt (voltage (table_points tbl ! (n - 1))) (voltage (table_points tbl ! 0))"
      using desc len npos unfolding n_def [symmetric] by (intro descending_nth [where n = n]) simp_all
    moreover have "fle (voltage (table_points tbl ! 0)) v" using True by (simp add: fge_def)
    ultimately have "flt (voltage (table_points tbl ! (n - 1))) v" by (rule flt_fle_trans)
    then have "flt (voltage (table_points tbl ! (n - 1))) (voltage (table_points tbl ! (n - 1)))"
      using le unfolding n_def [symmetric] by (rule flt_fle_trans)
    then show False by (simp add: flt_irrefl)
  qed
  then show ?thesis using True ok by (simp add: lookup_first n_def)
qed

text \<open>
  Strictly between the first and the last voltage the result is the return expression on
  two neighbouring points; they bracket the input if the voltage column is descending.
\<close>

lemma lookup_interior:
  assumes ok: "APP_Temp_TableVerify tbl = 0"
    and len: "unat (point_count (table_header tbl)) \<le> length (table_points tbl)"
    and desc: "sorted_wrt (\<lambda>p q. flt (voltage q) (voltage p))
                 (take (unat (point_count (table_header tbl))) (table_points tbl))"
    and lt: "flt v (voltage (table_points tbl ! 0))"
    and gt: "flt (voltage (table_points tbl ! (unat (point_count (table_header tbl)) - 1))) v"
  shows "\<exists>i. i + 1 < unat (point_count (table_header tbl)) \<and>
           fle v (voltage (table_points tbl ! i)) \<and> flt (voltage (table_points tbl ! (i + 1))) v \<and>
           APP_Temp_TableLookup tbl v =
             interpolate v (voltage (table_points tbl ! i)) (temperature (table_points tbl ! i))
               (voltage (table_points tbl ! (i + 1))) (temperature (table_points tbl ! (i + 1)))"
proof -
  define n where "n = unat (point_count (table_header tbl))"
  define pts where "pts = table_points tbl"
  note d = desc [folded n_def pts_def] and l = len [folded n_def pts_def]
  have npos: "0 < n" using ok verify_ok by (simp add: n_def)
  have hi: "nat (int n - 1) = n - 1" by simp
  have n1: "n \<noteq> 1"
  proof
    assume "n = 1"
    then have "flt v v" using lt gt unfolding n_def [symmetric] by (auto intro: flt_fle_trans flt_fle)
    then show False by (simp add: flt_irrefl)
  qed
  then have n2: "2 \<le> n" using npos by simp
  have nan: "\<forall>j. 0 \<le> j \<and> j \<le> int n - 1 \<longrightarrow> voltage (pts ! nat j) \<noteq> NaN"
  proof (intro allI impI)
    fix j :: int
    assume "0 \<le> j \<and> j \<le> int n - 1"
    then have "nat j < n" using npos by linarith
    then show "voltage (pts ! nat j) \<noteq> NaN" using n2 by (intro descending_not_NaN [OF d l])
  qed
  have nf: "\<not> fge v (voltage (pts ! 0))" using lt by (simp add: flt_not_fge pts_def)
  have nl: "\<not> fle v (voltage (pts ! (n - 1)))"
    using gt by (simp add: flt_not_fle pts_def n_def)
  have "\<exists>lo. table_search pts v 0 (int n - 1) = (lo, lo + 1) \<and> 0 \<le> lo \<and> lo + 1 \<le> int n - 1 \<and>
        fle v (voltage (pts ! nat lo)) \<and> flt (voltage (pts ! nat (lo + 1))) v"
    using lt gt n2 nan
    by (intro table_search_bracket) (simp_all add: pts_def n_def [symmetric] hi flt_fle)
  then obtain lo where s: "table_search pts v 0 (int n - 1) = (lo, lo + 1)"
    and b: "0 \<le> lo" "lo + 1 \<le> int n - 1"
    and v: "fle v (voltage (pts ! nat lo))" "flt (voltage (pts ! nat (lo + 1))) v"
    by blast
  have nlo: "nat (lo + 1) = nat lo + 1" using b by simp
  have "APP_Temp_TableLookup tbl v =
      interpolate v (voltage (pts ! nat lo)) (temperature (pts ! nat lo))
        (voltage (pts ! nat (lo + 1))) (temperature (pts ! nat (lo + 1)))"
    using ok nf nl s
    by (simp add: APP_Temp_TableLookup_def Let_def pts_def [symmetric] n_def [symmetric] hi
        del: of_nat_unat)
  moreover have "nat lo + 1 < n" using b by simp
  ultimately show ?thesis
    using v unfolding nlo pts_def n_def by blast
qed

lemmas tbl_eval = APP_Temp_TableLookup_def mk_table_def APP_Temp_TableVerify_def
  TEMP_TABLE_MAGIC_def TEMP_TABLE_MAX_POINTS_def table_search.simps Let_def

text \<open>
  Where no operation rounds, the return expression is the linear interpolation between
  the two points.
\<close>

lemma interpolate_exact:
  assumes fin: "is_finite v" "is_finite v0" "is_finite t0" "is_finite v1" "is_finite t1"
    and ne: "fval v1 \<noteq> fval v0"
    and x: "f32_rep (fval v - fval v0)"
    and k: "f32_rep (fval t1 - fval t0)"
    and p: "f32_rep ((fval v - fval v0) * (fval t1 - fval t0))"
    and d: "f32_rep (fval v1 - fval v0)"
    and q: "f32_rep ((fval v - fval v0) * (fval t1 - fval t0) / (fval v1 - fval v0))"
    and r: "f32_rep (fval t0 + (fval v - fval v0) * (fval t1 - fval t0) / (fval v1 - fval v0))"
  shows "is_finite (fadd t0 (fdiv (fmul (fsub v v0) (fsub t1 t0)) (fsub v1 v0))) \<and>
         fval (fadd t0 (fdiv (fmul (fsub v v0) (fsub t1 t0)) (fsub v1 v0))) =
           fval t0 + (fval v - fval v0) * (fval t1 - fval t0) / (fval v1 - fval v0)"
proof -
  have X: "is_finite (fsub v v0)" "fval (fsub v v0) = fval v - fval v0"
    using fin x by (simp_all add: fsub_finite f32_round_rep)
  have K: "is_finite (fsub t1 t0)" "fval (fsub t1 t0) = fval t1 - fval t0"
    using fin k by (simp_all add: fsub_finite f32_round_rep)
  have D: "is_finite (fsub v1 v0)" "fval (fsub v1 v0) = fval v1 - fval v0"
    using fin d by (simp_all add: fsub_finite f32_round_rep)
  have P: "is_finite (fmul (fsub v v0) (fsub t1 t0))"
    "fval (fmul (fsub v v0) (fsub t1 t0)) = (fval v - fval v0) * (fval t1 - fval t0)"
    using X K p by (simp_all add: fmul_finite f32_round_rep)
  have Q: "is_finite (fdiv (fmul (fsub v v0) (fsub t1 t0)) (fsub v1 v0))"
    "fval (fdiv (fmul (fsub v v0) (fsub t1 t0)) (fsub v1 v0)) =
       (fval v - fval v0) * (fval t1 - fval t0) / (fval v1 - fval v0)"
    using P D ne q by (simp_all add: fdiv_finite f32_round_rep)
  show ?thesis using fin(3) Q r by (simp add: fadd_finite f32_round_rep)
qed

text \<open>
  Where no operation overflows, the return expression is the linear interpolation with
  every exact intermediate result rounded to the nearest binary32 number.
\<close>

lemma interpolate_rounded:
  assumes fin: "is_finite v" "is_finite v0" "is_finite t0" "is_finite v1" "is_finite t1"
    and x: "x = f32_nearest (fval v - fval v0)" "\<bar>x\<bar> \<le> FLT_MAX"
    and k: "k = f32_nearest (fval t1 - fval t0)" "\<bar>k\<bar> \<le> FLT_MAX"
    and d: "d = f32_nearest (fval v1 - fval v0)" "\<bar>d\<bar> \<le> FLT_MAX" "d \<noteq> 0"
    and p: "p = f32_nearest (x * k)" "\<bar>p\<bar> \<le> FLT_MAX"
    and q: "q = f32_nearest (p / d)" "\<bar>q\<bar> \<le> FLT_MAX"
    and r: "r = f32_nearest (fval t0 + q)" "\<bar>r\<bar> \<le> FLT_MAX"
  shows "is_finite (fadd t0 (fdiv (fmul (fsub v v0) (fsub t1 t0)) (fsub v1 v0))) \<and>
         fval (fadd t0 (fdiv (fmul (fsub v v0) (fsub t1 t0)) (fsub v1 v0))) = r"
proof -
  have X: "is_finite (fsub v v0)" "fval (fsub v v0) = x"
    using fin x by (simp_all add: fsub_finite f32_round_finite)
  have K: "is_finite (fsub t1 t0)" "fval (fsub t1 t0) = k"
    using fin k by (simp_all add: fsub_finite f32_round_finite)
  have D: "is_finite (fsub v1 v0)" "fval (fsub v1 v0) = d"
    using fin d by (simp_all add: fsub_finite f32_round_finite)
  have P: "is_finite (fmul (fsub v v0) (fsub t1 t0))" "fval (fmul (fsub v v0) (fsub t1 t0)) = p"
    using X K p by (simp_all add: fmul_finite f32_round_finite)
  have Q: "is_finite (fdiv (fmul (fsub v v0) (fsub t1 t0)) (fsub v1 v0))"
    "fval (fdiv (fmul (fsub v v0) (fsub t1 t0)) (fsub v1 v0)) = q"
    using P D d(3) q by (simp_all add: fdiv_finite f32_round_finite)
  show ?thesis using fin(3) Q r by (simp add: fadd_finite f32_round_finite)
qed

lemma i1: "fsub (Fin 75) (Fin 100) = Fin (- 25)" "fsub (Fin 10) (Fin 0) = Fin 10"
  "fmul (Fin (- 25)) (Fin 10) = Fin (- 250)" "fsub (Fin 50) (Fin 100) = Fin (- 50)"
  "fdiv (Fin (- 250)) (Fin (- 50)) = Fin 5" "fadd (Fin 0) (Fin 5) = Fin 5"
  by (simp_all add: flt_eval)

lemma i2: "fsub (Fin 60) (Fin 100) = Fin (- 40)" "fmul (Fin (- 40)) (Fin 10) = Fin (- 400)"
  "fdiv (Fin (- 400)) (Fin (- 50)) = Fin 8" "fadd (Fin 0) (Fin 8) = Fin 8"
  by (simp_all add: flt_eval)

lemma lookup_instances:
  "APP_Temp_TableLookup (mk_table [(Fin 100, Fin 0), (Fin 50, Fin 10), (Fin 0, Fin 20)]) (Fin 75)
     = Fin 5"
  "APP_Temp_TableLookup (mk_table [(Fin 100, Fin 0), (Fin 50, Fin 10), (Fin 0, Fin 20)]) (Fin 0)
     = Fin 20"
  "APP_Temp_TableLookup (mk_table [(Fin 100, Fin 0), (Fin 50, Fin 10), (Fin 0, Fin 20)]) (Fin 150)
     = Fin 0"
  "APP_Temp_TableLookup (mk_table [(Fin 100, Fin 0), (Fin 50, Fin 10), (Fin 0, Fin 20)]) (Fin 60)
     = Fin 8"
  by (simp_all add: tbl_eval cmp_eval interpolate_def i1 i2)

lemma lookup_NaN: "APP_Temp_TableVerify tbl = 0 \<Longrightarrow> APP_Temp_TableLookup tbl NaN = NaN"
  by (simp add: APP_Temp_TableLookup_def Let_def interpolate_def cmp_eval fsub_def fadd_def
      fmul_def fdiv_def split: prod.splits)

text \<open>
  Claim C3, as amended. \<^verbatim>\<open>APP_Temp_TableLookup\<close> returns 0 when the table fails
  verification. Otherwise it returns the first point's temperature for a voltage at or
  above the first entry's, the last point's temperature for a voltage at or below the last
  entry's (the voltage column being descending), and for a voltage strictly between them
  the linear interpolation \<open>t0 + (v - v0) \<times> (t1 - t0) / (v1 - v0)\<close> between the two
  neighbouring points \<open>i\<close> and \<open>i + 1\<close> that bracket it, evaluated in binary32 arithmetic:
  each of the five operations rounds its exact result to the nearest binary32 number, and
  overflows to an infinity beyond \<open>FLT_MAX\<close>. That value is the linear interpolation itself
  whenever the exact result of each operation is a binary32 number. A NaN voltage gives
  NaN. For the table \<open>[(100,0),(50,10),(0,20)]\<close>:
  lookup(75) = 5, lookup(0) = 20, lookup(150) = 0, and lookup(60) = 8.
\<close>

theorem C3_table_lookup:
  "(APP_Temp_TableVerify tbl \<noteq> 0 \<longrightarrow> APP_Temp_TableLookup tbl v = Fin 0) \<and>
   (APP_Temp_TableVerify tbl = 0 \<and> fge v (voltage (table_points tbl ! 0)) \<longrightarrow>
      APP_Temp_TableLookup tbl v = temperature (table_points tbl ! 0)) \<and>
   (APP_Temp_TableVerify tbl = 0 \<and>
    unat (point_count (table_header tbl)) \<le> length (table_points tbl) \<and>
    sorted_wrt (\<lambda>p q. flt (voltage q) (voltage p))
      (take (unat (point_count (table_header tbl))) (table_points tbl)) \<and>
    fle v (voltage (table_points tbl ! (unat (point_count (table_header tbl)) - 1))) \<longrightarrow>
      APP_Temp_TableLookup tbl v =
        temperature (table_points tbl ! (unat (point_count (table_header tbl)) - 1))) \<and>
   (APP_Temp_TableVerify tbl = 0 \<and>
    unat (point_count (table_header tbl)) \<le> length (table_points tbl) \<and>
    sorted_wrt (\<lambda>p q. flt (voltage q) (voltage p))
      (take (unat (point_count (table_header tbl))) (table_points tbl)) \<and>
    flt v (voltage (table_points tbl ! 0)) \<and>
    flt (voltage (table_points tbl ! (unat (point_count (table_header tbl)) - 1))) v \<longrightarrow>
      (\<exists>i. i + 1 < unat (point_count (table_header tbl)) \<and>
           fle v (voltage (table_points tbl ! i)) \<and>
           flt (voltage (table_points tbl ! (i + 1))) v \<and>
           APP_Temp_TableLookup tbl v =
             fadd (temperature (table_points tbl ! i))
               (fdiv (fmul (fsub v (voltage (table_points tbl ! i)))
                           (fsub (temperature (table_points tbl ! (i + 1)))
                                 (temperature (table_points tbl ! i))))
                     (fsub (voltage (table_points tbl ! (i + 1)))
                           (voltage (table_points tbl ! i)))))) \<and>
   (APP_Temp_TableVerify tbl = 0 \<longrightarrow> APP_Temp_TableLookup tbl NaN = NaN) \<and>
   (is_finite w \<and> is_finite v0 \<and> is_finite t0 \<and> is_finite v1 \<and> is_finite t1 \<and>
    fval v1 \<noteq> fval v0 \<and>
    f32_rep (fval w - fval v0) \<and> f32_rep (fval t1 - fval t0) \<and>
    f32_rep ((fval w - fval v0) * (fval t1 - fval t0)) \<and> f32_rep (fval v1 - fval v0) \<and>
    f32_rep ((fval w - fval v0) * (fval t1 - fval t0) / (fval v1 - fval v0)) \<and>
    f32_rep (fval t0 + (fval w - fval v0) * (fval t1 - fval t0) / (fval v1 - fval v0)) \<longrightarrow>
      is_finite (fadd t0 (fdiv (fmul (fsub w v0) (fsub t1 t0)) (fsub v1 v0))) \<and>
      fval (fadd t0 (fdiv (fmul (fsub w v0) (fsub t1 t0)) (fsub v1 v0))) =
        fval t0 + (fval w - fval v0) * (fval t1 - fval t0) / (fval v1 - fval v0)) \<and>
   (is_finite w \<and> is_finite v0 \<and> is_finite t0 \<and> is_finite v1 \<and> is_finite t1 \<and>
    x = f32_nearest (fval w - fval v0) \<and> k = f32_nearest (fval t1 - fval t0) \<and>
    d = f32_nearest (fval v1 - fval v0) \<and> p = f32_nearest (x * k) \<and>
    q = f32_nearest (p / d) \<and> r = f32_nearest (fval t0 + q) \<and> d \<noteq> 0 \<and>
    \<bar>x\<bar> \<le> FLT_MAX \<and> \<bar>k\<bar> \<le> FLT_MAX \<and> \<bar>d\<bar> \<le> FLT_MAX \<and> \<bar>p\<bar> \<le> FLT_MAX \<and>
    \<bar>q\<bar> \<le> FLT_MAX \<and> \<bar>r\<bar> \<le> FLT_MAX \<longrightarrow>
      is_finite (fadd t0 (fdiv (fmul (fsub w v0) (fsub t1 t0)) (fsub v1 v0))) \<and>
      fval (fadd t0 (fdiv (fmul (fsub w v0) (fsub t1 t0)) (fsub v1 v0))) = r) \<and>
   APP_Temp_TableLookup (mk_table [(Fin 100, Fin 0), (Fin 50, Fin 10), (Fin 0, Fin 20)])
     (Fin 75) = Fin 5 \<and>
   APP_Temp_TableLookup (mk_table [(Fin 100, Fin 0), (Fin 50, Fin 10), (Fin 0, Fin 20)])
     (Fin 0) = Fin 20 \<and>
   APP_Temp_TableLookup (mk_table [(Fin 100, Fin 0), (Fin 50, Fin 10), (Fin 0, Fin 20)])
     (Fin 150) = Fin 0 \<and>
   APP_Temp_TableLookup (mk_table [(Fin 100, Fin 0), (Fin 50, Fin 10), (Fin 0, Fin 20)])
     (Fin 60) = Fin 8"
proof -
  note A = lookup_invalid [of tbl v]
  note B = lookup_first [of tbl v]
  note C = lookup_last_descending [of tbl v]
  note D = lookup_interior [of tbl v, unfolded interpolate_def]
  note E = lookup_NaN [of tbl]
  note F = interpolate_exact [of w v0 t0 v1 t1]
  note G = interpolate_rounded [of w v0 t0 v1 t1 x k d p q r]
  show ?thesis
    apply (intro conjI)
    subgoal using A by blast
    subgoal using B by blast
    subgoal using C by blast
    subgoal using D by blast
    subgoal using E by blast
    subgoal using F by blast
    subgoal using G by blast
    subgoal by (rule lookup_instances)
    subgoal by (rule lookup_instances)
    subgoal by (rule lookup_instances)
    subgoal by (rule lookup_instances)
    done
qed

lemma table3:
  "APP_Temp_TableVerify (mk_table [(Fin 100, Fin 0), (Fin 50, Fin 10), (Fin 0, Fin 20)]) = 0"
  "unat (point_count (table_header
     (mk_table [(Fin 100, Fin 0), (Fin 50, Fin 10), (Fin 0, Fin 20)]))) = 3"
  "table_points (mk_table [(Fin 100, Fin 0), (Fin 50, Fin 10), (Fin 0, Fin 20)]) =
     [\<lparr>voltage = Fin 100, temperature = Fin 0\<rparr>, \<lparr>voltage = Fin 50, temperature = Fin 10\<rparr>,
      \<lparr>voltage = Fin 0, temperature = Fin 20\<rparr>]"
  by (simp_all add: mk_table_def APP_Temp_TableVerify_def TEMP_TABLE_MAGIC_def
      TEMP_TABLE_MAX_POINTS_def)

lemma near_thirds:
  "f32_nearest (- 2) = - 2" "f32_nearest 1 = 1" "f32_nearest (- 3) = - 3"
  "f32_nearest (2 / 3) = 11184811 / 16777216"
  "f32_nearest (11184811 / 16777216) = 11184811 / 16777216"
  by (simp_all add: flt_eval)

lemma rep_small:
  "f32_rep (- 25)" "f32_rep 10" "f32_rep (- 250)" "f32_rep (- 50)" "f32_rep 5"
  by (simp_all add: f32_rep_def flt_eval)

theorem C3_table_lookup_witness:
  "APP_Temp_TableVerify
     \<lparr>table_header = \<lparr>table_magic = 0xFFFFFFFF, point_count = 0xFFFF, table_reserved = 0xFFFF\<rparr>,
      table_points = [] :: float TempTablePoint_t list\<rparr> \<noteq> 0 \<and>
   APP_Temp_TableLookup
     \<lparr>table_header = \<lparr>table_magic = 0xFFFFFFFF, point_count = 0xFFFF, table_reserved = 0xFFFF\<rparr>,
      table_points = []\<rparr> (Fin 1500) = Fin 0 \<and>
   APP_Temp_TableVerify (mk_table [(Fin 100, Fin 0), (Fin 50, Fin 10), (Fin 0, Fin 20)]) = 0 \<and>
   unat (point_count (table_header
       (mk_table [(Fin 100, Fin 0), (Fin 50, Fin 10), (Fin 0, Fin 20)])))
     \<le> length (table_points (mk_table [(Fin 100, Fin 0), (Fin 50, Fin 10), (Fin 0, Fin 20)])) \<and>
   sorted_wrt (\<lambda>p q. flt (voltage q) (voltage p))
     (take (unat (point_count (table_header
        (mk_table [(Fin 100, Fin 0), (Fin 50, Fin 10), (Fin 0, Fin 20)]))))
        (table_points (mk_table [(Fin 100, Fin 0), (Fin 50, Fin 10), (Fin 0, Fin 20)]))) \<and>
   fge (Fin 170)
     (voltage (table_points (mk_table [(Fin 100, Fin 0), (Fin 50, Fin 10), (Fin 0, Fin 20)]) ! 0)) \<and>
   APP_Temp_TableLookup (mk_table [(Fin 100, Fin 0), (Fin 50, Fin 10), (Fin 0, Fin 20)])
     (Fin 170) = Fin 0 \<and>
   fle (Fin (- 3))
     (voltage (table_points (mk_table [(Fin 100, Fin 0), (Fin 50, Fin 10), (Fin 0, Fin 20)]) !
        (unat (point_count (table_header
           (mk_table [(Fin 100, Fin 0), (Fin 50, Fin 10), (Fin 0, Fin 20)]))) - 1))) \<and>
   APP_Temp_TableLookup (mk_table [(Fin 100, Fin 0), (Fin 50, Fin 10), (Fin 0, Fin 20)])
     (Fin (- 3)) = Fin 20 \<and>
   flt (Fin 75)
     (voltage (table_points (mk_table [(Fin 100, Fin 0), (Fin 50, Fin 10), (Fin 0, Fin 20)]) ! 0)) \<and>
   flt (voltage (table_points (mk_table [(Fin 100, Fin 0), (Fin 50, Fin 10), (Fin 0, Fin 20)]) !
          (unat (point_count (table_header
             (mk_table [(Fin 100, Fin 0), (Fin 50, Fin 10), (Fin 0, Fin 20)]))) - 1)))
       (Fin 75) \<and>
   (\<exists>i. i + 1 < unat (point_count (table_header
                (mk_table [(Fin 100, Fin 0), (Fin 50, Fin 10), (Fin 0, Fin 20)]))) \<and>
        fle (Fin 75)
          (voltage (table_points
             (mk_table [(Fin 100, Fin 0), (Fin 50, Fin 10), (Fin 0, Fin 20)]) ! i)) \<and>
        flt (voltage (table_points
               (mk_table [(Fin 100, Fin 0), (Fin 50, Fin 10), (Fin 0, Fin 20)]) ! (i + 1)))
            (Fin 75) \<and>
        APP_Temp_TableLookup (mk_table [(Fin 100, Fin 0), (Fin 50, Fin 10), (Fin 0, Fin 20)])
            (Fin 75) =
          fadd (temperature (table_points
                  (mk_table [(Fin 100, Fin 0), (Fin 50, Fin 10), (Fin 0, Fin 20)]) ! i))
            (fdiv (fmul (fsub (Fin 75) (voltage (table_points
                           (mk_table [(Fin 100, Fin 0), (Fin 50, Fin 10), (Fin 0, Fin 20)]) ! i)))
                        (fsub (temperature (table_points
                                 (mk_table [(Fin 100, Fin 0), (Fin 50, Fin 10), (Fin 0, Fin 20)])
                                   ! (i + 1)))
                              (temperature (table_points
                                 (mk_table [(Fin 100, Fin 0), (Fin 50, Fin 10), (Fin 0, Fin 20)])
                                   ! i))))
                  (fsub (voltage (table_points
                           (mk_table [(Fin 100, Fin 0), (Fin 50, Fin 10), (Fin 0, Fin 20)])
                             ! (i + 1)))
                        (voltage (table_points
                           (mk_table [(Fin 100, Fin 0), (Fin 50, Fin 10), (Fin 0, Fin 20)])
                             ! i))))) \<and>
   APP_Temp_TableLookup (mk_table [(Fin 100, Fin 0), (Fin 50, Fin 10), (Fin 0, Fin 20)]) NaN
     = NaN \<and>
   f32_rep (75 - 100) \<and> f32_rep (10 - 0) \<and> f32_rep ((75 - 100) * (10 - 0)) \<and>
   f32_rep (50 - 100) \<and> f32_rep ((75 - 100) * (10 - 0) / (50 - 100)) \<and>
   f32_rep (0 + (75 - 100) * (10 - 0) / (50 - 100)) \<and>
   is_finite (fadd (Fin 0) (fdiv (fmul (fsub (Fin 75) (Fin 100)) (fsub (Fin 10) (Fin 0)))
                                 (fsub (Fin 50) (Fin 100)))) \<and>
   fval (fadd (Fin 0) (fdiv (fmul (fsub (Fin 75) (Fin 100)) (fsub (Fin 10) (Fin 0)))
                            (fsub (Fin 50) (Fin 100)))) = 5 \<and>
   f32_nearest (1 - 3) = - 2 \<and> f32_nearest (1 - 0) = 1 \<and> f32_nearest (0 - 3) = - 3 \<and>
   f32_nearest (- 2 * 1) = - 2 \<and> f32_nearest (- 2 / - 3) = 11184811 / 16777216 \<and>
   f32_nearest (0 + 11184811 / 16777216) = 11184811 / 16777216 \<and>
   fval (fadd (Fin 0) (fdiv (fmul (fsub (Fin 1) (Fin 3)) (fsub (Fin 1) (Fin 0)))
                            (fsub (Fin 0) (Fin 3)))) = 11184811 / 16777216"
proof -
  let ?E = "\<lparr>table_header = \<lparr>table_magic = 0xFFFFFFFF, point_count = 0xFFFF,
                               table_reserved = 0xFFFF\<rparr>,
             table_points = [] :: float TempTablePoint_t list\<rparr>"
  let ?T = "mk_table [(Fin 100, Fin 0), (Fin 50, Fin 10), (Fin 0, Fin 20)]"
  have e: "APP_Temp_TableVerify ?E \<noteq> 0"
    by (simp add: APP_Temp_TableVerify_def TEMP_TABLE_MAGIC_def)
  have a: "APP_Temp_TableLookup ?E (Fin 1500) = Fin 0"
    using e C3_table_lookup [of ?E "Fin 1500"] by blast
  have ok: "APP_Temp_TableVerify ?T = 0" by (simp add: table3)
  have len: "unat (point_count (table_header ?T)) \<le> length (table_points ?T)"
    by (simp add: table3)
  have desc: "sorted_wrt (\<lambda>p q. flt (voltage q) (voltage p))
     (take (unat (point_count (table_header ?T))) (table_points ?T))"
    by (simp add: table3 cmp_eval)
  have hb: "fge (Fin 170) (voltage (table_points ?T ! 0))"
    by (simp add: table3 cmp_eval)
  have b: "APP_Temp_TableLookup ?T (Fin 170) = Fin 0"
    using ok hb C3_table_lookup [of ?T "Fin 170"] by (simp add: table3)
  have hc: "fle (Fin (- 3))
     (voltage (table_points ?T ! (unat (point_count (table_header ?T)) - 1)))"
    by (simp add: table3 cmp_eval)
  have c: "APP_Temp_TableLookup ?T (Fin (- 3)) = Fin 20"
    using ok len desc hc C3_table_lookup [of ?T "Fin (- 3)"] by (simp add: table3)
  have hd: "flt (Fin 75) (voltage (table_points ?T ! 0)) \<and>
     flt (voltage (table_points ?T ! (unat (point_count (table_header ?T)) - 1))) (Fin 75)"
    by (simp add: table3 cmp_eval)
  have d: "\<exists>i. i + 1 < unat (point_count (table_header ?T)) \<and>
        fle (Fin 75) (voltage (table_points ?T ! i)) \<and>
        flt (voltage (table_points ?T ! (i + 1))) (Fin 75) \<and>
        APP_Temp_TableLookup ?T (Fin 75) =
          fadd (temperature (table_points ?T ! i))
            (fdiv (fmul (fsub (Fin 75) (voltage (table_points ?T ! i)))
                        (fsub (temperature (table_points ?T ! (i + 1)))
                              (temperature (table_points ?T ! i))))
                  (fsub (voltage (table_points ?T ! (i + 1)))
                        (voltage (table_points ?T ! i))))"
    using ok len desc hd C3_table_lookup [of ?T "Fin 75"] by blast
  have n: "APP_Temp_TableLookup ?T NaN = NaN"
    using ok C3_table_lookup [of ?T] by blast
  have hx: "f32_rep (75 - 100) \<and> f32_rep (10 - 0) \<and> f32_rep ((75 - 100) * (10 - 0)) \<and>
     f32_rep (50 - 100) \<and> f32_rep ((75 - 100) * (10 - 0) / (50 - 100)) \<and>
     f32_rep (0 + (75 - 100) * (10 - 0) / (50 - 100))"
    using rep_small by simp
  have x: "is_finite (fadd (Fin 0) (fdiv (fmul (fsub (Fin 75) (Fin 100)) (fsub (Fin 10) (Fin 0)))
                                 (fsub (Fin 50) (Fin 100)))) \<and>
     fval (fadd (Fin 0) (fdiv (fmul (fsub (Fin 75) (Fin 100)) (fsub (Fin 10) (Fin 0)))
                            (fsub (Fin 50) (Fin 100)))) = 5"
    using hx C3_table_lookup [where w = "Fin 75" and ?v0.0 = "Fin 100" and ?t0.0 = "Fin 0"
        and ?v1.0 = "Fin 50" and ?t1.0 = "Fin 10"]
    by simp
  have hr: "f32_nearest (1 - 3) = - 2 \<and> f32_nearest (1 - 0) = 1 \<and> f32_nearest (0 - 3) = - 3 \<and>
     f32_nearest (- 2 * 1) = - 2 \<and> f32_nearest (- 2 / - 3) = 11184811 / 16777216 \<and>
     f32_nearest (0 + 11184811 / 16777216) = 11184811 / 16777216"
    using near_thirds by simp
  have rr: "fval (fadd (Fin 0) (fdiv (fmul (fsub (Fin 1) (Fin 3)) (fsub (Fin 1) (Fin 0)))
                            (fsub (Fin 0) (Fin 3)))) = 11184811 / 16777216"
    using hr C3_table_lookup [where w = "Fin 1" and ?v0.0 = "Fin 3" and ?t0.0 = "Fin 0"
        and ?v1.0 = "Fin 0" and ?t1.0 = "Fin 1" and x = "- 2" and k = 1 and d = "- 3"
        and p = "- 2" and q = "11184811 / 16777216" and r = "11184811 / 16777216"]
    by (simp add: FLT_MAX_def)
  show ?thesis
    using e a ok len desc hb b hc c hd d n hx x hr rr by blast
qed

lemma c3_ops:
  "fsub (Fin (- (2 ^ 126))) (Fin (3 * 2 ^ 126)) = NInf"
  "fsub (Fin (2 ^ 126)) (Fin (3 * 2 ^ 126)) = Fin (- (2 ^ 127))"
  "fsub (Fin 1) (Fin 0) = Fin 1"
  "fmul NInf (Fin 1) = NInf"
  "fmul (Fin (- (2 ^ 127))) (Fin 1) = Fin (- (2 ^ 127))"
  "fsub (Fin (- (3 * 2 ^ 126))) (Fin (3 * 2 ^ 126)) = NInf"
  "fdiv NInf NInf = NaN"
  "fdiv (Fin (- (2 ^ 127))) NInf = Fin 0"
  "fadd (Fin 0) NaN = NaN"
  "fadd (Fin 0) (Fin 0) = Fin 0"
  by (simp_all add: flt_eval)

lemma c3_inputs:
  "is_f32 (Fin (3 * 2 ^ 126))" "is_f32 (Fin (- (3 * 2 ^ 126)))" "is_f32 (Fin (2 ^ 126))"
  "is_f32 (Fin (- (2 ^ 126)))" "is_f32 (Fin 0)" "is_f32 (Fin 1)"
  by (simp_all add: f32_rep_def flt_eval)

lemma c3_lookups:
  "APP_Temp_TableLookup (mk_table [(Fin (3 * 2 ^ 126), Fin 0), (Fin (- (3 * 2 ^ 126)), Fin 1)])
     (Fin (- (2 ^ 126))) =
   interpolate (Fin (- (2 ^ 126))) (Fin (3 * 2 ^ 126)) (Fin 0) (Fin (- (3 * 2 ^ 126))) (Fin 1)"
  "APP_Temp_TableLookup (mk_table [(Fin (3 * 2 ^ 126), Fin 0), (Fin (- (3 * 2 ^ 126)), Fin 1)])
     (Fin (2 ^ 126)) =
   interpolate (Fin (2 ^ 126)) (Fin (3 * 2 ^ 126)) (Fin 0) (Fin (- (3 * 2 ^ 126))) (Fin 1)"
  by (simp_all add: tbl_eval cmp_eval)

text \<open>
  Claim C3 as stated fails where an operation overflows. In the valid, descending table
  \<open>[(3 \<times> 2\<^sup>1\<^sup>2\<^sup>6, 0), (-3 \<times> 2\<^sup>1\<^sup>2\<^sup>6, 1)]\<close> of binary32 numbers (about \<open>\<plusminus>2.6 \<times> 10\<^sup>3\<^sup>8\<close>) the
  interior voltages \<open>2\<^sup>1\<^sup>2\<^sup>6\<close> and \<open>-2\<^sup>1\<^sup>2\<^sup>6\<close> have the linear interpolations \<open>1/3\<close> and \<open>2/3\<close>.
  The code returns 0 and NaN: \<open>v1 - v0\<close> overflows to \<open>-\<infinity>\<close>, so the first quotient is 0;
  for the second voltage \<open>v - v0\<close> overflows as well, and \<open>\<infinity> / \<infinity>\<close> is NaN.
\<close>

theorem C3_counterexample:
  "APP_Temp_TableVerify
     (mk_table [(Fin (3 * 2 ^ 126), Fin 0), (Fin (- (3 * 2 ^ 126)), Fin 1)]) = 0 \<and>
   sorted_wrt (\<lambda>p q. flt (voltage q) (voltage p))
     (table_points (mk_table [(Fin (3 * 2 ^ 126), Fin 0), (Fin (- (3 * 2 ^ 126)), Fin 1)])) \<and>
   is_f32 (Fin (3 * 2 ^ 126)) \<and> is_f32 (Fin (- (3 * 2 ^ 126))) \<and> is_f32 (Fin 0) \<and>
   is_f32 (Fin 1) \<and> is_f32 (Fin (2 ^ 126)) \<and> is_f32 (Fin (- (2 ^ 126))) \<and>
   flt (Fin (2 ^ 126)) (Fin (3 * 2 ^ 126)) \<and> flt (Fin (- (3 * 2 ^ 126))) (Fin (2 ^ 126)) \<and>
   flt (Fin (- (2 ^ 126))) (Fin (3 * 2 ^ 126)) \<and>
   flt (Fin (- (3 * 2 ^ 126))) (Fin (- (2 ^ 126))) \<and>
   (0 + (2 ^ 126 - 3 * 2 ^ 126) * (1 - 0) / (- (3 * 2 ^ 126) - 3 * 2 ^ 126) :: real) = 1 / 3 \<and>
   (0 + (- (2 ^ 126) - 3 * 2 ^ 126) * (1 - 0) / (- (3 * 2 ^ 126) - 3 * 2 ^ 126) :: real) = 2 / 3 \<and>
   APP_Temp_TableLookup (mk_table [(Fin (3 * 2 ^ 126), Fin 0), (Fin (- (3 * 2 ^ 126)), Fin 1)])
     (Fin (2 ^ 126)) = Fin 0 \<and>
   APP_Temp_TableLookup (mk_table [(Fin (3 * 2 ^ 126), Fin 0), (Fin (- (3 * 2 ^ 126)), Fin 1)])
     (Fin (- (2 ^ 126))) = NaN"
proof -
  let ?T = "mk_table [(Fin (3 * 2 ^ 126), Fin 0), (Fin (- (3 * 2 ^ 126)), Fin 1)]"
  have v: "APP_Temp_TableVerify ?T = 0"
    by (simp add: mk_table_def APP_Temp_TableVerify_def TEMP_TABLE_MAGIC_def
        TEMP_TABLE_MAX_POINTS_def)
  have s: "sorted_wrt (\<lambda>p q. flt (voltage q) (voltage p)) (table_points ?T)"
    by (simp add: mk_table_def cmp_eval)
  have f: "is_f32 (Fin (3 * 2 ^ 126)) \<and> is_f32 (Fin (- (3 * 2 ^ 126))) \<and> is_f32 (Fin 0) \<and>
     is_f32 (Fin 1) \<and> is_f32 (Fin (2 ^ 126)) \<and> is_f32 (Fin (- (2 ^ 126)))"
    using c3_inputs by blast
  have o: "flt (Fin (2 ^ 126)) (Fin (3 * 2 ^ 126)) \<and> flt (Fin (- (3 * 2 ^ 126))) (Fin (2 ^ 126)) \<and>
     flt (Fin (- (2 ^ 126))) (Fin (3 * 2 ^ 126)) \<and>
     flt (Fin (- (3 * 2 ^ 126))) (Fin (- (2 ^ 126)))"
    by (simp add: cmp_eval)
  have r: "(0 + (2 ^ 126 - 3 * 2 ^ 126) * (1 - 0) / (- (3 * 2 ^ 126) - 3 * 2 ^ 126) :: real) = 1 / 3"
    "(0 + (- (2 ^ 126) - 3 * 2 ^ 126) * (1 - 0) / (- (3 * 2 ^ 126) - 3 * 2 ^ 126) :: real) = 2 / 3"
    by simp_all
  have i: "interpolate (Fin (2 ^ 126)) (Fin (3 * 2 ^ 126)) (Fin 0) (Fin (- (3 * 2 ^ 126))) (Fin 1)
             = Fin 0"
    "interpolate (Fin (- (2 ^ 126))) (Fin (3 * 2 ^ 126)) (Fin 0) (Fin (- (3 * 2 ^ 126))) (Fin 1)
             = NaN"
    by (simp_all only: interpolate_def c3_ops)
  have l: "APP_Temp_TableLookup ?T (Fin (2 ^ 126)) = Fin 0"
    "APP_Temp_TableLookup ?T (Fin (- (2 ^ 126))) = NaN"
    by (simp_all only: c3_lookups i)
  show ?thesis
    using v s f o r l by blast
qed

section \<open>Monotonicity of the lookup\<close>

lemma fnum_round: "fnum (f32_round s x)"
  by (simp add: fnum_def f32_round_not_NaN f32_round_bounded)

lemma fnum_finite_bounded: "is_finite a \<Longrightarrow> \<bar>fval a\<bar> \<le> FLT_MAX \<Longrightarrow> fnum a"
  by (cases a) (simp_all add: fnum_def)

lemma fnum_inf: "fnum PInf" "fnum NInf"
  by (simp_all add: fnum_def FLT_MAX_def)

lemma fext_round_le: "fext (f32_round s x) \<le> 2 ^ 128"
  using f32_round_bounded by (rule fext_le)

lemma fnum_fle: "fnum a \<Longrightarrow> fnum b \<Longrightarrow> fle a b \<longleftrightarrow> fext a \<le> fext b"
  by (simp add: fnum_def fle_fext)

lemma fnum_cases:
  assumes "fnum a"
  obtains "a = PInf" | "a = NInf" | "is_finite a" "\<bar>fval a\<bar> \<le> FLT_MAX"
  using assms by (cases a) (simp_all add: fnum_def)

lemma fext_round_zero: "fext (f32_round s 0) = 0"
  by (simp add: f32_round_def f32_nearest_zero FLT_MAX_def)

lemma fext_round_nonneg: "0 \<le> x \<Longrightarrow> 0 \<le> fext (f32_round s x)"
  using fext_round_mono [of 0 x s s] by (simp add: fext_round_zero)

lemma fext_round_nonpos: "x \<le> 0 \<Longrightarrow> fext (f32_round s x) \<le> 0"
  using fext_round_mono [of x 0 s s] by (simp add: fext_round_zero)

text \<open>
  A quotient by a negative finite divisor turns the order round; a dividend that has
  overflowed to \<open>-\<infinity>\<close> gives \<open>+\<infinity>\<close>.
\<close>

lemma fdiv_antimono:
  assumes p: "fnum p1" "fnum p2" and le: "fext p2 \<le> fext p1" and np: "fext p1 \<le> 0"
    and d: "is_finite d" "fval d < 0"
  shows "fnum (fdiv p1 d) \<and> fnum (fdiv p2 d) \<and> fext (fdiv p1 d) \<le> fext (fdiv p2 d) \<and>
         0 \<le> fext (fdiv p1 d)"
proof -
  have sd: "fsign d" "\<not> is_zero d" "d \<noteq> NaN" "\<not> is_inf d"
    using d by (cases d; simp)+
  have inf: "fdiv NInf d = PInf" using sd by (simp add: fdiv_def finf_def)
  have fin: "fdiv p d = f32_round (fsign p \<noteq> fsign d) (fval p / fval d)" if "is_finite p" for p
    using that d by (intro fdiv_finite) simp_all
  have p1n: "p1 \<noteq> PInf" using np by auto
  have p2n: "p2 \<noteq> PInf" using np le by auto
  show ?thesis
  proof (cases "p2 = NInf")
    case True
    note p2 = this
    show ?thesis
    proof (cases "p1 = NInf")
      case True
      then show ?thesis using p2 inf by (simp add: fnum_inf)
    next
      case False
      then have f1: "is_finite p1" using p(1) p1n by (auto elim: fnum_cases)
      have "fval p1 \<le> 0" using np f1 by (simp add: fext_finite)
      then have "0 \<le> fval p1 / fval d" using d(2) by (simp add: divide_nonpos_neg)
      then have "0 \<le> fext (fdiv p1 d)" by (simp add: fin [OF f1] fext_round_nonneg)
      moreover have "fext (fdiv p1 d) \<le> 2 ^ 128"
        by (simp only: fin [OF f1] fext_round_le)
      ultimately show ?thesis using p2 inf by (simp add: fnum_inf fin [OF f1] fnum_round)
    qed
  next
    case False
    then have f2: "is_finite p2" and b2: "\<bar>fval p2\<bar> \<le> FLT_MAX"
      using p(2) p2n by (auto elim: fnum_cases)
    have "p1 \<noteq> NInf"
    proof
      assume "p1 = NInf"
      then have "fval p2 \<le> - (2 ^ 128)" using le f2 by (simp add: fext_finite)
      then show False using b2 FLT_MAX_less by simp
    qed
    then have f1: "is_finite p1" using p(1) p1n by (auto elim: fnum_cases)
    have l: "fval p2 \<le> fval p1" "fval p1 \<le> 0" using le np f1 f2 by (simp_all add: fext_finite)
    have "fval p1 / fval d \<le> fval p2 / fval d"
      using l(1) d(2) by (simp add: divide_right_mono_neg)
    then have "fext (fdiv p1 d) \<le> fext (fdiv p2 d)"
      by (simp add: fin [OF f1] fin [OF f2] fext_round_mono)
    moreover have "0 \<le> fval p1 / fval d" using l(2) d(2) by (simp add: divide_nonpos_neg)
    then have "0 \<le> fext (fdiv p1 d)" by (simp add: fin [OF f1] fext_round_nonneg)
    ultimately show ?thesis by (simp add: fin [OF f1] fin [OF f2] fnum_round)
  qed
qed

text \<open>Adding a larger non-negative term to a finite number gives a larger sum.\<close>

lemma fadd_mono:
  assumes q: "fnum q1" "fnum q2" and le: "fext q1 \<le> fext q2" and nn: "0 \<le> fext q1"
    and t: "is_finite t"
  shows "fnum (fadd t q1) \<and> fnum (fadd t q2) \<and> fext (fadd t q1) \<le> fext (fadd t q2)"
proof -
  have tn: "t \<noteq> NaN" "\<not> is_inf t" using t by (cases t; simp)+
  have inf: "fadd t PInf = PInf" using tn by (simp add: fadd_def)
  have fin: "fadd t q = f32_round (t = NegZero \<and> q = NegZero) (fval t + fval q)"
    if "is_finite q" for q
    using that t by (intro fadd_finite)
  have q1n: "q1 \<noteq> NInf" using nn by auto
  have q2n: "q2 \<noteq> NInf" using nn le by auto
  show ?thesis
  proof (cases "q2 = PInf")
    case True
    note q2 = this
    show ?thesis
    proof (cases "q1 = PInf")
      case True
      then show ?thesis using q2 inf by (simp add: fnum_inf)
    next
      case False
      then have f1: "is_finite q1" using q(1) q1n by (auto elim: fnum_cases)
      have "fext (fadd t q1) \<le> 2 ^ 128"
        by (simp only: fin [OF f1] fext_round_le)
      then show ?thesis using q2 inf by (simp add: fnum_inf fin [OF f1] fnum_round)
    qed
  next
    case False
    then have f2: "is_finite q2" and b2: "\<bar>fval q2\<bar> \<le> FLT_MAX"
      using q(2) q2n by (auto elim: fnum_cases)
    have "q1 \<noteq> PInf"
    proof
      assume "q1 = PInf"
      then have "2 ^ 128 \<le> fval q2" using le f2 by (simp add: fext_finite)
      then show False using b2 FLT_MAX_less by simp
    qed
    then have f1: "is_finite q1" using q(1) q1n by (auto elim: fnum_cases)
    have "fval q1 \<le> fval q2" using le f1 f2 by (simp add: fext_finite)
    then have "fext (fadd t q1) \<le> fext (fadd t q2)"
      by (simp add: fin [OF f1] fin [OF f2] fext_round_mono)
    then show ?thesis by (simp add: fin [OF f1] fin [OF f2] fnum_round)
  qed
qed

text \<open>Adding a non-negative term to a binary32 number does not give less.\<close>

lemma fadd_ge:
  assumes q: "fnum q" and nn: "0 \<le> fext q" and t: "is_finite t" "is_f32 t"
  shows "fnum (fadd t q) \<and> fval t \<le> fext (fadd t q)"
proof -
  have tn: "t \<noteq> NaN" "\<not> is_inf t" using t by (cases t; simp)+
  have tb: "\<bar>fval t\<bar> \<le> FLT_MAX" using t(2) by (rule is_f32_bounded)
  have qn: "q \<noteq> NInf" using nn by auto
  show ?thesis
  proof (cases "q = PInf")
    case True
    have "fval t \<le> 2 ^ 128" using tb FLT_MAX_less by simp
    then show ?thesis using True tn by (simp add: fadd_def fnum_inf)
  next
    case False
    then have f: "is_finite q" using q qn by (auto elim: fnum_cases)
    have r: "fadd t q = f32_round (t = NegZero \<and> q = NegZero) (fval t + fval q)"
      using t(1) f by (rule fadd_finite)
    have "0 \<le> fval q" using nn f by (simp add: fext_finite)
    then have "fext (f32_round False (fval t)) \<le> fext (fadd t q)"
      unfolding r by (intro fext_round_mono) simp
    moreover have "\<not> FLT_MAX < fval t" "\<not> fval t < - FLT_MAX" using tb by linarith+
    then have "fext (f32_round False (fval t)) = fval t"
      using t(2) by (simp add: fext_round f32_nearest_fval)
    ultimately show ?thesis by (simp add: r fnum_round)
  qed
qed

text \<open>
  One table segment, from \<open>(va, ta)\<close> down to \<open>(vb, tb)\<close>, whose two differences do not
  overflow: what the operations of the return expression give for a voltage in it.
\<close>

lemma segment_product:
  assumes f: "is_f32 va" "is_f32 vb"
    and d: "is_finite (fsub vb va)" and k: "is_finite (fsub tb ta)"
    and s: "flt vb va" and t: "fle ta tb"
    and lo: "fle vb v" and hi: "fle v va"
  shows "is_finite v \<and> fnum (fmul (fsub v va) (fsub tb ta)) \<and>
         fext (fmul (fsub v va) (fsub tb ta)) \<le> 0 \<and>
         is_finite (fsub v va) \<and> fval (fsub v va) = f32_nearest (fval v - fval va) \<and>
         0 \<le> fval (fsub tb ta) \<and> fval (fsub vb va) < 0"
proof -
  have fv: "is_finite vb" "is_finite va" using d fsub_finite_D by blast+
  have ft: "is_finite tb" "is_finite ta" using k fsub_finite_D by blast+
  have v: "is_finite v" using lo hi fv by (rule between_finite)
  have o: "fval vb < fval va" "fval vb \<le> fval v" "fval v \<le> fval va" "fval ta \<le> fval tb"
    using s t lo hi fv ft v by (simp_all add: flt_finite fle_finite)
  have D: "fsub vb va = f32_round (vb = NegZero \<and> fneg va = NegZero) (fval vb - fval va)"
    using fv by (rule fsub_finite)
  have Db: "\<bar>f32_nearest (fval vb - fval va)\<bar> \<le> FLT_MAX"
    using d unfolding D by (simp add: f32_round_is_finite)
  have Dv: "fval (fsub vb va) = f32_nearest (fval vb - fval va)"
    unfolding D using Db by (rule f32_round_finite)
  have "f32_nearest (fval vb - fval va) \<le> f32_nearest 0"
    using o(1) by (intro f32_nearest_mono) simp
  moreover have "f32_nearest (fval vb - fval va) \<noteq> 0"
    using f o(1) by (intro f32_sub_nonzero) (simp_all add: f32_nearest_fval)
  ultimately have Dn: "f32_nearest (fval vb - fval va) < 0" by (simp add: f32_nearest_zero)
  have K: "fsub tb ta = f32_round (tb = NegZero \<and> fneg ta = NegZero) (fval tb - fval ta)"
    using ft by (rule fsub_finite)
  have Kb: "\<bar>f32_nearest (fval tb - fval ta)\<bar> \<le> FLT_MAX"
    using k unfolding K by (simp add: f32_round_is_finite)
  have Kv: "fval (fsub tb ta) = f32_nearest (fval tb - fval ta)"
    unfolding K using Kb by (rule f32_round_finite)
  have "f32_nearest 0 \<le> f32_nearest (fval tb - fval ta)"
    using o(4) by (intro f32_nearest_mono) simp
  then have Kn: "0 \<le> f32_nearest (fval tb - fval ta)" by (simp add: f32_nearest_zero)
  have X: "fsub v va = f32_round (v = NegZero \<and> fneg va = NegZero) (fval v - fval va)"
    using v fv(2) by (rule fsub_finite)
  have "f32_nearest (fval vb - fval va) \<le> f32_nearest (fval v - fval va)"
    using o(2) by (intro f32_nearest_mono) simp
  moreover have "f32_nearest (fval v - fval va) \<le> f32_nearest 0"
    using o(3) by (intro f32_nearest_mono) simp
  ultimately have Xr: "f32_nearest (fval vb - fval va) \<le> f32_nearest (fval v - fval va)"
    "f32_nearest (fval v - fval va) \<le> 0"
    by (simp_all add: f32_nearest_zero)
  then have Xb: "\<bar>f32_nearest (fval v - fval va)\<bar> \<le> FLT_MAX" using Db Dn by simp
  have Xf: "is_finite (fsub v va)" unfolding X using Xb by (rule f32_round_finite)
  have Xv: "fval (fsub v va) = f32_nearest (fval v - fval va)"
    unfolding X using Xb by (rule f32_round_finite)
  have P: "fmul (fsub v va) (fsub tb ta) =
           f32_round (fsign (fsub v va) \<noteq> fsign (fsub tb ta)) (fval (fsub v va) * fval (fsub tb ta))"
    using Xf k by (rule fmul_finite)
  have "fval (fsub v va) * fval (fsub tb ta) \<le> 0"
    using Xr(2) Kn by (simp add: Xv Kv mult_nonpos_nonneg)
  then have "fext (fmul (fsub v va) (fsub tb ta)) \<le> 0"
    unfolding P by (rule fext_round_nonpos)
  then show ?thesis
    using v Xf Xv Kn Dn by (simp add: P fnum_round Kv Dv)
qed

text \<open>
  Within one segment the interpolation does not increase with the voltage: every
  operation is monotone, and rounding and overflow keep the order.
\<close>

lemma interpolate_antimono:
  assumes f: "is_f32 va" "is_f32 vb"
    and d: "is_finite (fsub vb va)" and k: "is_finite (fsub tb ta)"
    and s: "flt vb va" and t: "fle ta tb"
    and lo: "fle vb v2" and v: "fle v2 v1" and hi: "fle v1 va"
  shows "fle (interpolate v1 va ta vb tb) (interpolate v2 va ta vb tb)"
proof -
  have lo1: "fle vb v1" using lo v by (rule fle_trans)
  have hi2: "fle v2 va" using v hi by (rule fle_trans)
  note s1 = segment_product [OF f d k s t lo1 hi]
  note s2 = segment_product [OF f d k s t lo hi2]
  have ft: "is_finite ta" using k fsub_finite_D by blast
  have "fval v2 \<le> fval v1" using v s1 s2 by (simp add: fle_finite)
  then have "fval (fsub v2 va) \<le> fval (fsub v1 va)"
    using s1 s2 by (simp add: f32_nearest_mono)
  then have "fval (fsub v2 va) * fval (fsub tb ta) \<le> fval (fsub v1 va) * fval (fsub tb ta)"
    using s1 by (intro mult_right_mono) simp_all
  then have p: "fext (fmul (fsub v2 va) (fsub tb ta)) \<le> fext (fmul (fsub v1 va) (fsub tb ta))"
    using s1 s2 k by (simp add: fmul_finite fext_round_mono)
  have q: "fnum (fdiv (fmul (fsub v1 va) (fsub tb ta)) (fsub vb va)) \<and>
           fnum (fdiv (fmul (fsub v2 va) (fsub tb ta)) (fsub vb va)) \<and>
           fext (fdiv (fmul (fsub v1 va) (fsub tb ta)) (fsub vb va))
             \<le> fext (fdiv (fmul (fsub v2 va) (fsub tb ta)) (fsub vb va)) \<and>
           0 \<le> fext (fdiv (fmul (fsub v1 va) (fsub tb ta)) (fsub vb va))"
    using s1 s2 p d by (intro fdiv_antimono) simp_all
  have "fnum (interpolate v1 va ta vb tb) \<and> fnum (interpolate v2 va ta vb tb) \<and>
        fext (interpolate v1 va ta vb tb) \<le> fext (interpolate v2 va ta vb tb)"
    unfolding interpolate_def using q ft by (intro fadd_mono) simp_all
  then show ?thesis by (simp add: fnum_fle)
qed

lemma interpolate_ge_first:
  assumes f: "is_f32 va" "is_f32 vb" "is_f32 ta"
    and d: "is_finite (fsub vb va)" and k: "is_finite (fsub tb ta)"
    and s: "flt vb va" and t: "fle ta tb"
    and lo: "fle vb v" and hi: "fle v va"
  shows "fle ta (interpolate v va ta vb tb)"
proof -
  note s1 = segment_product [OF f(1,2) d k s t lo hi]
  have ft: "is_finite ta" using k fsub_finite_D by blast
  have p: "fext (fmul (fsub v va) (fsub tb ta)) \<le> fext (fmul (fsub v va) (fsub tb ta))" by simp
  have q: "fnum (fdiv (fmul (fsub v va) (fsub tb ta)) (fsub vb va)) \<and>
           0 \<le> fext (fdiv (fmul (fsub v va) (fsub tb ta)) (fsub vb va))"
    using fdiv_antimono [of "fmul (fsub v va) (fsub tb ta)" "fmul (fsub v va) (fsub tb ta)"
        "fsub vb va"] s1 d by simp
  have r: "fnum (interpolate v va ta vb tb) \<and> fval ta \<le> fext (interpolate v va ta vb tb)"
    unfolding interpolate_def using q ft f(3) by (intro fadd_ge) simp_all
  have "fnum ta" using ft f(3) by (simp add: fnum_finite_bounded is_f32_bounded)
  then show ?thesis using r ft by (simp add: fnum_fle fext_finite)
qed

lemma not_flt_fge: "a \<noteq> NaN \<Longrightarrow> b \<noteq> NaN \<Longrightarrow> \<not> flt a b \<Longrightarrow> fge a b"
  by (cases a; cases b) (auto simp: fge_def fle_def flt_def feq_def)

lemma lookup_in_segment:
  fixes tbl :: "float temp_table"
  assumes ok: "APP_Temp_TableVerify tbl = 0"
    and len: "unat (point_count (table_header tbl)) \<le> length (table_points tbl)"
    and desc: "sorted_wrt (\<lambda>p q. flt (voltage q) (voltage p))
                 (take (unat (point_count (table_header tbl))) (table_points tbl))"
    and i: "i + 1 < unat (point_count (table_header tbl))"
    and hi: "fle v (voltage (table_points tbl ! i))"
    and lo: "flt (voltage (table_points tbl ! (i + 1))) v"
    and nf: "flt v (voltage (table_points tbl ! 0))"
  shows "APP_Temp_TableLookup tbl v =
           interpolate v (voltage (table_points tbl ! i)) (temperature (table_points tbl ! i))
             (voltage (table_points tbl ! (i + 1))) (temperature (table_points tbl ! (i + 1)))"
proof -
  define n where "n = unat (point_count (table_header tbl))"
  define pts where "pts = table_points tbl"
  note d = desc [folded n_def pts_def] and l = len [folded n_def pts_def]
  have n2: "2 \<le> n" using i by (simp add: n_def)
  have "fle (voltage (pts ! (n - 1))) (voltage (pts ! (i + 1)))"
    using i n2 by (intro descending_nth_le [OF d l]) (simp_all add: n_def)
  then have "flt (voltage (pts ! (n - 1))) v" using lo unfolding pts_def by (rule fle_flt_trans)
  then obtain j where j: "j + 1 < n" "fle v (voltage (pts ! j))" "flt (voltage (pts ! (j + 1))) v"
    and r: "APP_Temp_TableLookup tbl v =
             interpolate v (voltage (pts ! j)) (temperature (pts ! j))
               (voltage (pts ! (j + 1))) (temperature (pts ! (j + 1)))"
    using lookup_interior [OF ok len desc nf] unfolding n_def pts_def by blast
  have "j = i"
  proof (rule ccontr)
    assume "j \<noteq> i"
    then consider "j + 1 \<le> i" | "i + 1 \<le> j" by linarith
    then show False
    proof cases
      case 1
      have "fle (voltage (pts ! i)) (voltage (pts ! (j + 1)))"
        using 1 i n2 by (intro descending_nth_le [OF d l]) (simp_all add: n_def)
      then have "fle v (voltage (pts ! (j + 1)))"
        using hi unfolding pts_def [symmetric] by (rule fle_trans [rotated])
      then have "flt (voltage (pts ! (j + 1))) (voltage (pts ! (j + 1)))"
        using j(3) by (rule flt_fle_trans [rotated])
      then show False by (simp add: flt_irrefl)
    next
      case 2
      have "fle (voltage (pts ! j)) (voltage (pts ! (i + 1)))"
        using 2 j(1) n2 by (intro descending_nth_le [OF d l]) simp_all
      then have "flt (voltage (pts ! j)) v"
        using lo unfolding pts_def [symmetric] by (rule fle_flt_trans)
      then have "flt (voltage (pts ! j)) (voltage (pts ! j))"
        using j(2) by (rule flt_fle_trans)
      then show False by (simp add: flt_irrefl)
    qed
  qed
  then show ?thesis using r by (simp add: pts_def)
qed

text \<open>
  Claim C9, as amended. For every valid calibration table of binary32 numbers whose voltage
  column is strictly descending and whose temperature column does not decrease, and for
  every two voltages \<open>v1 > v2\<close> that lie in the same table segment (at or below the voltage
  of a point \<open>i\<close> and above the voltage of point \<open>i + 1\<close>) whose voltage difference and
  temperature difference do not overflow, lookup(v1) \<open>\<le>\<close> lookup(v2).
\<close>

theorem C9_lookup_monotone_in_segment:
  fixes tbl :: "float temp_table"
  assumes ok: "APP_Temp_TableVerify tbl = 0"
    and len: "unat (point_count (table_header tbl)) \<le> length (table_points tbl)"
    and desc: "sorted_wrt (\<lambda>p q. flt (voltage q) (voltage p))
                 (take (unat (point_count (table_header tbl))) (table_points tbl))"
    and asc: "sorted_wrt (\<lambda>p q. fle (temperature p) (temperature q))
                 (take (unat (point_count (table_header tbl))) (table_points tbl))"
    and wf: "\<forall>p \<in> set (take (unat (point_count (table_header tbl))) (table_points tbl)).
                 is_f32 (voltage p) \<and> is_f32 (temperature p)"
    and i: "i + 1 < unat (point_count (table_header tbl))"
    and dv: "is_finite (fsub (voltage (table_points tbl ! (i + 1)))
                             (voltage (table_points tbl ! i)))"
    and dt: "is_finite (fsub (temperature (table_points tbl ! (i + 1)))
                             (temperature (table_points tbl ! i)))"
    and hi: "fle v1 (voltage (table_points tbl ! i))"
    and lo: "flt (voltage (table_points tbl ! (i + 1))) v2"
    and v: "flt v2 v1"
  shows "fle (APP_Temp_TableLookup tbl v1) (APP_Temp_TableLookup tbl v2)"
proof -
  define n where "n = unat (point_count (table_header tbl))"
  define pts where "pts = table_points tbl"
  note d = desc [folded n_def pts_def] and l = len [folded n_def pts_def]
  let ?va = "voltage (pts ! i)" and ?ta = "temperature (pts ! i)"
  let ?vb = "voltage (pts ! (i + 1))" and ?tb = "temperature (pts ! (i + 1))"
  have in_n: "i < n" "i + 1 < n" "2 \<le> n" using i by (simp_all add: n_def)
  have s: "flt ?vb ?va" using in_n by (intro descending_nth [OF d l]) simp_all
  have "fle (temperature (take n pts ! i)) (temperature (take n pts ! (i + 1)))"
    using asc [folded n_def pts_def] in_n l
    by (intro sorted_wrt_nth_less [where P = "\<lambda>p q. fle (temperature p) (temperature q)"])
      simp_all
  then have t: "fle ?ta ?tb" using in_n by simp
  have "take n pts ! i \<in> set (take n pts)" using in_n l by (intro nth_mem) simp
  then have fa: "is_f32 ?va" "is_f32 ?ta" using wf [folded n_def pts_def] in_n by auto
  have "take n pts ! (i + 1) \<in> set (take n pts)" using in_n l by (intro nth_mem) simp
  then have fb: "is_f32 ?vb" using wf [folded n_def pts_def] in_n by auto
  note dv' = dv [folded pts_def] and dt' = dt [folded pts_def]
  have v21: "fle v2 v1" using v by (rule flt_fle)
  have lo2: "fle ?vb v2" using lo by (simp add: flt_fle pts_def)
  have hi1: "fle v1 ?va" using hi by (simp add: pts_def)
  have hi2: "fle v2 ?va" using v21 hi1 by (rule fle_trans)
  have first: "fle ?va (voltage (pts ! 0))"
    using in_n by (intro descending_nth_le [OF d l]) simp_all
  have nf2: "flt v2 (voltage (pts ! 0))"
    using v hi1 first by (blast intro: flt_fle_trans)
  have r2: "APP_Temp_TableLookup tbl v2 = interpolate v2 ?va ?ta ?vb ?tb"
    unfolding pts_def
    using hi2 lo nf2 i by (intro lookup_in_segment [OF ok len desc]) (simp_all add: pts_def)
  show ?thesis
  proof (cases "flt v1 (voltage (pts ! 0))")
    case True
    have lo1: "flt ?vb v1" using lo v unfolding pts_def [symmetric] by (blast intro: flt_fle_trans flt_fle)
    have r1: "APP_Temp_TableLookup tbl v1 = interpolate v1 ?va ?ta ?vb ?tb"
      unfolding pts_def
      using hi lo1 True i by (intro lookup_in_segment [OF ok len desc]) (simp_all add: pts_def)
    show ?thesis
      unfolding r1 r2 using fa(1) fb dv' dt' s t lo2 v21 hi1 by (rule interpolate_antimono)
  next
    case False
    have "v1 \<noteq> NaN" using v flt_not_NaN by blast
    moreover have "voltage (pts ! 0) \<noteq> NaN" using first fle_not_NaN by blast
    ultimately have ge: "fge v1 (voltage (pts ! 0))" using False by (rule not_flt_fge)
    have "i = 0"
    proof (rule ccontr)
      assume "i \<noteq> 0"
      then have "flt ?va (voltage (pts ! 0))"
        using in_n by (intro descending_nth [OF d l]) simp_all
      moreover have "fle (voltage (pts ! 0)) ?va"
        using ge hi1 unfolding fge_def by (rule fle_trans)
      ultimately show False using flt_not_fle by blast
    qed
    have "APP_Temp_TableLookup tbl v1 = temperature (pts ! 0)"
      using ok ge by (simp add: lookup_first pts_def)
    then have r1: "APP_Temp_TableLookup tbl v1 = ?ta" using \<open>i = 0\<close> by simp
    have "fle ?ta (interpolate v2 ?va ?ta ?vb ?tb)"
      using fa(1) fb fa(2) dv' dt' s t lo2 hi2 by (rule interpolate_ge_first)
    then show ?thesis by (simp add: r1 r2)
  qed
qed

lemma f32_table3:
  "is_f32 (Fin 100)" "is_f32 (Fin 50)" "is_f32 (Fin 0)" "is_f32 (Fin 10)" "is_f32 (Fin 20)"
  by (simp_all add: f32_rep_def flt_eval)

lemma i3: "fsub (Fin 20) (Fin 10) = Fin 10" "fsub (Fin 0) (Fin 50) = Fin (- 50)"
  by (simp_all add: flt_eval)

theorem C9_lookup_monotone_in_segment_witness:
  "APP_Temp_TableVerify (mk_table [(Fin 100, Fin 0), (Fin 50, Fin 10), (Fin 0, Fin 20)]) = 0 \<and>
   unat (point_count (table_header
       (mk_table [(Fin 100, Fin 0), (Fin 50, Fin 10), (Fin 0, Fin 20)])))
     \<le> length (table_points (mk_table [(Fin 100, Fin 0), (Fin 50, Fin 10), (Fin 0, Fin 20)])) \<and>
   sorted_wrt (\<lambda>p q. flt (voltage q) (voltage p))
     (take (unat (point_count (table_header
        (mk_table [(Fin 100, Fin 0), (Fin 50, Fin 10), (Fin 0, Fin 20)]))))
        (table_points (mk_table [(Fin 100, Fin 0), (Fin 50, Fin 10), (Fin 0, Fin 20)]))) \<and>
   sorted_wrt (\<lambda>p q. fle (temperature p) (temperature q))
     (take (unat (point_count (table_header
        (mk_table [(Fin 100, Fin 0), (Fin 50, Fin 10), (Fin 0, Fin 20)]))))
        (table_points (mk_table [(Fin 100, Fin 0), (Fin 50, Fin 10), (Fin 0, Fin 20)]))) \<and>
   is_f32 (Fin 100) \<and> is_f32 (Fin 50) \<and> is_f32 (Fin 0) \<and> is_f32 (Fin 10) \<and> is_f32 (Fin 20) \<and>
   0 + 1 < unat (point_count (table_header
       (mk_table [(Fin 100, Fin 0), (Fin 50, Fin 10), (Fin 0, Fin 20)]))) \<and>
   is_finite (fsub
     (voltage (table_points (mk_table [(Fin 100, Fin 0), (Fin 50, Fin 10), (Fin 0, Fin 20)])
        ! (0 + 1)))
     (voltage (table_points (mk_table [(Fin 100, Fin 0), (Fin 50, Fin 10), (Fin 0, Fin 20)])
        ! 0))) \<and>
   is_finite (fsub
     (temperature (table_points (mk_table [(Fin 100, Fin 0), (Fin 50, Fin 10), (Fin 0, Fin 20)])
        ! (0 + 1)))
     (temperature (table_points (mk_table [(Fin 100, Fin 0), (Fin 50, Fin 10), (Fin 0, Fin 20)])
        ! 0))) \<and>
   fle (Fin 75)
     (voltage (table_points (mk_table [(Fin 100, Fin 0), (Fin 50, Fin 10), (Fin 0, Fin 20)]) ! 0)) \<and>
   flt (voltage (table_points (mk_table [(Fin 100, Fin 0), (Fin 50, Fin 10), (Fin 0, Fin 20)])
          ! (0 + 1))) (Fin 60) \<and>
   flt (Fin 60) (Fin 75) \<and>
   fle (APP_Temp_TableLookup (mk_table [(Fin 100, Fin 0), (Fin 50, Fin 10), (Fin 0, Fin 20)])
          (Fin 75))
       (APP_Temp_TableLookup (mk_table [(Fin 100, Fin 0), (Fin 50, Fin 10), (Fin 0, Fin 20)])
          (Fin 60)) \<and>
   APP_Temp_TableLookup (mk_table [(Fin 100, Fin 0), (Fin 50, Fin 10), (Fin 0, Fin 20)])
     (Fin 75) = Fin 5 \<and>
   APP_Temp_TableLookup (mk_table [(Fin 100, Fin 0), (Fin 50, Fin 10), (Fin 0, Fin 20)])
     (Fin 60) = Fin 8"
proof -
  let ?T = "mk_table [(Fin 100, Fin 0), (Fin 50, Fin 10), (Fin 0, Fin 20)]"
  have h1: "APP_Temp_TableVerify ?T = 0" by (simp add: table3)
  have h2: "unat (point_count (table_header ?T)) \<le> length (table_points ?T)"
    by (simp add: table3)
  have h3: "sorted_wrt (\<lambda>p q. flt (voltage q) (voltage p))
     (take (unat (point_count (table_header ?T))) (table_points ?T))"
    by (simp add: table3 cmp_eval)
  have h4: "sorted_wrt (\<lambda>p q. fle (temperature p) (temperature q))
     (take (unat (point_count (table_header ?T))) (table_points ?T))"
    by (simp add: table3 cmp_eval)
  have h5: "\<forall>p \<in> set (take (unat (point_count (table_header ?T))) (table_points ?T)).
      is_f32 (voltage p) \<and> is_f32 (temperature p)"
    using f32_table3 by (simp add: table3)
  have h6: "0 + 1 < unat (point_count (table_header ?T))" by (simp add: table3)
  have h7: "is_finite (fsub (voltage (table_points ?T ! (0 + 1)))
                            (voltage (table_points ?T ! 0)))"
    by (simp add: table3 i1)
  have h8: "is_finite (fsub (temperature (table_points ?T ! (0 + 1)))
                            (temperature (table_points ?T ! 0)))"
    by (simp add: table3 i1)
  have h9: "fle (Fin 75) (voltage (table_points ?T ! 0))" by (simp add: table3 cmp_eval)
  have h10: "flt (voltage (table_points ?T ! (0 + 1))) (Fin 60)" by (simp add: table3 cmp_eval)
  have h11: "flt (Fin 60) (Fin 75)" by (simp add: cmp_eval)
  have f: "is_f32 (Fin 100) \<and> is_f32 (Fin 50) \<and> is_f32 (Fin 0) \<and> is_f32 (Fin 10) \<and>
           is_f32 (Fin 20)"
    using f32_table3 by blast
  show ?thesis
    using h1 h2 h3 h4 h6 h7 h8 h9 h10 h11 f lookup_instances(1,4)
      C9_lookup_monotone_in_segment [OF h1 h2 h3 h4 h5 h6 h7 h8 h9 h10 h11]
    by blast
qed

lemma c9_ops:
  "fsub (Fin (8388609 / 8388608)) (Fin 1654) = Fin (- 1653)"
  "fsub (Fin 13411) (Fin 0) = Fin 13411"
  "fmul (Fin (- 1653)) (Fin 13411) = Fin (- 22168384)"
  "fsub (Fin 1) (Fin 1654) = Fin (- 1653)"
  "fdiv (Fin (- 22168384)) (Fin (- 1653)) = Fin (13732865 / 1024)"
  "fadd (Fin 0) (Fin (13732865 / 1024)) = Fin (13732865 / 1024)"
  by (simp_all add: flt_eval)

lemma c9_inputs:
  "is_f32 (Fin 1654)" "is_f32 (Fin 1)" "is_f32 (Fin 13411)" "is_f32 (Fin (8388609 / 8388608))"
  by (simp_all add: f32_rep_def flt_eval)

lemma c9_lookups:
  "APP_Temp_TableLookup (mk_table [(Fin 1654, Fin 0), (Fin 1, Fin 13411)])
     (Fin (8388609 / 8388608)) =
   interpolate (Fin (8388609 / 8388608)) (Fin 1654) (Fin 0) (Fin 1) (Fin 13411)"
  "APP_Temp_TableLookup (mk_table [(Fin 1654, Fin 0), (Fin 1, Fin 13411)]) (Fin 1) = Fin 13411"
  by (simp_all add: tbl_eval cmp_eval)

text \<open>
  Claim C9 as stated fails by rounding. In the two-point table \<open>[(1654, 0), (1, 13411)]\<close>
  the voltage \<open>1 + 2\<^sup>-\<^sup>2\<^sup>3\<close>, the binary32 number next above the last entry's voltage, is
  mapped to \<open>13411 + 2\<^sup>-\<^sup>1\<^sup>0\<close>, above the last point's temperature, which is the value
  at the voltage 1. The steps: \<open>v - v0\<close> rounds to \<open>-1653\<close>; the product
  \<open>-1653 \<times> 13411 = -22168383\<close> needs 25 bits and rounds to \<open>-22168384\<close>; the quotient
  \<open>22168384 / 1653 = 13411.0006...\<close> rounds to \<open>13411.0009765625\<close>.
\<close>

theorem C9_counterexample:
  "APP_Temp_TableVerify (mk_table [(Fin 1654, Fin 0), (Fin 1, Fin 13411)]) = 0 \<and>
   sorted_wrt (\<lambda>p q. flt (voltage q) (voltage p))
     (table_points (mk_table [(Fin 1654, Fin 0), (Fin 1, Fin 13411)])) \<and>
   sorted_wrt (\<lambda>p q. flt (temperature p) (temperature q))
     (table_points (mk_table [(Fin 1654, Fin 0), (Fin 1, Fin 13411)])) \<and>
   is_f32 (Fin 1654) \<and> is_f32 (Fin 0) \<and> is_f32 (Fin 1) \<and> is_f32 (Fin 13411) \<and>
   is_f32 (Fin (8388609 / 8388608)) \<and>
   fgt (Fin (8388609 / 8388608)) (Fin 1) \<and> fle (Fin (8388609 / 8388608)) (Fin 1654) \<and>
   fge (Fin 1) (Fin 1) \<and>
   APP_Temp_TableLookup (mk_table [(Fin 1654, Fin 0), (Fin 1, Fin 13411)])
     (Fin (8388609 / 8388608)) = Fin (13732865 / 1024) \<and>
   APP_Temp_TableLookup (mk_table [(Fin 1654, Fin 0), (Fin 1, Fin 13411)]) (Fin 1)
     = Fin 13411 \<and>
   \<not> fle (APP_Temp_TableLookup (mk_table [(Fin 1654, Fin 0), (Fin 1, Fin 13411)])
             (Fin (8388609 / 8388608)))
          (APP_Temp_TableLookup (mk_table [(Fin 1654, Fin 0), (Fin 1, Fin 13411)]) (Fin 1))"
proof -
  let ?T = "mk_table [(Fin 1654, Fin 0), (Fin 1, Fin 13411)]"
  have v: "APP_Temp_TableVerify ?T = 0"
    by (simp add: mk_table_def APP_Temp_TableVerify_def TEMP_TABLE_MAGIC_def
        TEMP_TABLE_MAX_POINTS_def)
  have s: "sorted_wrt (\<lambda>p q. flt (voltage q) (voltage p)) (table_points ?T)"
    "sorted_wrt (\<lambda>p q. flt (temperature p) (temperature q)) (table_points ?T)"
    by (simp_all add: mk_table_def cmp_eval)
  have f: "is_f32 (Fin 1654) \<and> is_f32 (Fin 0) \<and> is_f32 (Fin 1) \<and> is_f32 (Fin 13411) \<and>
     is_f32 (Fin (8388609 / 8388608))"
    using c9_inputs f32_table3 by blast
  have o: "fgt (Fin (8388609 / 8388608)) (Fin 1) \<and> fle (Fin (8388609 / 8388608)) (Fin 1654) \<and>
     fge (Fin 1) (Fin 1)"
    by (simp add: cmp_eval)
  have i: "interpolate (Fin (8388609 / 8388608)) (Fin 1654) (Fin 0) (Fin 1) (Fin 13411)
           = Fin (13732865 / 1024)"
    by (simp only: interpolate_def c9_ops)
  have l: "APP_Temp_TableLookup ?T (Fin (8388609 / 8388608)) = Fin (13732865 / 1024)"
    "APP_Temp_TableLookup ?T (Fin 1) = Fin 13411"
    by (simp_all only: c9_lookups i)
  have n: "\<not> fle (Fin (13732865 / 1024)) (Fin 13411)"
    by (simp add: cmp_eval)
  show ?thesis
    unfolding l using v s f o n by blast
qed

end
